(* ===== verification/Prelude.thy ===== *)
theory Prelude
  imports Complex_Main "HOL-Library.Word" "HOL-Library.Sublist"
begin

text \<open>
  Shared vocabulary of the development: the Rust standard-library operations the sources use on
  strings, byte vectors and machine integers, and the lemmas about them that the component
  theories share.

  A Rust \<^verbatim>\<open>String\<close> or \<^verbatim>\<open>Vec<u8>\<close> is the list of its bytes
  (UTF-8 for strings), one \<^typ>\<open>char\<close> per byte, so \<^verbatim>\<open>len()\<close> is
  \<^const>\<open>length\<close> and byte indices are list indices.  Case mapping and white space are those of the
  ASCII range: on text outside ASCII \<^verbatim>\<open>to_lowercase\<close>, \<^verbatim>\<open>to_uppercase\<close>
  and \<^verbatim>\<open>trim\<close> are modelled as leaving the non-ASCII bytes alone.
  UTF-8 validation and lossy decoding are in the theory \<^verbatim>\<open>Utf8\<close>.\<close>

named_theorems text_simps \<open>rewrite rules for the text operations\<close>
named_theorems inv_intros \<open>preservation of the components' invariants\<close>

type_synonym str = string

section \<open>Machine integers\<close>

type_synonym u8 = "8 word"
type_synonym u16 = "16 word"
type_synonym u32 = "32 word"
type_synonym u64 = "64 word"

text \<open>\<^verbatim>\<open>saturating_add\<close> on an unsigned integer of any width.\<close>

definition saturating_add :: "'a::len word \<Rightarrow> 'a word \<Rightarrow> 'a word" where
  "saturating_add a b = (if unat a + unat b < 2 ^ LENGTH('a) then a + b else - 1)"

lemma unat_saturating_add:
  "unat (saturating_add a b) = min (unat a + unat b) (2 ^ LENGTH('a) - 1)"
  for a b :: "'a::len word"
proof (cases "unat a + unat b < 2 ^ LENGTH('a)")
  case True
  then show ?thesis
    by (simp add: saturating_add_def unat_word_ariths)
next
  case False
  then show ?thesis
    by (simp add: saturating_add_def unsigned_minus_1_eq_mask mask_eq_exp_minus_1)
qed

lemma saturating_add_ge_left: "a \<le> saturating_add a b"
  for a b :: "'a::len word"
proof -
  have "unat a < 2 ^ LENGTH('a)" by simp
  then have "unat a \<le> 2 ^ LENGTH('a) - 1" by linarith
  then show ?thesis by (simp add: word_le_nat_alt unat_saturating_add)
qed

lemma saturating_add_mono: "a \<le> c \<Longrightarrow> saturating_add a b \<le> saturating_add c b"
  by (auto simp add: word_le_nat_alt unat_saturating_add)

lemma saturating_add_0 [simp]: "saturating_add a 0 = a"
  by (simp add: saturating_add_def)

section \<open>Results\<close>

text \<open>A fallible operation returns \<open>Inl\<close> its error or \<open>Inr\<close> its value.\<close>

type_synonym ('e, 'a) result = "'e + 'a"

definition bind_result :: "('e, 'a) result \<Rightarrow> ('a \<Rightarrow> ('e, 'b) result) \<Rightarrow> ('e, 'b) result" where
  "bind_result r f = (case r of Inl e \<Rightarrow> Inl e | Inr a \<Rightarrow> f a)"

lemma bind_result_simps [simp]:
  "bind_result (Inl e) f = Inl e"
  "bind_result (Inr a) f = f a"
  by (simp_all add: bind_result_def)

lemma bind_result_Inr_iff: "bind_result r f = Inr b \<longleftrightarrow> (\<exists>a. r = Inr a \<and> f a = Inr b)"
  by (cases r) auto

lemma bind_result_Inl_iff:
  "bind_result r f = Inl e \<longleftrightarrow> r = Inl e \<or> (\<exists>a. r = Inr a \<and> f a = Inl e)"
  by (cases r) auto

text \<open>A \<^verbatim>\<open>for\<close> loop whose body may fail with \<^verbatim>\<open>?\<close>.\<close>

fun map_result :: "('a \<Rightarrow> ('e, 'b) result) \<Rightarrow> 'a list \<Rightarrow> ('e, 'b list) result" where
  "map_result f [] = Inr []"
| "map_result f (x # xs) =
     bind_result (f x) (\<lambda>y. bind_result (map_result f xs) (\<lambda>ys. Inr (y # ys)))"

lemma map_result_Inr_iff:
  "map_result f xs = Inr ys \<longleftrightarrow> list_all2 (\<lambda>x y. f x = Inr y) xs ys"
  by (induction xs arbitrary: ys) (auto simp: bind_result_Inr_iff list_all2_Cons1)

section \<open>Characters\<close>

definition is_ws :: "char \<Rightarrow> bool" where
  "is_ws c = (let n = (of_char c :: nat) in n = 32 \<or> (9 \<le> n \<and> n \<le> 13))"

definition lower_char :: "char \<Rightarrow> char" where
  "lower_char c = (let n = (of_char c :: nat) in if 65 \<le> n \<and> n \<le> 90 then char_of (n + 32) else c)"

definition upper_char :: "char \<Rightarrow> char" where
  "upper_char c = (let n = (of_char c :: nat) in if 97 \<le> n \<and> n \<le> 122 then char_of (n - 32) else c)"

definition is_digit :: "char \<Rightarrow> bool" where
  "is_digit c = (let n = (of_char c :: nat) in 48 \<le> n \<and> n \<le> 57)"

definition is_ascii_alphanumeric :: "char \<Rightarrow> bool" where
  "is_ascii_alphanumeric c =
     (let n = (of_char c :: nat)
      in (48 \<le> n \<and> n \<le> 57) \<or> (65 \<le> n \<and> n \<le> 90) \<or> (97 \<le> n \<and> n \<le> 122))"

lemma lower_char_idem [simp]: "lower_char (lower_char c) = lower_char c"
  by (auto simp: lower_char_def Let_def)

definition to_lower :: "str \<Rightarrow> str" where
  "to_lower s = map lower_char s"

definition to_upper :: "str \<Rightarrow> str" where
  "to_upper s = map upper_char s"

lemma to_lower_simps [simp, text_simps]:
  "to_lower [] = []"
  "to_lower (c # s) = lower_char c # to_lower s"
  "to_lower (s @ t) = to_lower s @ to_lower t"
  "length (to_lower s) = length s"
  "to_lower (to_lower s) = to_lower s"
  "to_lower s = [] \<longleftrightarrow> s = []"
  by (simp_all add: to_lower_def comp_def)

section \<open>Strings\<close>

subsection \<open>Trimming\<close>

definition trim_start :: "str \<Rightarrow> str" where
  "trim_start s = dropWhile is_ws s"

definition trim_end :: "str \<Rightarrow> str" where
  "trim_end s = rev (dropWhile is_ws (rev s))"

definition trim :: "str \<Rightarrow> str" where
  "trim s = trim_end (trim_start s)"

lemma trim_no_ws: "list_all (\<lambda>c. \<not> is_ws c) s \<Longrightarrow> trim s = s"
proof -
  have *: "dropWhile P xs = xs" if "list_all (\<lambda>c. \<not> P c) xs" for P and xs :: str
    using that by (cases xs) simp_all
  assume "list_all (\<lambda>c. \<not> is_ws c) s"
  then show ?thesis
    by (simp add: trim_def trim_start_def trim_end_def *)
qed

lemma set_trim: "set (trim s) \<subseteq> set s"
  by (auto simp: trim_def trim_start_def trim_end_def dest!: set_dropWhileD)

lemma dropWhile_rev_dropWhile:
  "dropWhile P (rev (dropWhile P (rev (dropWhile P xs)))) = rev (dropWhile P (rev (dropWhile P xs)))"
proof (cases "dropWhile P xs")
  case (Cons y ys)
  then have "\<not> P y" by (metis hd_dropWhile list.distinct(1) list.sel(1))
  have "dropWhile P (rev ys @ [y]) = dropWhile P (rev ys) @ [y] \<or> dropWhile P (rev ys @ [y]) = [y]"
    using \<open>\<not> P y\<close> by (induction "rev ys" arbitrary: ys rule: list.induct)
      (auto simp: dropWhile_append3 dropWhile_append)
  with Cons \<open>\<not> P y\<close> show ?thesis by auto
next
  case Nil
  show ?thesis by (simp only: Nil list.simps rev.simps dropWhile.simps)
qed

lemma trim_idem [simp]: "trim (trim s) = trim s"
proof -
  have "trim_start (trim s) = trim s"
    by (simp add: trim_def trim_start_def trim_end_def dropWhile_rev_dropWhile)
  then show ?thesis by (simp add: trim_def [of "trim s"]) (simp add: trim_def trim_end_def)
qed

lemma trim_space: "is_ws c \<Longrightarrow> trim (c # s) = trim s"
  by (simp add: trim_def trim_start_def)

text \<open>\<^verbatim>\<open>trim_end_matches(c)\<close> and \<^verbatim>\<open>trim_start_matches(c)\<close>.\<close>

definition trim_end_char :: "char \<Rightarrow> str \<Rightarrow> str" where
  "trim_end_char c s = rev (dropWhile (\<lambda>d. d = c) (rev s))"

definition trim_start_char :: "char \<Rightarrow> str \<Rightarrow> str" where
  "trim_start_char c s = dropWhile (\<lambda>d. d = c) s"

subsection \<open>Searching\<close>

definition starts_with :: "str \<Rightarrow> str \<Rightarrow> bool" where
  "starts_with s p = prefix p s"

definition ends_with :: "str \<Rightarrow> str \<Rightarrow> bool" where
  "ends_with s p = suffix p s"

definition contains :: "str \<Rightarrow> str \<Rightarrow> bool" where
  "contains s p = sublist p s"

definition strip_prefix :: "str \<Rightarrow> str \<Rightarrow> str option" where
  "strip_prefix s p = (if prefix p s then Some (drop (length p) s) else None)"

definition strip_suffix :: "str \<Rightarrow> str \<Rightarrow> str option" where
  "strip_suffix s p = (if suffix p s then Some (take (length s - length p) s) else None)"

text \<open>\<^verbatim>\<open>find\<close>: the byte index of the first occurrence.\<close>

fun find_sub :: "str \<Rightarrow> str \<Rightarrow> nat option" where
  "find_sub [] p = (if p = [] then Some 0 else None)"
| "find_sub (c # s) p = (if prefix p (c # s) then Some 0 else map_option Suc (find_sub s p))"

lemma find_sub_None_iff: "find_sub s p = None \<longleftrightarrow> \<not> sublist p s"
  by (induction s) (auto simp: sublist_Cons_right)

lemma find_sub_Some_prefix: "find_sub s p = Some i \<Longrightarrow> prefix p (drop i s) \<and> i + length p \<le> length s"
proof (induction s arbitrary: i)
  case Nil
  then show ?case by (simp split: if_splits)
next
  case (Cons c s)
  show ?case
  proof (cases "prefix p (c # s)")
    case True
    with Cons.prems show ?thesis by (auto dest: prefix_length_le)
  next
    case False
    with Cons show ?thesis by fastforce
  qed
qed

subsection \<open>Splitting\<close>

text \<open>\<^verbatim>\<open>split(c)\<close>: the segments between the occurrences of \<open>c\<close>, never the empty list.\<close>

fun split_char :: "char \<Rightarrow> str \<Rightarrow> str list" where
  "split_char c [] = [[]]"
| "split_char c (d # s) =
     (if d = c then [] # split_char c s
      else (case split_char c s of [] \<Rightarrow> [[d]] | x # xs \<Rightarrow> (d # x) # xs))"

lemma split_char_not_Nil [simp]: "split_char c s \<noteq> []"
  by (induction s) (auto split: list.splits)

lemma split_char_append:
  "c \<notin> set x \<Longrightarrow> split_char c (x @ c # y) = x # split_char c y"
  by (induction x) auto

lemma split_char_none: "c \<notin> set x \<Longrightarrow> split_char c x = [x]"
  by (induction x) auto

lemma split_char_no_sep: "list_all (\<lambda>l. c \<notin> set l) (split_char c s)"
  by (induction s) (auto split: list.splits)

text \<open>\<^verbatim>\<open>split_once(c)\<close> and \<^verbatim>\<open>rsplit_once(c)\<close>.\<close>

definition split_once :: "char \<Rightarrow> str \<Rightarrow> (str \<times> str) option" where
  "split_once c s =
     (if c \<in> set s then Some (takeWhile (\<lambda>d. d \<noteq> c) s, tl (dropWhile (\<lambda>d. d \<noteq> c) s)) else None)"

definition rsplit_once :: "char \<Rightarrow> str \<Rightarrow> (str \<times> str) option" where
  "rsplit_once c s =
     (if c \<in> set s
      then Some (rev (tl (dropWhile (\<lambda>d. d \<noteq> c) (rev s))), rev (takeWhile (\<lambda>d. d \<noteq> c) (rev s)))
      else None)"

text \<open>\<^verbatim>\<open>rsplit(c).next()\<close>: the text after the last \<open>c\<close>, the whole text when there is none.\<close>

definition rsplit_first :: "char \<Rightarrow> str \<Rightarrow> str" where
  "rsplit_first c s = rev (takeWhile (\<lambda>d. d \<noteq> c) (rev s))"

lemma rsplit_once_join: "rsplit_once c s = Some (a, b) \<Longrightarrow> s = a @ c # b"
proof -
  assume "rsplit_once c s = Some (a, b)"
  then have cs: "c \<in> set s"
    and a: "a = rev (tl (dropWhile (\<lambda>d. d \<noteq> c) (rev s)))"
    and b: "b = rev (takeWhile (\<lambda>d. d \<noteq> c) (rev s))"
    by (auto simp: rsplit_once_def split: if_splits)
  let ?d = "dropWhile (\<lambda>d. d \<noteq> c) (rev s)"
  have ne: "?d \<noteq> []" using cs by (simp add: dropWhile_eq_Nil_conv)
  then have "hd ?d = c" using hd_dropWhile [of "\<lambda>d. d \<noteq> c" "rev s"] by simp
  with ne have d: "?d = c # tl ?d" by (metis list.collapse)
  have "rev s = takeWhile (\<lambda>d. d \<noteq> c) (rev s) @ ?d" by simp
  then have "s = rev ?d @ rev (takeWhile (\<lambda>d. d \<noteq> c) (rev s))"
    by (metis rev_append rev_rev_ident)
  with d show ?thesis by (metis a b append.assoc append_Cons append_Nil rev.simps(2))
qed

text \<open>\<^verbatim>\<open>split(pat)\<close> for a non-empty pattern, and its first two segments.\<close>

function (sequential) split_str :: "str \<Rightarrow> str \<Rightarrow> str list" where
  "split_str p s =
     (if p = [] then [s]
      else (case find_sub s p of
              None \<Rightarrow> [s]
            | Some i \<Rightarrow> take i s # split_str p (drop (i + length p) s)))"
  by pat_completeness auto
termination
proof (relation "measure (\<lambda>(p, s). length s)", goal_cases)
  case 1
  show ?case by simp
next
  case (2 p s i)
  then show ?case using find_sub_Some_prefix [of s p i] by (cases p) auto
qed

declare split_str.simps [simp del]

text \<open>\<^verbatim>\<open>replace(pat, by)\<close> for a non-empty pattern: leftmost, non-overlapping.\<close>

fun join :: "str \<Rightarrow> str list \<Rightarrow> str" where
  "join sep [] = []"
| "join sep [x] = x"
| "join sep (x # y # ys) = x @ sep @ join sep (y # ys)"

definition replace :: "str \<Rightarrow> str \<Rightarrow> str \<Rightarrow> str" where
  "replace s p r = join r (split_str p s)"

text \<open>\<^verbatim>\<open>lines()\<close>: split at line feeds, each line without its \<open>\r\n\<close> or \<open>\n\<close>; no
  empty line after a final line feed.\<close>

definition LF :: char where "LF = CHR 0x0A"
definition CR :: char where "CR = CHR 0x0D"
definition CRLF :: str where "CRLF = [CR, LF]"

definition strip_cr :: "str \<Rightarrow> str" where
  "strip_cr s = (if s \<noteq> [] \<and> last s = CR then butlast s else s)"

definition lines :: "str \<Rightarrow> str list" where
  "lines s =
     (let segs = split_char LF s; body = map strip_cr (butlast segs)
      in if last segs = [] then body else body @ [last segs])"

text \<open>\<^verbatim>\<open>split_whitespace()\<close>.\<close>

fun split_whitespace_aux :: "str \<Rightarrow> str \<Rightarrow> str list" where
  "split_whitespace_aux acc [] = (if acc = [] then [] else [rev acc])"
| "split_whitespace_aux acc (c # s) =
     (if is_ws c
      then (if acc = [] then split_whitespace_aux [] s else rev acc # split_whitespace_aux [] s)
      else split_whitespace_aux (c # acc) s)"

definition split_whitespace :: "str \<Rightarrow> str list" where
  "split_whitespace s = split_whitespace_aux [] s"

section \<open>Decimal numbers\<close>

definition digit_char :: "nat \<Rightarrow> char" where
  "digit_char d = char_of (48 + d)"

fun show_nat :: "nat \<Rightarrow> str" where
  "show_nat n = (if n < 10 then [digit_char n] else show_nat (n div 10) @ [digit_char (n mod 10)])"

declare show_nat.simps [simp del]

definition show_int :: "int \<Rightarrow> str" where
  "show_int i = (if i < 0 then CHR ''-'' # show_nat (nat (- i)) else show_nat (nat i))"

definition digit_val :: "char \<Rightarrow> nat" where
  "digit_val c = of_char c - 48"

definition digits_val :: "str \<Rightarrow> nat" where
  "digits_val s = foldl (\<lambda>n c. n * 10 + digit_val c) 0 s"

text \<open>\<^verbatim>\<open>parse::<u64>()\<close> and its narrower kin: an optional plus sign, at least one digit, and
  a value that fits; anything else is an error.\<close>

definition parse_uint :: "nat \<Rightarrow> str \<Rightarrow> nat option" where
  "parse_uint w s =
     (let ds = (case s of c # r \<Rightarrow> if c = CHR ''+'' then r else s | [] \<Rightarrow> s)
      in if ds = [] \<or> \<not> list_all is_digit ds then None
         else if digits_val ds < 2 ^ w then Some (digits_val ds) else None)"

text \<open>\<^verbatim>\<open>parse::<i64>()\<close>.\<close>

definition parse_i64 :: "str \<Rightarrow> int option" where
  "parse_i64 s =
     (case s of
        [] \<Rightarrow> None
      | c # r \<Rightarrow>
          let neg = (c = CHR ''-''); ds = (if neg \<or> c = CHR ''+'' then r else s)
          in if ds = [] \<or> \<not> list_all is_digit ds then None
             else let v = (if neg then - int (digits_val ds) else int (digits_val ds))
                  in if - (2 ^ 63) \<le> v \<and> v < 2 ^ 63 then Some v else None)"

lemma is_digit_digit_char [simp]: "d < 10 \<Longrightarrow> is_digit (digit_char d)"
  by (simp add: is_digit_def digit_char_def)

lemma digit_val_digit_char [simp]: "d < 10 \<Longrightarrow> digit_val (digit_char d) = d"
  by (simp add: digit_val_def digit_char_def)

lemma show_nat_not_Nil [simp]: "show_nat n \<noteq> []"
  by (subst show_nat.simps) simp

lemma show_nat_digits: "list_all is_digit (show_nat n)"
proof (induction n rule: show_nat.induct)
  case (1 n)
  then show ?case by (cases "n < 10") (auto simp: show_nat.simps [of n])
qed

lemma digits_val_show_nat: "digits_val (show_nat n) = n"
proof (induction n rule: show_nat.induct)
  case (1 n)
  show ?case
  proof (cases "n < 10")
    case True
    then show ?thesis by (simp add: show_nat.simps [of n] digits_val_def)
  next
    case False
    with 1 have "digits_val (show_nat (n div 10)) = n div 10" by blast
    with False show ?thesis
      by (simp add: show_nat.simps [of n] digits_val_def)
  qed
qed

lemma hd_show_nat_not_plus: "hd (show_nat n) \<noteq> CHR ''+''"
proof -
  have "is_digit (hd (show_nat n))"
    using show_nat_digits [of n] by (metis hd_in_set list.pred_set show_nat_not_Nil)
  then show ?thesis by (auto simp: is_digit_def)
qed

text \<open>Printing a number and parsing it back at a width that holds it gives the number.\<close>

lemma parse_uint_show_nat: "n < 2 ^ w \<Longrightarrow> parse_uint w (show_nat n) = Some n"
  using hd_show_nat_not_plus [of n] show_nat_digits [of n]
  by (cases "show_nat n") (auto simp: parse_uint_def Let_def digits_val_show_nat dest: sym)

lemma show_nat_inject [simp]: "show_nat m = show_nat n \<longleftrightarrow> m = n"
  by (metis digits_val_show_nat)

section \<open>Iterators and clocks\<close>

text \<open>\<^verbatim>\<open>find_map\<close>: the first result of a loop that returns early.\<close>

fun find_map :: "('a \<Rightarrow> 'b option) \<Rightarrow> 'a list \<Rightarrow> 'b option" where
  "find_map f [] = None"
| "find_map f (x # xs) = (case f x of Some y \<Rightarrow> Some y | None \<Rightarrow> find_map f xs)"

lemma find_map_None_iff: "find_map f xs = None \<longleftrightarrow> (\<forall>x \<in> set xs. f x = None)"
  by (induction xs) (auto split: option.splits)

lemma find_map_SomeD: "find_map f xs = Some y \<Longrightarrow> \<exists>x \<in> set xs. f x = Some y"
  by (induction xs) (auto split: option.splits)

lemma find_map_append: "find_map f (xs @ ys) = (case find_map f xs of Some y \<Rightarrow> Some y | None \<Rightarrow> find_map f ys)"
  by (induction xs) (auto split: option.splits)

text \<open>\<^verbatim>\<open>eq_ignore_ascii_case\<close>.\<close>

definition eq_ignore_ascii_case :: "str \<Rightarrow> str \<Rightarrow> bool" where
  "eq_ignore_ascii_case a b = (to_lower a = to_lower b)"

text \<open>\<^verbatim>\<open>Instant::duration_since\<close>: zero when the other instant is later.\<close>

definition duration_since :: "int \<Rightarrow> int \<Rightarrow> int" where
  "duration_since now t = max 0 (now - t)"

section \<open>Pattern literals\<close>

text \<open>A pattern literal: \<open>~\<close> stands for a backslash and \<open>@\<close> for a single quote, neither of which
  occurs in the patterns.\<close>

definition rx :: "str \<Rightarrow> str" where
  "rx s = map (\<lambda>c. if c = CHR ''~'' then CHR 0x5C else if c = CHR ''@'' then CHR 0x27 else c) s"

section \<open>Paths\<close>

text \<open>\<^verbatim>\<open>Path::extension\<close> of the last path component: the text after its last dot, unless that dot
  is its first character.\<close>

definition path_extension :: "str \<Rightarrow> str option" where
  "path_extension p =
     (case rsplit_once (CHR ''.'') (rsplit_first (CHR ''/'') p) of
        Some (stem, ext) \<Rightarrow> if stem = [] then None else Some ext
      | None \<Rightarrow> None)"

end
