(* ===== verification/Net_Addr.thy ===== *)
theory Net_Addr
  imports Prelude
begin

text \<open>
  Network addresses as the sources use them: \<^verbatim>\<open>std::net::IpAddr\<close> and
  \<^verbatim>\<open>SocketAddr\<close> with the \<^verbatim>\<open>to_string\<close> rendering that the rate limiters,
  the WAF exclusion list, the antispam lists and the proxy headers use as a key, and the address
  classes \<^verbatim>\<open>is_private\<close> and \<^verbatim>\<open>is_loopback\<close>.
\<close>

datatype ip_addr =
    V4 u8 u8 u8 u8
  | V6 u16 u16 u16 u16 u16 u16 u16 u16

record socket_addr =
  sa_ip :: ip_addr
  sa_port :: u16

section \<open>Rendering\<close>

definition hex_char :: "nat \<Rightarrow> char" where
  "hex_char d = (if d < 10 then char_of (48 + d) else char_of (87 + d))"

fun show_hex :: "nat \<Rightarrow> str" where
  "show_hex n = (if n < 16 then [hex_char n] else show_hex (n div 16) @ [hex_char (n mod 16)])"

declare show_hex.simps [simp del]

definition show_u8 :: "u8 \<Rightarrow> str" where
  "show_u8 b = show_nat (unat b)"

definition show_v4 :: "u8 \<Rightarrow> u8 \<Rightarrow> u8 \<Rightarrow> u8 \<Rightarrow> str" where
  "show_v4 a b c d = join ''.'' [show_u8 a, show_u8 b, show_u8 c, show_u8 d]"

text \<open>The longest run of zero segments, the first one where several are as long: its start and length.\<close>

fun zero_span :: "u16 list \<Rightarrow> nat \<Rightarrow> nat \<times> nat \<Rightarrow> nat \<times> nat \<Rightarrow> nat \<times> nat" where
  "zero_span [] i cur best = best"
| "zero_span (x # xs) i cur best =
     (if x = 0
      then let cur' = (if snd cur = 0 then i else fst cur, Suc (snd cur))
           in zero_span xs (Suc i) cur' (if snd cur' > snd best then cur' else best)
      else zero_span xs (Suc i) (0, 0) best)"

definition show_segments :: "u16 list \<Rightarrow> str" where
  "show_segments xs = join '':'' (map (\<lambda>x. show_hex (unat x)) xs)"

definition show_v6 :: "u16 list \<Rightarrow> str" where
  "show_v6 xs =
     (let (st, n) = zero_span xs 0 (0, 0) (0, 0)
      in if n > 1 then show_segments (take st xs) @ ''::'' @ show_segments (drop (st + n) xs)
         else show_segments xs)"

definition hi_byte :: "u16 \<Rightarrow> u8" where "hi_byte x = ucast (drop_bit 8 x)"
definition lo_byte :: "u16 \<Rightarrow> u8" where "lo_byte x = ucast x"

fun ip_to_string :: "ip_addr \<Rightarrow> str" where
  "ip_to_string (V4 a b c d) = show_v4 a b c d"
| "ip_to_string (V6 a b c d e f g h) =
     (if [a, b, c, d, e] = [0, 0, 0, 0, 0] \<and> f = 0xffff
      then ''::ffff:'' @ show_v4 (hi_byte g) (lo_byte g) (hi_byte h) (lo_byte h)
      else show_v6 [a, b, c, d, e, f, g, h])"

definition socket_addr_to_string :: "socket_addr \<Rightarrow> str" where
  "socket_addr_to_string a =
     (case sa_ip a of
        V4 _ _ _ _ \<Rightarrow> ip_to_string (sa_ip a)
      | V6 _ _ _ _ _ _ _ _ \<Rightarrow> ''['' @ ip_to_string (sa_ip a) @ '']'') @ '':'' @ show_nat (unat (sa_port a))"

section \<open>Address classes\<close>

fun is_private_or_loopback :: "ip_addr \<Rightarrow> bool" where
  "is_private_or_loopback (V4 a b c d) =
     (a = 10 \<or> (a = 172 \<and> 16 \<le> b \<and> b \<le> 31) \<or> (a = 192 \<and> b = 168) \<or> a = 127)"
| "is_private_or_loopback (V6 a b c d e f g h) =
     ([a, b, c, d, e, f, g, h] = [0, 0, 0, 0, 0, 0, 0, 1])"

definition localhost_v4 :: ip_addr where
  "localhost_v4 = V4 127 0 0 1"

section \<open>The dotted rendering determines the IPv4 address\<close>

lemma show_nat_no_dot: "CHR ''.'' \<notin> set (show_nat n)"
  using show_nat_digits [of n] by (auto simp: list_all_iff is_digit_def)

lemma append_sep_inject:
  "c \<notin> set x \<Longrightarrow> c \<notin> set y \<Longrightarrow> x @ c # r = y @ c # s \<longleftrightarrow> x = y \<and> r = s"
proof (induction x arbitrary: y)
  case Nil
  then show ?case by (cases y) auto
next
  case (Cons d x)
  then show ?case by (cases y) auto
qed

lemma show_u8_inject [simp]: "show_u8 a = show_u8 b \<longleftrightarrow> a = b"
  by (simp add: show_u8_def word_unat_eq_iff)

lemma show_v4_inject: "show_v4 a b c d = show_v4 a' b' c' d' \<longleftrightarrow> a = a' \<and> b = b' \<and> c = c' \<and> d = d'"
  by (simp add: show_v4_def append_sep_inject show_u8_def show_nat_no_dot word_unat_eq_iff)

section \<open>Parsing\<close>

text \<open>\<^verbatim>\<open>parse::<IpAddr>()\<close>: dotted decimal without leading zeros, or the colon form of IPv6 with at
  most one \<open>::\<close>, which stands for at least one zero group, and an optional dotted tail.\<close>

definition parse_octet :: "str \<Rightarrow> u8 option" where
  "parse_octet s =
     (if s = [] \<or> 3 < length s \<or> \<not> list_all is_digit s \<or> (1 < length s \<and> hd s = CHR ''0'') then None
      else if digits_val s \<le> 255 then Some (of_nat (digits_val s)) else None)"

definition parse_v4 :: "str \<Rightarrow> (u8 \<times> u8 \<times> u8 \<times> u8) option" where
  "parse_v4 s =
     (case map parse_octet (split_char (CHR ''.'') s) of
        [Some a, Some b, Some c, Some d] \<Rightarrow> Some (a, b, c, d)
      | _ \<Rightarrow> None)"

definition hex_digit_val :: "char \<Rightarrow> nat option" where
  "hex_digit_val c =
     (let n = (of_char c :: nat) in
      if 48 \<le> n \<and> n \<le> 57 then Some (n - 48)
      else if 97 \<le> n \<and> n \<le> 102 then Some (n - 87)
      else if 65 \<le> n \<and> n \<le> 70 then Some (n - 55) else None)"

fun hex_group_val :: "nat \<Rightarrow> str \<Rightarrow> nat option" where
  "hex_group_val acc [] = Some acc"
| "hex_group_val acc (c # s) =
     (case hex_digit_val c of None \<Rightarrow> None | Some d \<Rightarrow> hex_group_val (16 * acc + d) s)"

definition parse_group :: "str \<Rightarrow> u16 option" where
  "parse_group s =
     (if s = [] \<or> 4 < length s then None else map_option of_nat (hex_group_val 0 s))"

fun parse_groups :: "bool \<Rightarrow> str list \<Rightarrow> u16 list option" where
  "parse_groups v4_tail [] = Some []"
| "parse_groups v4_tail [g] =
     (case parse_group g of
        Some x \<Rightarrow> Some [x]
      | None \<Rightarrow>
          if v4_tail
          then map_option (\<lambda>(a, b, c, d). [word_cat a b, word_cat c d]) (parse_v4 g)
          else None)"
| "parse_groups v4_tail (g # gs) =
     (case (parse_group g, parse_groups v4_tail gs) of
        (Some x, Some xs) \<Rightarrow> Some (x # xs)
      | _ \<Rightarrow> None)"

definition v6_of_groups :: "u16 list \<Rightarrow> ip_addr option" where
  "v6_of_groups gs =
     (case gs of [a, b, c, d, e, f, g, h] \<Rightarrow> Some (V6 a b c d e f g h) | _ \<Rightarrow> None)"

definition colon_groups :: "str \<Rightarrow> str list" where
  "colon_groups s = (if s = [] then [] else split_char (CHR '':'') s)"

definition parse_v6 :: "str \<Rightarrow> ip_addr option" where
  "parse_v6 s =
     (case find_sub s ''::'' of
        None \<Rightarrow> Option.bind (parse_groups True (split_char (CHR '':'') s)) v6_of_groups
      | Some i \<Rightarrow>
          (case (parse_groups False (colon_groups (take i s)),
                 parse_groups True (colon_groups (drop (i + 2) s))) of
             (Some hs, Some ts) \<Rightarrow>
               if length hs + length ts \<le> 7
               then v6_of_groups (hs @ replicate (8 - length hs - length ts) 0 @ ts)
               else None
           | _ \<Rightarrow> None))"

definition parse_ip :: "str \<Rightarrow> ip_addr option" where
  "parse_ip s =
     (case parse_v4 s of
        Some (a, b, c, d) \<Rightarrow> Some (V4 a b c d)
      | None \<Rightarrow> parse_v6 s)"

lemma show_nat_length: "n < 1000 \<Longrightarrow> length (show_nat n) \<le> 3"
  by (subst show_nat.simps, subst show_nat.simps, subst show_nat.simps) auto

lemma hd_show_nat: "1 < length (show_nat n) \<Longrightarrow> hd (show_nat n) \<noteq> CHR ''0''"
proof (induction n rule: show_nat.induct)
  case (1 n)
  show ?case
  proof (cases "n < 10")
    case True
    with 1(2) show ?thesis by (simp add: show_nat.simps)
  next
    case False
    show ?thesis
    proof (cases "1 < length (show_nat (n div 10))")
      case True
      with 1(1) [OF False True] False show ?thesis
        by (subst show_nat.simps) (cases "show_nat (n div 10)"; simp)
    next
      case small: False
      then have "n div 10 < 10"
        by (cases "n div 10 < 10") (auto simp: show_nat.simps [of "n div 10"] show_nat.simps [of "n div 10 div 10"]
            split: if_splits)
      moreover have "0 < n div 10" using False by simp
      ultimately have "show_nat n = [digit_char (n div 10), digit_char (n mod 10)]"
        using False by (simp add: show_nat.simps [of n] show_nat.simps [of "n div 10"])
      moreover have "digit_char (n div 10) \<noteq> CHR ''0''"
      proof
        assume "digit_char (n div 10) = CHR ''0''"
        then have "(of_char (digit_char (n div 10)) :: nat) = 48" by simp
        then show False using \<open>n div 10 < 10\<close> \<open>0 < n div 10\<close> by (simp add: digit_char_def)
      qed
      ultimately show ?thesis by simp
    qed
  qed
qed

lemma parse_octet_show: "parse_octet (show_u8 a) = Some a"
proof -
  have a: "unat a < 256" using unsigned_less [of a, where 'a = nat] by simp
  have "show_nat (unat a) \<noteq> []" by (subst show_nat.simps) simp
  then show ?thesis
    using a show_nat_length [of "unat a"] show_nat_digits [of "unat a"] hd_show_nat [of "unat a"]
    by (simp add: parse_octet_def show_u8_def digits_val_show_nat)
qed

lemma parse_v4_show: "parse_v4 (show_v4 a b c d) = Some (a, b, c, d)"
  by (simp add: parse_v4_def show_v4_def show_u8_def split_char_append split_char_none show_nat_no_dot
      parse_octet_show [unfolded show_u8_def])

text \<open>Every IPv4 address is parsed back from its rendering.\<close>

theorem parse_ip_to_string_v4: "parse_ip (ip_to_string (V4 a b c d)) = Some (V4 a b c d)"
  by (simp add: parse_ip_def parse_v4_show)

end
