(* ===== verification/External_Libs.thy ===== *)
theory External_Libs
  imports Net_Addr
begin

text \<open>
  Crates the program calls and does not contain.  Each is a record of the functions the sources
  call, over arbitrary types for the crate's own values; a definition that calls the crate takes the
  record as an argument.  What a property needs of a crate is one of the named predicates below,
  each a sentence of the crate's documentation.
\<close>

section \<open>The crate ip_network: CIDR networks\<close>

record 'net cidr_lib =
  net_parse :: "str \<Rightarrow> 'net option"
  net_contains :: "'net \<Rightarrow> ip_addr \<Rightarrow> bool"

section \<open>The crate regex\<close>

text \<open>\<^verbatim>\<open>Regex::new\<close> and \<^verbatim>\<open>is_match\<close>; \<^verbatim>\<open>RegexSet::new\<close> and the
  indices that \<^verbatim>\<open>matches(..).into_iter()\<close> yields; \<^verbatim>\<open>escape\<close>.\<close>

record ('re, 'rs) regex_lib =
  re_new :: "str \<Rightarrow> 're option"
  re_is_match :: "'re \<Rightarrow> str \<Rightarrow> bool"
  rs_new :: "str list \<Rightarrow> 'rs option"
  rs_matches :: "'rs \<Rightarrow> str \<Rightarrow> nat list"
  re_escape :: "str \<Rightarrow> str"

text \<open>A regex set reports exactly the indices of its patterns that match, in ascending order.\<close>

definition regex_set_law :: "('re, 'rs) regex_lib \<Rightarrow> bool" where
  "regex_set_law lib \<longleftrightarrow>
     (\<forall>ps rs s. rs_new lib ps = Some rs \<longrightarrow>
        sorted (rs_matches lib rs s) \<and> distinct (rs_matches lib rs s) \<and>
        set (rs_matches lib rs s) =
          {i. i < length ps \<and> (\<exists>re. re_new lib (ps ! i) = Some re \<and> re_is_match lib re s)})"

text \<open>Patterns that compile alone compile as a set (within the crate's size limit).\<close>

definition regex_set_total :: "('re, 'rs) regex_lib \<Rightarrow> bool" where
  "regex_set_total lib \<longleftrightarrow>
     (\<forall>ps. list_all (\<lambda>p. re_new lib p \<noteq> None) ps \<longrightarrow> rs_new lib ps \<noteq> None)"

text \<open>An escaped text matches exactly where the text occurs literally, and it always compiles.\<close>

definition regex_escape_law :: "('re, 'rs) regex_lib \<Rightarrow> bool" where
  "regex_escape_law lib \<longleftrightarrow>
     (\<forall>p re s. re_new lib (re_escape lib p) = Some re \<longrightarrow> (re_is_match lib re s \<longleftrightarrow> sublist p s))"

text \<open>A pattern that is an alternation of literals matches exactly where one of them occurs.\<close>

definition matches_literals :: "('re, 'rs) regex_lib \<Rightarrow> str \<Rightarrow> str list \<Rightarrow> bool" where
  "matches_literals lib pat lits \<longleftrightarrow>
     (\<forall>re s. re_new lib pat = Some re \<longrightarrow> (re_is_match lib re s \<longleftrightarrow> list_ex (\<lambda>l. sublist l s) lits))"

section \<open>The crate maxminddb: country lookup\<close>

text \<open>\<^verbatim>\<open>Reader::open_readfile\<close>, and the ISO code in the country record of an address.\<close>

record 'db geo_lib =
  db_open :: "str \<Rightarrow> 'db option"
  db_iso_code :: "'db \<Rightarrow> ip_addr \<Rightarrow> str option"

section \<open>Concrete instances\<close>

text \<open>Instances for witnesses: a network written as a dotted address prefix, and patterns matched
  as substrings.\<close>

definition prefix_cidr_lib :: "str cidr_lib" where
  "prefix_cidr_lib =
     \<lparr>net_parse = (\<lambda>s. if s = [] then None else Some s),
      net_contains = (\<lambda>n ip. prefix n (ip_to_string ip))\<rparr>"

definition substring_regex_lib :: "(str, str list) regex_lib" where
  "substring_regex_lib =
     \<lparr>re_new = (\<lambda>p. if p = [] then None else Some p),
      re_is_match = (\<lambda>p s. sublist p s),
      rs_new = (\<lambda>ps. if [] \<in> set ps then None else Some ps),
      rs_matches = (\<lambda>ps s. filter (\<lambda>i. sublist (ps ! i) s) [0..<length ps]),
      re_escape = (\<lambda>s. s)\<rparr>"

text \<open>The same with some patterns listed as alternations of literals.\<close>

definition alternation_regex_lib :: "(str \<times> str list) list \<Rightarrow> (str, str list) regex_lib" where
  "alternation_regex_lib alts =
     substring_regex_lib
       \<lparr>re_is_match := (\<lambda>p s. case map_of alts p of
                              Some lits \<Rightarrow> list_ex (\<lambda>l. sublist l s) lits
                            | None \<Rightarrow> sublist p s)\<rparr>"

lemma alternation_regex_lib_literals:
  "map_of alts p = Some lits \<Longrightarrow> matches_literals (alternation_regex_lib alts) p lits"
  by (auto simp: matches_literals_def alternation_regex_lib_def substring_regex_lib_def split: if_splits)

lemma substring_regex_lib_total: "regex_set_total substring_regex_lib"
  by (auto simp: regex_set_total_def substring_regex_lib_def list_all_iff)

lemma substring_regex_lib_escape: "regex_escape_law substring_regex_lib"
  by (auto simp: regex_escape_law_def substring_regex_lib_def split: if_splits)

lemma substring_regex_lib_law: "regex_set_law substring_regex_lib"
proof -
  have "ps ! i \<noteq> []" if "[] \<notin> set ps" "i < length ps" for ps :: "str list" and i
    using that by (metis nth_mem)
  then show ?thesis
    by (auto simp: regex_set_law_def substring_regex_lib_def sorted_wrt_filter split: if_splits)
qed

end
