(* ===== verification/Access_Control.thy ===== *)
theory Access_Control
  imports External_Libs
begin

text \<open>
  The access-control engines of \<^verbatim>\<open>serverwall-core/src/acl\<close>: \<^verbatim>\<open>IpMatcher\<close>,
  \<^verbatim>\<open>AllowList\<close> and \<^verbatim>\<open>BlockList\<close>, \<^verbatim>\<open>AccessControlEngine\<close>,
  \<^verbatim>\<open>GeoEngine\<close> and \<^verbatim>\<open>PathAcl\<close>, and the configuration records they are built
  from.  The lemmas characterise the decision of each engine by the configuration it was built from.
\<close>

section \<open>Configuration\<close>

datatype acl_default_action = Default_Allow | Default_Deny

datatype acl_decision = Acl_Allow | Acl_Deny

datatype acl_error = IpNetworkParseError

record frontend_acl_config =
  fac_allow_list :: "str list"
  fac_block_list :: "str list"
  fac_default_action :: acl_default_action

record ip_acl_config =
  iac_allow :: "str list"
  iac_block :: "str list"

record path_pattern_config =
  ppc_action :: str
  ppc_patterns :: "str list"

record geo_config =
  gc_enabled :: bool
  gc_database_path :: "str option"
  gc_block_countries :: "str list"
  gc_allow_countries :: "str list"

section \<open>IP matching\<close>

record 'net ip_matcher =
  im_networks :: "'net list"

definition ip_matcher_new :: "'net cidr_lib \<Rightarrow> str list \<Rightarrow> (acl_error, 'net ip_matcher) result" where
  "ip_matcher_new lib cidrs =
     bind_result
       (map_result
          (\<lambda>cidr. case net_parse lib cidr of None \<Rightarrow> Inl IpNetworkParseError | Some n \<Rightarrow> Inr n) cidrs)
       (\<lambda>nets. Inr \<lparr>im_networks = nets\<rparr>)"

definition ip_matcher_matches :: "'net cidr_lib \<Rightarrow> 'net ip_matcher \<Rightarrow> ip_addr \<Rightarrow> bool" where
  "ip_matcher_matches lib m ip = list_ex (\<lambda>n. net_contains lib n ip) (im_networks m)"

definition ip_matcher_len :: "'net ip_matcher \<Rightarrow> nat" where
  "ip_matcher_len m = length (im_networks m)"

definition ip_matcher_is_empty :: "'net ip_matcher \<Rightarrow> bool" where
  "ip_matcher_is_empty m = (im_networks m = [])"

text \<open>\<^verbatim>\<open>AllowList\<close> and \<^verbatim>\<open>BlockList\<close> each wrap one matcher.\<close>

record 'net allow_list =
  al_matcher :: "'net ip_matcher"

record 'net block_list =
  bl_matcher :: "'net ip_matcher"

definition allow_list_new :: "'net cidr_lib \<Rightarrow> str list \<Rightarrow> (acl_error, 'net allow_list) result" where
  "allow_list_new lib cidrs =
     bind_result (ip_matcher_new lib cidrs) (\<lambda>m. Inr \<lparr>al_matcher = m\<rparr>)"

definition block_list_new :: "'net cidr_lib \<Rightarrow> str list \<Rightarrow> (acl_error, 'net block_list) result" where
  "block_list_new lib cidrs =
     bind_result (ip_matcher_new lib cidrs) (\<lambda>m. Inr \<lparr>bl_matcher = m\<rparr>)"

definition allow_list_contains :: "'net cidr_lib \<Rightarrow> 'net allow_list \<Rightarrow> ip_addr \<Rightarrow> bool" where
  "allow_list_contains lib al ip = ip_matcher_matches lib (al_matcher al) ip"

definition block_list_contains :: "'net cidr_lib \<Rightarrow> 'net block_list \<Rightarrow> ip_addr \<Rightarrow> bool" where
  "block_list_contains lib bl ip = ip_matcher_matches lib (bl_matcher bl) ip"

section \<open>The access control engine\<close>

record 'net access_control_engine =
  ace_block_list :: "'net block_list option"
  ace_allow_list :: "'net allow_list option"
  ace_default_action :: acl_default_action

definition access_control_from_config ::
  "'net cidr_lib \<Rightarrow> frontend_acl_config \<Rightarrow> (acl_error, 'net access_control_engine) result" where
  "access_control_from_config lib cfg =
     bind_result
       (if fac_block_list cfg = [] then Inr None
        else bind_result (block_list_new lib (fac_block_list cfg)) (\<lambda>b. Inr (Some b)))
       (\<lambda>bl. bind_result
          (if fac_allow_list cfg = [] then Inr None
           else bind_result (allow_list_new lib (fac_allow_list cfg)) (\<lambda>a. Inr (Some a)))
          (\<lambda>al. Inr \<lparr>ace_block_list = bl, ace_allow_list = al,
                     ace_default_action = fac_default_action cfg\<rparr>))"

definition access_control_new ::
  "'net allow_list option \<Rightarrow> 'net block_list option \<Rightarrow> acl_default_action \<Rightarrow> 'net access_control_engine" where
  "access_control_new al bl d =
     \<lparr>ace_block_list = bl, ace_allow_list = al, ace_default_action = d\<rparr>"

definition access_control_evaluate ::
  "'net cidr_lib \<Rightarrow> 'net access_control_engine \<Rightarrow> ip_addr \<Rightarrow> acl_decision" where
  "access_control_evaluate lib e ip =
     (if (case ace_block_list e of Some bl \<Rightarrow> block_list_contains lib bl ip | None \<Rightarrow> False)
      then Acl_Deny
      else (case ace_allow_list e of
              Some al \<Rightarrow> if allow_list_contains lib al ip then Acl_Allow else Acl_Deny
            | None \<Rightarrow>
                (case ace_default_action e of
                   Default_Allow \<Rightarrow> Acl_Allow
                 | Default_Deny \<Rightarrow> Acl_Deny)))"

definition access_control_is_allowed ::
  "'net cidr_lib \<Rightarrow> 'net access_control_engine \<Rightarrow> ip_addr \<Rightarrow> bool" where
  "access_control_is_allowed lib e ip = (access_control_evaluate lib e ip = Acl_Allow)"

definition access_control_from_global_ip ::
  "'net cidr_lib \<Rightarrow> ip_acl_config \<Rightarrow> (acl_error, 'net access_control_engine) result" where
  "access_control_from_global_ip lib cfg =
     bind_result
       (if iac_block cfg = [] then Inr None
        else bind_result (block_list_new lib (iac_block cfg)) (\<lambda>b. Inr (Some b)))
       (\<lambda>bl. bind_result
          (if iac_allow cfg = [] then Inr None
           else bind_result (allow_list_new lib (iac_allow cfg)) (\<lambda>a. Inr (Some a)))
          (\<lambda>al. Inr \<lparr>ace_block_list = bl, ace_allow_list = al,
                     ace_default_action = Default_Allow\<rparr>))"

section \<open>The geo engine\<close>

record 'db geo_engine =
  ge_reader :: 'db
  ge_block_countries :: "str set"
  ge_allow_countries :: "str set"

definition geo_engine_load ::
  "'db geo_lib \<Rightarrow> str \<Rightarrow> str list \<Rightarrow> str list \<Rightarrow> 'db geo_engine option" where
  "geo_engine_load lib path block allow =
     (case db_open lib path of
        None \<Rightarrow> None
      | Some db \<Rightarrow> Some \<lparr>ge_reader = db, ge_block_countries = set (map to_upper block),
                         ge_allow_countries = set (map to_upper allow)\<rparr>)"

definition geo_engine_from_config :: "'db geo_lib \<Rightarrow> geo_config \<Rightarrow> 'db geo_engine option" where
  "geo_engine_from_config lib cfg =
     (if \<not> gc_enabled cfg then None
      else case gc_database_path cfg of
             None \<Rightarrow> None
           | Some p \<Rightarrow> geo_engine_load lib p (gc_block_countries cfg) (gc_allow_countries cfg))"

definition geo_lookup_country :: "'db geo_lib \<Rightarrow> 'db geo_engine \<Rightarrow> ip_addr \<Rightarrow> str option" where
  "geo_lookup_country lib g ip = map_option to_upper (db_iso_code lib (ge_reader g) ip)"

definition geo_engine_check :: "'db geo_lib \<Rightarrow> 'db geo_engine \<Rightarrow> ip_addr \<Rightarrow> acl_decision" where
  "geo_engine_check lib g ip =
     (let country = geo_lookup_country lib g ip
      in if ge_allow_countries g \<noteq> {}
         then (case country of
                 Some cc \<Rightarrow> if cc \<in> ge_allow_countries g then Acl_Allow else Acl_Deny
               | None \<Rightarrow> Acl_Deny)
         else if ge_block_countries g \<noteq> {} \<and>
                 (case country of Some cc \<Rightarrow> cc \<in> ge_block_countries g | None \<Rightarrow> False)
         then Acl_Deny
         else Acl_Allow)"

section \<open>The path engine\<close>

record 're path_acl =
  pa_rules :: "('re list \<times> bool) list"

definition path_acl_compile :: "('re, 'rs) regex_lib \<Rightarrow> str list \<Rightarrow> 're list" where
  "path_acl_compile lib ps = List.map_filter (re_new lib) ps"

definition path_acl_from_config ::
  "('re, 'rs) regex_lib \<Rightarrow> path_pattern_config list \<Rightarrow> 're path_acl" where
  "path_acl_from_config lib entries =
     \<lparr>pa_rules =
        filter (\<lambda>(res, _). res \<noteq> [])
          (map (\<lambda>e. (path_acl_compile lib (ppc_patterns e), to_lower (ppc_action e) = ''block''))
             entries)\<rparr>"

fun path_rules_check ::
  "('re, 'rs) regex_lib \<Rightarrow> ('re list \<times> bool) list \<Rightarrow> str \<Rightarrow> acl_decision option" where
  "path_rules_check lib [] path = None"
| "path_rules_check lib ((res, block) # rules) path =
     (if list_ex (\<lambda>re. re_is_match lib re path) res
      then Some (if block then Acl_Deny else Acl_Allow)
      else path_rules_check lib rules path)"

definition path_acl_check :: "('re, 'rs) regex_lib \<Rightarrow> 're path_acl \<Rightarrow> str \<Rightarrow> acl_decision option" where
  "path_acl_check lib acl path = path_rules_check lib (pa_rules acl) path"

definition path_acl_is_empty :: "'re path_acl \<Rightarrow> bool" where
  "path_acl_is_empty acl = (pa_rules acl = [])"

section \<open>What the engines decide\<close>

text \<open>The network lists as the configuration states them: some entry parses to a network that
  contains the address.\<close>

definition cidr_match :: "'net cidr_lib \<Rightarrow> str list \<Rightarrow> ip_addr \<Rightarrow> bool" where
  "cidr_match lib cidrs ip =
     list_ex (\<lambda>c. case net_parse lib c of None \<Rightarrow> False | Some n \<Rightarrow> net_contains lib n ip) cidrs"

definition cidrs_valid :: "'net cidr_lib \<Rightarrow> str list \<Rightarrow> bool" where
  "cidrs_valid lib cidrs = list_all (\<lambda>c. net_parse lib c \<noteq> None) cidrs"

text \<open>The documented evaluation order as one formula over the configured lists: block list first,
  then a non-empty allow list, then the default.\<close>

definition acl_spec ::
  "'net cidr_lib \<Rightarrow> str list \<Rightarrow> str list \<Rightarrow> acl_default_action \<Rightarrow> ip_addr \<Rightarrow> bool" where
  "acl_spec lib block allow d ip \<longleftrightarrow>
     \<not> cidr_match lib block ip \<and>
     (if allow = [] then d = Default_Allow else cidr_match lib allow ip)"

lemma ip_matcher_new_Inr_iff:
  "ip_matcher_new lib cs = Inr m \<longleftrightarrow> map (net_parse lib) cs = map Some (im_networks m)"
proof -
  have "map_result (\<lambda>c. case net_parse lib c of None \<Rightarrow> Inl IpNetworkParseError | Some n \<Rightarrow> Inr n) cs
          = Inr ns \<longleftrightarrow> map (net_parse lib) cs = map Some ns" for ns
    by (induction cs arbitrary: ns) (auto simp: bind_result_Inr_iff split: option.splits)
  then show ?thesis
    by (cases m) (auto simp: ip_matcher_new_def bind_result_Inr_iff)
qed

lemma ip_matcher_matches_new:
  assumes "ip_matcher_new lib cs = Inr m"
  shows "ip_matcher_matches lib m ip = cidr_match lib cs ip"
proof -
  have "list_ex (\<lambda>n. net_contains lib n ip) ns = cidr_match lib cs ip"
    if "map (net_parse lib) cs = map Some ns" for ns
    using that
  proof (induction cs arbitrary: ns)
    case Nil
    then show ?case by (simp add: cidr_match_def)
  next
    case (Cons c cs)
    then show ?case by (cases ns) (auto simp: cidr_match_def)
  qed
  with assms show ?thesis
    by (simp add: ip_matcher_matches_def ip_matcher_new_Inr_iff)
qed

lemma ip_matcher_new_total:
  "(\<exists>m. ip_matcher_new lib cs = Inr m) \<longleftrightarrow> cidrs_valid lib cs"
proof -
  have "(\<exists>ns. map (net_parse lib) cs = map Some ns) \<longleftrightarrow> cidrs_valid lib cs"
    unfolding cidrs_valid_def
    by (induction cs) (auto simp: Cons_eq_map_conv map_eq_Cons_conv)
  moreover have "(\<exists>m. map (net_parse lib) cs = map Some (im_networks m)) \<longleftrightarrow>
      (\<exists>ns. map (net_parse lib) cs = map Some ns)"
    by (metis ip_matcher.select_convs(1))
  ultimately show ?thesis by (simp add: ip_matcher_new_Inr_iff)
qed

lemma allow_list_new_Inr_iff:
  "allow_list_new lib cs = Inr al \<longleftrightarrow> ip_matcher_new lib cs = Inr (al_matcher al)"
  by (cases al) (auto simp: allow_list_new_def bind_result_Inr_iff)

lemma block_list_new_Inr_iff:
  "block_list_new lib cs = Inr bl \<longleftrightarrow> ip_matcher_new lib cs = Inr (bl_matcher bl)"
  by (cases bl) (auto simp: block_list_new_def bind_result_Inr_iff)

lemma allow_list_contains_new:
  "allow_list_new lib cs = Inr al \<Longrightarrow> allow_list_contains lib al ip = cidr_match lib cs ip"
  by (simp add: allow_list_new_Inr_iff allow_list_contains_def ip_matcher_matches_new)

lemma block_list_contains_new:
  "block_list_new lib cs = Inr bl \<Longrightarrow> block_list_contains lib bl ip = cidr_match lib cs ip"
  by (simp add: block_list_new_Inr_iff block_list_contains_def ip_matcher_matches_new)

lemma allow_list_new_total: "(\<exists>al. allow_list_new lib cs = Inr al) \<longleftrightarrow> cidrs_valid lib cs"
  by (metis allow_list_new_Inr_iff allow_list.select_convs(1) ip_matcher_new_total)

lemma block_list_new_total: "(\<exists>bl. block_list_new lib cs = Inr bl) \<longleftrightarrow> cidrs_valid lib cs"
  by (metis block_list_new_Inr_iff block_list.select_convs(1) ip_matcher_new_total)

lemmas list_new_facts =
  allow_list_contains_new block_list_contains_new bind_result_Inr_iff

lemma cidr_match_Nil [simp]: "\<not> cidr_match lib [] ip"
  by (simp add: cidr_match_def)

text \<open>Both constructors build the same engine; only the default action differs.\<close>

lemma access_control_from_global_ip_eq:
  "access_control_from_global_ip lib cfg =
     access_control_from_config lib
       \<lparr>fac_allow_list = iac_allow cfg, fac_block_list = iac_block cfg,
        fac_default_action = Default_Allow\<rparr>"
  by (simp add: access_control_from_global_ip_def access_control_from_config_def)

lemma access_control_refines:
  assumes "access_control_from_config lib cfg = Inr e"
  shows "access_control_is_allowed lib e ip =
         acl_spec lib (fac_block_list cfg) (fac_allow_list cfg) (fac_default_action cfg) ip"
  using assms
  by (cases "fac_default_action cfg")
     (auto simp: access_control_from_config_def access_control_is_allowed_def acl_spec_def
        access_control_evaluate_def list_new_facts split: if_splits)

lemma access_control_from_config_ok_iff:
  "(\<exists>e. access_control_from_config lib cfg = Inr e) \<longleftrightarrow>
     cidrs_valid lib (fac_block_list cfg) \<and> cidrs_valid lib (fac_allow_list cfg)"
proof -
  have 1: "cidrs_valid lib []" by (simp add: cidrs_valid_def)
  show ?thesis
    using 1 block_list_new_total [of lib "fac_block_list cfg"]
      allow_list_new_total [of lib "fac_allow_list cfg"]
    by (auto simp: access_control_from_config_def bind_result_Inr_iff)
qed

text \<open>C14. A frontend's access-control engine exists exactly when every configured CIDR parses, and then
  it allows an address exactly when no block-list network contains it and it is in the allow list,
  if one is configured, or else the default action is to allow.\<close>

theorem access_control_correct:
  "case access_control_from_config lib cfg of
     Inl err \<Rightarrow> \<not> (cidrs_valid lib (fac_block_list cfg) \<and> cidrs_valid lib (fac_allow_list cfg))
   | Inr e \<Rightarrow> cidrs_valid lib (fac_block_list cfg) \<and> cidrs_valid lib (fac_allow_list cfg) \<and>
       (\<forall>ip. access_control_evaluate lib e ip =
          (if acl_spec lib (fac_block_list cfg) (fac_allow_list cfg) (fac_default_action cfg) ip
           then Acl_Allow else Acl_Deny))"
proof (cases "access_control_from_config lib cfg")
  case (Inl err)
  then show ?thesis
    using access_control_from_config_ok_iff [of lib cfg] by simp
next
  case (Inr e)
  have "access_control_evaluate lib e ip =
      (if acl_spec lib (fac_block_list cfg) (fac_allow_list cfg) (fac_default_action cfg) ip
       then Acl_Allow else Acl_Deny)" for ip
    using access_control_refines [OF Inr, of ip]
    by (cases "access_control_evaluate lib e ip") (auto simp: access_control_is_allowed_def)
  then show ?thesis
    using Inr access_control_from_config_ok_iff [of lib cfg] by simp
qed

text \<open>The path engine is a first-match engine over the configuration: an entry decides a path
  when it is the first one with a valid pattern matching the path, and it denies exactly when its
  action is a spelling of block in any letter case.  Entries without a valid pattern never decide.\<close>

theorem path_acl_first_match:
  "path_acl_check lib (path_acl_from_config lib entries) path =
     map_option (\<lambda>e. if to_lower (ppc_action e) = ''block'' then Acl_Deny else Acl_Allow)
       (find (\<lambda>e. \<exists>p \<in> set (ppc_patterns e). \<exists>re. re_new lib p = Some re \<and> re_is_match lib re path)
          entries)"
proof -
  have *: "list_ex (\<lambda>re. re_is_match lib re path) (path_acl_compile lib ps) \<longleftrightarrow>
      (\<exists>p \<in> set ps. \<exists>re. re_new lib p = Some re \<and> re_is_match lib re path)" for ps
    by (induction ps) (auto simp: path_acl_compile_def List.map_filter_simps split: option.splits)
  have "list_ex P xs \<Longrightarrow> xs \<noteq> []" for P and xs :: "'a list"
    by auto
  then show ?thesis
    unfolding path_acl_check_def path_acl_from_config_def
    by (induction entries) (auto simp flip: *)
qed

text \<open>The geo engine's decision from its configuration: with an allow list only the listed
  countries pass and an address of unknown country is denied; without one, only the blocked
  countries are denied.  The block list is not consulted when an allow list is configured.\<close>

theorem geo_engine_decision:
  assumes "geo_engine_from_config lib cfg = Some g"
  shows "geo_engine_check lib g ip = Acl_Allow \<longleftrightarrow>
    (case map_option to_upper (db_iso_code lib (ge_reader g) ip) of
       None \<Rightarrow> gc_allow_countries cfg = []
     | Some cc \<Rightarrow>
         if gc_allow_countries cfg \<noteq> []
         then cc \<in> to_upper ` set (gc_allow_countries cfg)
         else cc \<notin> to_upper ` set (gc_block_countries cfg))"
  using assms
  by (auto simp: geo_engine_from_config_def geo_engine_load_def geo_engine_check_def
      geo_lookup_country_def Let_def split: option.splits if_splits)

theorem geo_engine_decision_witness:
  "geo_engine_check \<lparr>db_open = (\<lambda>p. Some p), db_iso_code = (\<lambda>db ip. None)\<rparr>
     \<lparr>ge_reader = ''geo.mmdb'', ge_block_countries = {}, ge_allow_countries = {''DE''}\<rparr>
     localhost_v4 = Acl_Deny"
proof -
  have "geo_engine_from_config \<lparr>db_open = (\<lambda>p. Some p), db_iso_code = (\<lambda>db ip. None)\<rparr>
      \<lparr>gc_enabled = True, gc_database_path = Some ''geo.mmdb'', gc_block_countries = [],
       gc_allow_countries = [''DE'']\<rparr> =
    Some \<lparr>ge_reader = ''geo.mmdb'', ge_block_countries = {}, ge_allow_countries = {''DE''}\<rparr>"
    by code_simp
  from geo_engine_decision [OF this, of localhost_v4] show ?thesis
    by (cases "geo_engine_check \<lparr>db_open = (\<lambda>p. Some p), db_iso_code = (\<lambda>db ip. None)\<rparr>
     \<lparr>ge_reader = ''geo.mmdb'', ge_block_countries = {}, ge_allow_countries = {''DE''}\<rparr>
     localhost_v4") simp_all
qed

end
