(* ===== verification/Balancer.thy ===== *)
theory Balancer
  imports Net_Addr
begin

text \<open>
  Backends with their runtime counters (\<^verbatim>\<open>serverwall-core/src/types.rs\<close>) and the three
  load balancers of \<^verbatim>\<open>serverwall-core/src/balancer\<close>.  A backend shared through an
  \<^verbatim>\<open>Arc\<close> is a position of the pool; the \<^verbatim>\<open>AtomicUsize\<close> counters are 64-bit
  words.  \<^verbatim>\<open>Uuid::new_v5\<close> and the hash that \<^verbatim>\<open>DefaultHasher\<close> computes
  (whose algorithm the standard library leaves unspecified) are arguments.  The trait
  \<^verbatim>\<open>LoadBalancer\<close> is the locale \<open>load_balancer\<close>, interpreted for each balancer and for the
  dynamic dispatch over them.
\<close>

section \<open>Backends\<close>

type_synonym backend_id = str

record backend =
  be_id :: backend_id
  be_tag :: str
  be_address :: socket_addr
  be_weight :: u32
  be_tls :: bool
  be_tls_verify :: bool
  be_tls_sni :: "str option"
  be_max_connections :: "u64 option"
  be_enabled :: bool
  be_active_connections :: u64
  be_total_connections :: u64
  be_healthy :: bool

text \<open>\<^verbatim>\<open>{:02x}\<close>.\<close>

definition hex2 :: "u8 \<Rightarrow> str" where
  "hex2 b = [hex_char (unat b div 16), hex_char (unat b mod 16)]"

definition backend_new :: "(str \<Rightarrow> u8 list) \<Rightarrow> backend_id \<Rightarrow> socket_addr \<Rightarrow> u32 \<Rightarrow> bool \<Rightarrow> backend" where
  "backend_new uuid_v5_oid i addr weight tls =
     (let tag_input = i @ ''@'' @ socket_addr_to_string addr;
          bytes = uuid_v5_oid tag_input;
          tag = hex2 (bytes ! 0) @ hex2 (bytes ! 1) @ hex2 (bytes ! 2)
      in \<lparr>be_id = i, be_tag = tag, be_address = addr, be_weight = weight, be_tls = tls,
          be_tls_verify = False, be_tls_sni = None, be_max_connections = None, be_enabled = True,
          be_active_connections = 0, be_total_connections = 0, be_healthy = True\<rparr>)"

definition backend_is_available :: "backend \<Rightarrow> bool" where
  "backend_is_available b \<longleftrightarrow>
     be_enabled b \<and> be_healthy b \<and>
     (case be_max_connections b of None \<Rightarrow> True | Some mx \<Rightarrow> be_active_connections b < mx)"

definition backend_active_count :: "backend \<Rightarrow> u64" where
  "backend_active_count b = be_active_connections b"

text \<open>A \<^verbatim>\<open>ConnectionGuard\<close> is the position of its backend; creating and dropping one are the
  two atomic updates.\<close>

definition connection_guard_new :: "backend list \<Rightarrow> nat \<Rightarrow> backend list" where
  "connection_guard_new bs i =
     (if i < length bs
      then bs[i := (bs ! i)\<lparr>be_active_connections := be_active_connections (bs ! i) + 1,
                             be_total_connections := be_total_connections (bs ! i) + 1\<rparr>]
      else bs)"

definition connection_guard_drop :: "backend list \<Rightarrow> nat \<Rightarrow> backend list" where
  "connection_guard_drop bs i =
     (if i < length bs
      then bs[i := (bs ! i)\<lparr>be_active_connections := be_active_connections (bs ! i) - 1\<rparr>]
      else bs)"

section \<open>The balancers\<close>

definition available_indices :: "backend list \<Rightarrow> nat list" where
  "available_indices bs = filter (\<lambda>i. backend_is_available (bs ! i)) [0..<length bs]"

record round_robin =
  rr_counter :: u64

definition round_robin_new :: round_robin where
  "round_robin_new = \<lparr>rr_counter = 0\<rparr>"

definition round_robin_select ::
  "round_robin \<Rightarrow> backend list \<Rightarrow> ip_addr option \<Rightarrow> nat option \<times> round_robin" where
  "round_robin_select rr bs client_ip =
     (let available = available_indices bs
      in if available = [] then (None, rr)
         else let idx = unat (rr_counter rr) mod length available
              in (Some (available ! idx), rr\<lparr>rr_counter := rr_counter rr + 1\<rparr>))"

text \<open>\<^verbatim>\<open>Iterator::min_by_key\<close> over positions: the first of the minimal elements.\<close>

fun min_by_key :: "(nat \<Rightarrow> 'k::linorder) \<Rightarrow> nat list \<Rightarrow> nat option" where
  "min_by_key f [] = None"
| "min_by_key f (x # xs) =
     (case min_by_key f xs of
        None \<Rightarrow> Some x
      | Some y \<Rightarrow> if f x \<le> f y then Some x else Some y)"

definition least_connections_select :: "backend list \<Rightarrow> ip_addr option \<Rightarrow> nat option" where
  "least_connections_select bs client_ip =
     min_by_key (\<lambda>i. backend_active_count (bs ! i)) (available_indices bs)"

definition ip_hash_select :: "(ip_addr \<Rightarrow> u64) \<Rightarrow> backend list \<Rightarrow> ip_addr option \<Rightarrow> nat option" where
  "ip_hash_select hash bs client_ip =
     (let available = available_indices bs
      in if available = [] then None
         else let ip = (case client_ip of Some ip \<Rightarrow> ip | None \<Rightarrow> localhost_v4);
                  idx = unat (hash ip) mod length available
              in Some (available ! idx))"

text \<open>\<^verbatim>\<open>Box<dyn LoadBalancer>\<close>: the balancer and its state.\<close>

datatype balancer = RoundRobin round_robin | LeastConnections | IpHash

fun balancer_select ::
  "(ip_addr \<Rightarrow> u64) \<Rightarrow> balancer \<Rightarrow> backend list \<Rightarrow> ip_addr option \<Rightarrow> nat option \<times> balancer" where
  "balancer_select hash (RoundRobin rr) bs ip =
     (case round_robin_select rr bs ip of (r, rr') \<Rightarrow> (r, RoundRobin rr'))"
| "balancer_select hash LeastConnections bs ip = (least_connections_select bs ip, LeastConnections)"
| "balancer_select hash IpHash bs ip = (ip_hash_select hash bs ip, IpHash)"

section \<open>The LoadBalancer contract\<close>

text \<open>What the trait's documentation asks of an implementation: it picks only available backends,
  and it picks one whenever there is one.\<close>

locale load_balancer =
  fixes select :: "'s \<Rightarrow> backend list \<Rightarrow> ip_addr option \<Rightarrow> nat option \<times> 's"
  assumes select_available:
      "fst (select s bs ip) = Some i \<Longrightarrow> i < length bs \<and> backend_is_available (bs ! i)"
    and select_None: "fst (select s bs ip) = None \<Longrightarrow> b \<in> set bs \<Longrightarrow> \<not> backend_is_available b"
begin

lemma select_enabled:
  "fst (select s bs ip) = Some i \<Longrightarrow> be_enabled (bs ! i) \<and> be_healthy (bs ! i)"
  using select_available [of s bs ip i] by (simp add: backend_is_available_def)

lemma select_succeeds:
  "b \<in> set bs \<Longrightarrow> backend_is_available b \<Longrightarrow> \<exists>i. fst (select s bs ip) = Some i"
  using select_None by fastforce

text \<open>A guard taken right after a selection keeps the backend within its limit.\<close>

lemma select_guard_within_limit:
  assumes "fst (select s bs ip) = Some i" "be_max_connections (bs ! i) = Some mx"
  shows "be_active_connections (connection_guard_new bs i ! i) \<le> mx"
proof -
  from select_available [OF assms(1)] assms(2)
  have i: "i < length bs" and lt: "be_active_connections (bs ! i) < mx"
    by (simp_all add: backend_is_available_def)
  from lt have "be_active_connections (bs ! i) + 1 \<le> mx"
    by (rule inc_le)
  with i show ?thesis by (simp add: connection_guard_new_def)
qed

end

section \<open>The contract holds for each balancer\<close>

lemma set_available_indices:
  "set (available_indices bs) = {i. i < length bs \<and> backend_is_available (bs ! i)}"
  by (auto simp: available_indices_def)

lemma distinct_available_indices [simp]: "distinct (available_indices bs)"
  by (simp add: available_indices_def)

lemma available_indices_Nil_iff:
  "available_indices bs = [] \<longleftrightarrow> (\<forall>b \<in> set bs. \<not> backend_is_available b)"
  by (auto simp: available_indices_def filter_empty_conv all_set_conv_all_nth)

lemma available_nth_mod:
  assumes "available_indices bs \<noteq> []"
  shows "available_indices bs ! (k mod length (available_indices bs)) \<in> set (available_indices bs)"
  using assms by simp

lemma min_by_key_None_iff [simp]: "min_by_key f xs = None \<longleftrightarrow> xs = []"
  by (cases xs) (auto split: option.splits)

lemma min_by_key_Some:
  "min_by_key f xs = Some y \<Longrightarrow> y \<in> set xs \<and> (\<forall>x \<in> set xs. f y \<le> f x)"
  by (induction xs arbitrary: y) (fastforce split: option.splits if_splits)+

interpretation rr: load_balancer round_robin_select
proof unfold_locales
  fix s bs ip i
  assume "fst (round_robin_select s bs ip) = Some i"
  then have "i \<in> set (available_indices bs)"
    by (auto simp: round_robin_select_def Let_def split: if_splits)
  then show "i < length bs \<and> backend_is_available (bs ! i)"
    by (simp add: set_available_indices)
next
  fix s bs ip b
  assume "fst (round_robin_select s bs ip) = None" "b \<in> set bs"
  then show "\<not> backend_is_available b"
    by (auto simp: round_robin_select_def Let_def available_indices_Nil_iff split: if_splits)
qed

interpretation lc: load_balancer "\<lambda>s bs ip. (least_connections_select bs ip, s)"
proof unfold_locales
  fix s :: 'a and bs ip i
  assume "fst (least_connections_select bs ip, s) = Some i"
  then have "i \<in> set (available_indices bs)"
    using min_by_key_Some by (auto simp: least_connections_select_def)
  then show "i < length bs \<and> backend_is_available (bs ! i)"
    by (simp add: set_available_indices)
qed (simp_all add: least_connections_select_def available_indices_Nil_iff)

interpretation ih: load_balancer "\<lambda>s bs ip. (ip_hash_select hash bs ip, s)" for hash
proof unfold_locales
  fix bs ip i s
  assume "fst (ip_hash_select hash bs ip, s) = Some i"
  then have "i \<in> set (available_indices bs)"
    by (auto simp: ip_hash_select_def Let_def split: if_splits)
  then show "i < length bs \<and> backend_is_available (bs ! i)"
    by (simp add: set_available_indices)
next
  fix bs ip s b
  assume "fst (ip_hash_select hash bs ip, s) = None" "b \<in> set bs"
  then show "\<not> backend_is_available b"
    by (auto simp: ip_hash_select_def Let_def available_indices_Nil_iff split: if_splits)
qed

interpretation lb: load_balancer "balancer_select hash" for hash
proof unfold_locales
  fix s bs ip i
  assume "fst (balancer_select hash s bs ip) = Some i"
  then show "i < length bs \<and> backend_is_available (bs ! i)"
    using rr.select_available lc.select_available ih.select_available
    by (cases s) (auto split: prod.splits, (metis fst_conv)+)
next
  fix s bs ip b
  assume "fst (balancer_select hash s bs ip) = None" "b \<in> set bs"
  then show "\<not> backend_is_available b"
    using rr.select_None lc.select_None ih.select_None
    by (cases s) (auto split: prod.splits, (metis fst_conv)+)
qed

section \<open>What each balancer adds\<close>

text \<open>The picks of consecutive selections on an unchanged pool.\<close>

primrec picks ::
  "('s \<Rightarrow> backend list \<Rightarrow> ip_addr option \<Rightarrow> nat option \<times> 's) \<Rightarrow> nat \<Rightarrow> 's \<Rightarrow> backend list
     \<Rightarrow> ip_addr option \<Rightarrow> nat option list" where
  "picks select 0 s bs ip = []"
| "picks select (Suc n) s bs ip =
     fst (select s bs ip) # picks select n (snd (select s bs ip)) bs ip"

lemma round_robin_picks:
  assumes "available_indices bs \<noteq> []" "unat (rr_counter s) + n \<le> 2 ^ 64"
  shows "picks round_robin_select n s bs ip =
    map (\<lambda>j. Some (available_indices bs ! ((unat (rr_counter s) + j) mod length (available_indices bs))))
      [0..<n]"
  using assms(2)
proof (induction n arbitrary: s)
  case 0
  then show ?case by simp
next
  case (Suc n)
  let ?s = "s\<lparr>rr_counter := rr_counter s + 1\<rparr>"
  show ?case
  proof (cases n)
    case 0
    with assms(1) show ?thesis by (simp add: round_robin_select_def Let_def)
  next
    case (Suc m)
    have step: "unat (rr_counter ?s) = Suc (unat (rr_counter s))"
      using Suc.prems Suc by (simp add: unat_word_ariths)
    have "[0..<Suc n] = 0 # map Suc [0..<n]"
      by (simp add: map_Suc_upt upt_conv_Cons)
    then show ?thesis
      using Suc.IH [of ?s] Suc.prems assms(1) step
      by (simp add: round_robin_select_def Let_def)
  qed
qed

lemma cyclic_block:
  assumes "xs \<noteq> []"
  shows "map (\<lambda>j. xs ! ((a + j) mod length xs)) [0..<length xs] = rotate a xs"
  using assms by (intro nth_equalityI) (simp_all add: nth_rotate)

lemma count_list_map_inj:
  "inj f \<Longrightarrow> count_list (map f xs) (f x) = count_list xs x"
  by (induction xs) (auto dest: injD)

lemma count_list_distinct:
  "distinct xs \<Longrightarrow> x \<in> set xs \<Longrightarrow> count_list xs x = 1"
  by (induction xs) (auto simp: count_list_0_iff)

lemma count_cyclic:
  assumes "distinct xs" "x \<in> set xs"
  shows "count_list (map (\<lambda>j. xs ! ((a + j) mod length xs)) [0..<k * length xs]) x = k"
proof (induction k arbitrary: a)
  case 0
  then show ?case by simp
next
  case (Suc k)
  have ne: "xs \<noteq> []" using assms(2) by auto
  let ?n = "length xs"
  have "[0..<Suc k * ?n] = [0..<?n] @ map (\<lambda>j. ?n + j) [0..<k * ?n]"
    using upt_add_eq_append [of 0 ?n "k * ?n"] by (simp add: map_add_upt add.commute)
  moreover have "(a + (?n + j)) mod ?n = (a + j) mod ?n" for j
    by (metis add.left_commute mod_add_self1)
  ultimately have "count_list (map (\<lambda>j. xs ! ((a + j) mod ?n)) [0..<Suc k * ?n]) x =
      count_list (rotate a xs) x + k"
    using Suc.IH [of a] cyclic_block [OF ne, of a] by (simp add: comp_def)
  then show ?case
    using assms count_list_distinct [of "rotate a xs" x] by simp
qed

text \<open>C24. Round robin is fair: in any run of \<open>k\<close> rounds over an unchanged pool, started from any
  counter that does not reach its 64-bit wrap-around within the run, every available backend is
  picked exactly \<open>k\<close> times.\<close>

theorem round_robin_fair:
  assumes "i < length bs" "backend_is_available (bs ! i)"
    and "unat (rr_counter s) + k * length (available_indices bs) \<le> 2 ^ 64"
  shows "count_list (picks round_robin_select (k * length (available_indices bs)) s bs ip) (Some i) = k"
proof -
  have i: "i \<in> set (available_indices bs)"
    using assms(1,2) by (simp add: set_available_indices)
  then have "available_indices bs \<noteq> []" by auto
  from round_robin_picks [OF this assms(3)]
  have "picks round_robin_select (k * length (available_indices bs)) s bs ip =
    map Some (map (\<lambda>j. available_indices bs !
        ((unat (rr_counter s) + j) mod length (available_indices bs)))
      [0..<k * length (available_indices bs)])"
    by simp
  then show ?thesis
    using count_cyclic [OF distinct_available_indices i] by (simp only: count_list_map_inj inj_Some)
qed

definition demo_backend :: "str \<Rightarrow> backend" where
  "demo_backend i = backend_new (\<lambda>_. replicate 16 0) i \<lparr>sa_ip = localhost_v4, sa_port = 8080\<rparr> 1 False"

theorem round_robin_fair_witness:
  "count_list
     (picks round_robin_select (5 * 2) \<lparr>rr_counter = 7\<rparr>
        [demo_backend ''a'', (demo_backend ''b'')\<lparr>be_healthy := False\<rparr>, demo_backend ''c''] None)
     (Some 2) = 5"
proof -
  let ?bs = "[demo_backend ''a'', (demo_backend ''b'')\<lparr>be_healthy := False\<rparr>, demo_backend ''c'']"
  have "available_indices ?bs = [0, 2]"
    by (simp add: available_indices_def backend_is_available_def demo_backend_def backend_new_def
        Let_def upt_rec)
  moreover have "backend_is_available (?bs ! 2)"
    by (simp add: backend_is_available_def demo_backend_def backend_new_def Let_def)
  ultimately show ?thesis
    using round_robin_fair [of 2 ?bs "\<lparr>rr_counter = 7\<rparr>" 5 None] by simp
qed

text \<open>The least-connections balancer picks an available backend with the fewest active
  connections of all available ones, and it fails only when none is available.\<close>

theorem least_connections_minimal:
  "case least_connections_select bs ip of
     None \<Rightarrow> filter backend_is_available bs = []
   | Some i \<Rightarrow> i < length bs \<and> backend_is_available (bs ! i) \<and>
       list_all (\<lambda>b. backend_active_count (bs ! i) \<le> backend_active_count b)
         (filter backend_is_available bs)"
proof (cases "least_connections_select bs ip")
  case None
  then show ?thesis
    using lc.select_None [of bs ip] by (auto simp: filter_empty_conv)
next
  case (Some i)
  have "backend_active_count (bs ! i) \<le> backend_active_count b"
    if "b \<in> set bs" "backend_is_available b" for b
    using that min_by_key_Some [OF Some [unfolded least_connections_select_def]]
    by (auto simp: in_set_conv_nth set_available_indices)
  then show ?thesis
    using Some lc.select_available [of bs ip _ i] by (auto simp: list_all_iff)
qed

text \<open>IP hashing is sticky: a client's backend depends only on which backends are available, so
  no change of connection counts that keeps the availability of every backend moves a client.\<close>

theorem ip_hash_sticky:
  assumes "map backend_is_available bs = map backend_is_available bs'"
  shows "ip_hash_select hash bs ip = ip_hash_select hash bs' ip"
proof -
  from assms have len: "length bs = length bs'" by (metis length_map)
  have "backend_is_available (bs ! i) = backend_is_available (bs' ! i)" if "i < length bs" for i
    using assms that len by (metis nth_map)
  then have "available_indices bs = available_indices bs'"
    unfolding available_indices_def len [symmetric] by (intro filter_cong) auto
  then show ?thesis by (simp add: ip_hash_select_def)
qed

theorem ip_hash_sticky_witness:
  "ip_hash_select (\<lambda>_. 5) [demo_backend ''a'', demo_backend ''b''] None =
   ip_hash_select (\<lambda>_. 5) [demo_backend ''a'', (demo_backend ''b'')\<lparr>be_active_connections := 9\<rparr>] None"
  by (rule ip_hash_sticky)
     (simp add: backend_is_available_def demo_backend_def backend_new_def Let_def)

end
