(* ===== verification/Request_Pipeline.thy ===== *)
theory Request_Pipeline
  imports Access_Control Balancer
begin

text \<open>
  The request pipeline of \<^verbatim>\<open>serverwall-proxy/src/pipeline.rs\<close>: the layered access check,
  backend selection with its connection guard, the TLS connection to a backend and sticky lookup by
  tag; and the error type of \<^verbatim>\<open>serverwall-core/src/error.rs\<close>.  A step relation interleaves
  the atomic actions of concurrent connections on one pool.
\<close>

section \<open>Errors\<close>

text \<open>\<^verbatim>\<open>std::io::Error\<close> and \<^verbatim>\<open>anyhow::Error\<close> are represented by their rendering.\<close>

datatype server_wall_error =
    E_Config str
  | E_ConfigLoad (ecl_path: str) (ecl_source: str)
  | E_Tls str
  | E_CertNotFound str
  | E_Acme str
  | E_BackendNotFound str
  | E_FrontendNotFound str
  | E_PoolNotFound str
  | E_NoHealthyBackends str
  | E_AccessDenied ip_addr
  | E_HealthCheckFailed (ehc_backend_id: str) (ehc_reason: str)
  | E_Protocol str
  | E_WafBlocked (ewb_rule_id: str) (ewb_reason: str)
  | E_RateLimited u64
  | E_SpamRejected (esr_score: u8) (esr_threshold: u8)
  | E_VirusDetected (evd_virus_name: str) (evd_scanner: str)
  | E_RelayDenied str
  | E_Queue str
  | E_DkimSign str
  | E_DnsError str
  | E_AuthFailed str
  | E_Io str
  | E_Other str

section \<open>The pipeline\<close>

record ('net, 'db) request_pipeline =
  rp_acl :: "'net access_control_engine"
  rp_global_ip_acl :: "'net access_control_engine option"
  rp_geo :: "'db geo_engine option"
  rp_balancer :: balancer
  rp_backends :: "backend list"
  rp_backend_tls_verify :: bool
  rp_backend_ca_bundle :: "str option"

definition request_pipeline_new ::
  "'net access_control_engine \<Rightarrow> 'net access_control_engine option \<Rightarrow> 'db geo_engine option \<Rightarrow>
   balancer \<Rightarrow> backend list \<Rightarrow> bool \<Rightarrow> str option \<Rightarrow> ('net, 'db) request_pipeline" where
  "request_pipeline_new acl global geo bal backends verify ca =
     \<lparr>rp_acl = acl, rp_global_ip_acl = global, rp_geo = geo, rp_balancer = bal,
      rp_backends = backends, rp_backend_tls_verify = verify, rp_backend_ca_bundle = ca\<rparr>"

definition check_acl ::
  "'net cidr_lib \<Rightarrow> 'db geo_lib \<Rightarrow> ('net, 'db) request_pipeline \<Rightarrow> ip_addr \<Rightarrow>
   (server_wall_error, unit) result" where
  "check_acl cl gl p ip =
     (if (case rp_global_ip_acl p of
            Some g \<Rightarrow> access_control_evaluate cl g ip = Acl_Deny
          | None \<Rightarrow> False)
      then Inl (E_AccessDenied ip)
      else case access_control_evaluate cl (rp_acl p) ip of
             Acl_Deny \<Rightarrow> Inl (E_AccessDenied ip)
           | Acl_Allow \<Rightarrow>
               if (case rp_geo p of
                     Some g \<Rightarrow> geo_engine_check gl g ip = Acl_Deny
                   | None \<Rightarrow> False)
               then Inl (E_AccessDenied ip)
               else Inr ())"

text \<open>The selected position is also the guard.\<close>

definition select_backend ::
  "(ip_addr \<Rightarrow> u64) \<Rightarrow> ('net, 'db) request_pipeline \<Rightarrow> ip_addr \<Rightarrow>
   (server_wall_error, nat) result \<times> ('net, 'db) request_pipeline" where
  "select_backend hash p ip =
     (case balancer_select hash (rp_balancer p) (rp_backends p) (Some ip) of
        (None, bal) \<Rightarrow> (Inl (E_NoHealthyBackends ''unknown''), p\<lparr>rp_balancer := bal\<rparr>)
      | (Some i, bal) \<Rightarrow>
          (Inr i, p\<lparr>rp_balancer := bal, rp_backends := connection_guard_new (rp_backends p) i\<rparr>))"

definition is_globally_allowed ::
  "'net cidr_lib \<Rightarrow> ('net, 'db) request_pipeline \<Rightarrow> ip_addr \<Rightarrow> bool" where
  "is_globally_allowed cl p ip =
     (case rp_global_ip_acl p of
        Some g \<Rightarrow> access_control_evaluate cl g ip = Acl_Allow
      | None \<Rightarrow> False)"

definition find_backend_by_tag :: "('net, 'db) request_pipeline \<Rightarrow> str \<Rightarrow> nat option" where
  "find_backend_by_tag p tag =
     find (\<lambda>i. be_tag (rp_backends p ! i) = tag \<and> be_enabled (rp_backends p ! i) \<and>
               be_healthy (rp_backends p ! i)) [0..<length (rp_backends p)]"

section \<open>Connecting to a backend\<close>

text \<open>The network and \<^verbatim>\<open>rustls\<close>: TCP connect, building a connector from the verify flag
  and the CA bundle, validating a server name, and the handshake, each with its error text.\<close>

datatype 'dns server_name = SN_IpAddress ip_addr | SN_DnsName 'dns

record ('tcp, 'conn, 'dns, 'tls) tls_client_lib =
  tcp_connect :: "socket_addr \<Rightarrow> (str, 'tcp) result"
  build_tls_connector :: "bool \<Rightarrow> str option \<Rightarrow> (server_wall_error, 'conn) result"
  server_name_try_from :: "str \<Rightarrow> (str, 'dns) result"
  tls_connect :: "'conn \<Rightarrow> 'dns server_name \<Rightarrow> 'tcp \<Rightarrow> (str, 'tls) result"

definition connect_backend ::
  "('tcp, 'conn, 'dns, 'tls) tls_client_lib \<Rightarrow> backend \<Rightarrow> (server_wall_error, 'tcp) result" where
  "connect_backend lib b =
     (case tcp_connect lib (be_address b) of Inl e \<Rightarrow> Inl (E_Io e) | Inr s \<Rightarrow> Inr s)"

definition connect_backend_tls ::
  "('tcp, 'conn, 'dns, 'tls) tls_client_lib \<Rightarrow> ('net, 'db) request_pipeline \<Rightarrow> backend \<Rightarrow>
   (server_wall_error, 'tls) result" where
  "connect_backend_tls lib p b =
     (let verify = (if be_tls_verify b then True else rp_backend_tls_verify p)
      in bind_result (build_tls_connector lib verify (rp_backend_ca_bundle p)) (\<lambda>connector.
         bind_result (case tcp_connect lib (be_address b) of Inl e \<Rightarrow> Inl (E_Io e) | Inr s \<Rightarrow> Inr s) (\<lambda>tcp.
         let sni = (case be_tls_sni b of Some s \<Rightarrow> s | None \<Rightarrow> [])
         in bind_result
              (if sni = [] then Inr (SN_IpAddress (sa_ip (be_address b)))
               else case server_name_try_from lib sni of
                      Inl e \<Rightarrow> Inl (E_Tls (''invalid SNI name '' @ [CHR 0x27] @ sni @ [CHR 0x27] @ '': '' @ e))
                    | Inr d \<Rightarrow> Inr (SN_DnsName d))
              (\<lambda>name.
                 case tls_connect lib connector name tcp of
                   Inl e \<Rightarrow> Inl (E_Tls (''TLS handshake to backend '' @
                              socket_addr_to_string (be_address b) @ '' failed: '' @ e))
                 | Inr t \<Rightarrow> Inr t))))"

section \<open>What the access check and the selection guarantee\<close>

lemma check_acl_Inr_iff:
  "check_acl cl gl p ip = Inr () \<longleftrightarrow>
     (\<forall>g. rp_global_ip_acl p = Some g \<longrightarrow> access_control_is_allowed cl g ip) \<and>
     access_control_is_allowed cl (rp_acl p) ip \<and>
     (\<forall>g. rp_geo p = Some g \<longrightarrow> geo_engine_check gl g ip = Acl_Allow)"
  by (auto simp: check_acl_def access_control_is_allowed_def
      split: option.splits acl_decision.splits; metis acl_decision.exhaust)

lemma connection_guard_new_nth:
  "i < length bs \<Longrightarrow> j < length bs \<Longrightarrow>
   connection_guard_new bs i ! j =
     (if j = i then (bs ! i)\<lparr>be_active_connections := be_active_connections (bs ! i) + 1,
                             be_total_connections := be_total_connections (bs ! i) + 1\<rparr>
      else bs ! j)"
  by (simp add: connection_guard_new_def)

lemma connection_guard_drop_nth:
  "i < length bs \<Longrightarrow> j < length bs \<Longrightarrow>
   connection_guard_drop bs i ! j =
     (if j = i then (bs ! i)\<lparr>be_active_connections := be_active_connections (bs ! i) - 1\<rparr> else bs ! j)"
  by (simp add: connection_guard_drop_def)

lemma length_connection_guard [simp]:
  "length (connection_guard_new bs i) = length bs"
  "length (connection_guard_drop bs i) = length bs"
  by (simp_all add: connection_guard_new_def connection_guard_drop_def)

text \<open>C16. The layered access check admits a client exactly when the global IP lists, the frontend's
  lists and the geo engine, each as configured, admit it; otherwise it reports access denied for
  that client.\<close>

theorem check_acl_layers:
  assumes "access_control_from_config cl fcfg = Inr facl"
    and "access_control_from_global_ip cl gcfg = Inr gacl"
    and "geo_engine_from_config gl geocfg = geo"
  shows "check_acl cl gl
      (request_pipeline_new facl (Some gacl) geo bal bs verify ca) ip =
    (if acl_spec cl (iac_block gcfg) (iac_allow gcfg) Default_Allow ip \<and>
        acl_spec cl (fac_block_list fcfg) (fac_allow_list fcfg) (fac_default_action fcfg) ip \<and>
        (case geo of None \<Rightarrow> True | Some g \<Rightarrow> geo_engine_check gl g ip = Acl_Allow)
     then Inr () else Inl (E_AccessDenied ip))"
proof -
  have g: "access_control_is_allowed cl gacl ip =
      acl_spec cl (iac_block gcfg) (iac_allow gcfg) Default_Allow ip"
    using access_control_refines [OF assms(2) [unfolded access_control_from_global_ip_eq]] by simp
  note f = access_control_refines [OF assms(1), of ip]
  have "check_acl cl gl p ip = Inr () \<or> check_acl cl gl p ip = Inl (E_AccessDenied ip)"
    for p :: "('a, 'b) request_pipeline"
    by (simp add: check_acl_def split: acl_decision.split)
  then show ?thesis
    using check_acl_Inr_iff [of cl gl "request_pipeline_new facl (Some gacl) geo bal bs verify ca" ip]
    by (auto simp: request_pipeline_new_def f g split: option.splits)
qed

theorem check_acl_layers_witness:
  "check_acl prefix_cidr_lib \<lparr>db_open = (\<lambda>p. Some p), db_iso_code = (\<lambda>db ip. None)\<rparr>
     (request_pipeline_new
        \<lparr>ace_block_list = None, ace_allow_list = None, ace_default_action = Default_Deny\<rparr>
        (Some \<lparr>ace_block_list = Some \<lparr>bl_matcher = \<lparr>im_networks = [''10.'']\<rparr>\<rparr>, ace_allow_list = None,
               ace_default_action = Default_Allow\<rparr>)
        (None :: str geo_engine option) LeastConnections [] False None)
     (V4 127 0 0 1) = Inl (E_AccessDenied (V4 127 0 0 1))"
proof -
  let ?f = "\<lparr>fac_allow_list = [], fac_block_list = [], fac_default_action = Default_Deny\<rparr>"
  let ?g = "\<lparr>iac_allow = [], iac_block = [''10.'']\<rparr>"
  let ?gl = "\<lparr>db_open = (\<lambda>p. Some p), db_iso_code = (\<lambda>db ip. None)\<rparr> :: str geo_lib"
  let ?gc = "\<lparr>gc_enabled = False, gc_database_path = None, gc_block_countries = [], gc_allow_countries = []\<rparr>"
  have 1: "access_control_from_config prefix_cidr_lib ?f =
      Inr \<lparr>ace_block_list = None, ace_allow_list = None, ace_default_action = Default_Deny\<rparr>"
    by (simp add: access_control_from_config_def)
  have 2: "access_control_from_global_ip prefix_cidr_lib ?g =
      Inr \<lparr>ace_block_list = Some \<lparr>bl_matcher = \<lparr>im_networks = [''10.'']\<rparr>\<rparr>, ace_allow_list = None,
           ace_default_action = Default_Allow\<rparr>"
    by (simp add: access_control_from_global_ip_def block_list_new_def ip_matcher_new_def
        prefix_cidr_lib_def)
  have 3: "geo_engine_from_config ?gl ?gc = None"
    by (simp add: geo_engine_from_config_def)
  show ?thesis
    using check_acl_layers [OF 1 2 3, of LeastConnections "[]" False None "V4 127 0 0 1"]
    by (simp add: acl_spec_def)
qed



section \<open>Concurrent connections on one pool\<close>

text \<open>Connections run as concurrent tasks on one pipeline.  Between reading the pool (by the balancer
  or by a sticky lookup) and creating its guard a connection holds a chosen position and no
  guard; the health checker may swap a flag at any time.\<close>

record ('net, 'db) pool_state =
  ps_pipeline :: "('net, 'db) request_pipeline"
  ps_pending :: "nat list"
  ps_guards :: "nat list"

definition set_healthy :: "backend list \<Rightarrow> nat \<Rightarrow> bool \<Rightarrow> backend list" where
  "set_healthy bs i h = (if i < length bs then bs[i := (bs ! i)\<lparr>be_healthy := h\<rparr>] else bs)"

inductive pool_step ::
  "(ip_addr \<Rightarrow> u64) \<Rightarrow> ('net, 'db) pool_state \<Rightarrow> ('net, 'db) pool_state \<Rightarrow> bool"
  for hash :: "ip_addr \<Rightarrow> u64" where
  Choose: "balancer_select hash (rp_balancer (ps_pipeline s)) (rp_backends (ps_pipeline s)) (Some ip)
             = (Some i, bal) \<Longrightarrow>
     pool_step hash s (s\<lparr>ps_pipeline := (ps_pipeline s)\<lparr>rp_balancer := bal\<rparr>,
                         ps_pending := i # ps_pending s\<rparr>)"
| Sticky: "find_backend_by_tag (ps_pipeline s) tag = Some i \<Longrightarrow>
     pool_step hash s (s\<lparr>ps_pending := i # ps_pending s\<rparr>)"
| Guard: "i \<in> set (ps_pending s) \<Longrightarrow>
     pool_step hash s
       (s\<lparr>ps_pipeline := (ps_pipeline s)\<lparr>rp_backends := connection_guard_new (rp_backends (ps_pipeline s)) i\<rparr>,
          ps_pending := remove1 i (ps_pending s), ps_guards := i # ps_guards s\<rparr>)"
| Drop: "i \<in> set (ps_guards s) \<Longrightarrow>
     pool_step hash s
       (s\<lparr>ps_pipeline := (ps_pipeline s)\<lparr>rp_backends := connection_guard_drop (rp_backends (ps_pipeline s)) i\<rparr>,
          ps_guards := remove1 i (ps_guards s)\<rparr>)"
| Health: "pool_step hash s
     (s\<lparr>ps_pipeline := (ps_pipeline s)\<lparr>rp_backends := set_healthy (rp_backends (ps_pipeline s)) i h\<rparr>\<rparr>)"

inductive_cases pool_stepE: "pool_step hash s s'"

definition pool_init :: "('net, 'db) request_pipeline \<Rightarrow> ('net, 'db) pool_state" where
  "pool_init p = \<lparr>ps_pipeline = p, ps_pending = [], ps_guards = []\<rparr>"

text \<open>Every chosen position is in the pool, and every active count is the number of live guards.\<close>

definition pool_inv :: "('net, 'db) pool_state \<Rightarrow> bool" where
  "pool_inv s \<longleftrightarrow>
     (let bs = rp_backends (ps_pipeline s) in
      list_all (\<lambda>i. i < length bs) (ps_pending s @ ps_guards s) \<and>
      list_all (\<lambda>i. be_active_connections (bs ! i) = of_nat (count_list (ps_guards s) i))
        [0..<length bs])"

lemma set_healthy_nth:
  "j < length bs \<Longrightarrow>
   set_healthy bs i h ! j = (if j = i then (bs ! i)\<lparr>be_healthy := h\<rparr> else bs ! j)"
  by (simp add: set_healthy_def)

lemma length_set_healthy [simp]: "length (set_healthy bs i h) = length bs"
  by (simp add: set_healthy_def)

lemma count_list_remove1:
  "count_list (remove1 x xs) y = (if x = y then count_list xs y - 1 else count_list xs y)"
  by (induction xs) (auto simp: count_list_0_iff gr0_conv_Suc dest: count_notin)

lemma find_backend_by_tag_Some:
  assumes "find_backend_by_tag p tag = Some i"
  shows "i < length (rp_backends p)" "be_tag (rp_backends p ! i) = tag"
    "be_enabled (rp_backends p ! i)" "be_healthy (rp_backends p ! i)"
  using assms by (auto simp: find_backend_by_tag_def find_Some_iff)

lemma of_nat_count_pred:
  "i \<in> set xs \<Longrightarrow> (of_nat (count_list xs i - Suc 0) :: 'a::len word) = of_nat (count_list xs i) - 1"
  by (cases "count_list xs i") (auto simp: count_list_0_iff)

lemma pool_step_inv:
  assumes "pool_step hash s s'" "pool_inv s"
  shows "pool_inv s'"
  using assms(1)
proof cases
  case (Choose ip i bal)
  then have "i < length (rp_backends (ps_pipeline s))"
    using lb.select_available [of hash "rp_balancer (ps_pipeline s)" "rp_backends (ps_pipeline s)" "Some ip" i]
    by simp
  with assms(2) Choose show ?thesis by (simp add: pool_inv_def Let_def)
next
  case (Sticky tag i)
  with assms(2) find_backend_by_tag_Some(1) [OF Sticky(2)] show ?thesis
    by (simp add: pool_inv_def Let_def)
next
  case (Guard i)
  with assms(2) show ?thesis
    by (auto simp: pool_inv_def Let_def list_all_iff connection_guard_new_nth
        dest: in_set_remove1 [THEN iffD1, rotated] notin_set_remove1 set_remove1_subset [THEN subsetD])
next
  case (Drop i)
  with assms(2) show ?thesis
    by (auto simp: pool_inv_def Let_def list_all_iff connection_guard_drop_nth count_list_remove1
        of_nat_count_pred dest: set_remove1_subset [THEN subsetD])
next
  case (Health i h)
  with assms(2) show ?thesis
    by (auto simp: pool_inv_def Let_def list_all_iff set_healthy_nth)
qed

lemma pool_reachable_inv:
  assumes "(pool_step hash)\<^sup>*\<^sup>* s s'" "pool_inv s"
  shows "pool_inv s'"
  using assms by (induction rule: rtranclp_induct) (blast intro: pool_step_inv)+

lemma pool_init_inv:
  "list_all (\<lambda>b. be_active_connections b = 0) (rp_backends p) \<Longrightarrow> pool_inv (pool_init p)"
  by (simp add: pool_inv_def pool_init_def list_all_length)

text \<open>C8. Under every interleaving of selections, sticky lookups, guard creations and drops and
  health changes that starts from an idle pool, the active count of each backend is the number of
  live connection guards on it, modulo the width of the counter: no connection is leaked or
  counted twice.\<close>

theorem active_count_is_live_guards:
  assumes "list_all (\<lambda>b. be_active_connections b = 0) (rp_backends p)"
    and "(pool_step hash)\<^sup>*\<^sup>* (pool_init p) s"
    and "i < length (rp_backends (ps_pipeline s))"
  shows "be_active_connections (rp_backends (ps_pipeline s) ! i) = of_nat (count_list (ps_guards s) i)"
  using pool_reachable_inv [OF assms(2) pool_init_inv [OF assms(1)]] assms(3)
  by (simp add: pool_inv_def Let_def list_all_iff)

definition demo_pipeline :: "backend list \<Rightarrow> (str, str) request_pipeline" where
  "demo_pipeline bs =
     request_pipeline_new
       \<lparr>ace_block_list = None, ace_allow_list = None, ace_default_action = Default_Allow\<rparr>
       None None LeastConnections bs False None"

lemmas demo_simps =
  demo_pipeline_def request_pipeline_new_def pool_init_def demo_backend_def backend_new_def Let_def
  least_connections_select_def available_indices_def backend_is_available_def
  backend_active_count_def connection_guard_new_def

theorem active_count_is_live_guards_witness:
  "be_active_connections
     (connection_guard_new [demo_backend ''a'', demo_backend ''b''] 0 ! 0) = of_nat (count_list [0::nat] 0)"
proof -
  let ?p = "demo_pipeline [demo_backend ''a'', demo_backend ''b'']"
  let ?s = "\<lparr>ps_pipeline = ?p\<lparr>rp_backends := connection_guard_new (rp_backends ?p) 0\<rparr>,
             ps_pending = [], ps_guards = [0]\<rparr>"
  have "pool_step (\<lambda>_. 0) (pool_init ?p) (pool_init ?p\<lparr>ps_pending := [0]\<rparr>)"
    using pool_step.Choose [of "\<lambda>_. 0" "pool_init ?p" localhost_v4 0 LeastConnections]
    by (simp add: demo_simps upt_rec)
  moreover have "pool_step (\<lambda>_. 0) (pool_init ?p\<lparr>ps_pending := [0]\<rparr>) ?s"
    using pool_step.Guard [of 0 "pool_init ?p\<lparr>ps_pending := [0]\<rparr>" "\<lambda>_. 0"]
    by (simp add: demo_simps)
  ultimately have "(pool_step (\<lambda>_. 0))\<^sup>*\<^sup>* (pool_init ?p) ?s" by auto
  from active_count_is_live_guards [OF _ this, of 0] show ?thesis
    by (simp add: demo_simps)
qed

text \<open>A sticky lookup checks only that the backend is enabled and healthy.  A backend at its
  connection limit, which the balancers would skip, is returned, and its guard exceeds the limit.\<close>

theorem sticky_exceeds_limit:
  "\<exists>p :: (str, str) request_pipeline. \<exists>tag i mx.
     find_backend_by_tag p tag = Some i \<and> \<not> backend_is_available (rp_backends p ! i) \<and>
     be_max_connections (rp_backends p ! i) = Some mx \<and>
     mx < be_active_connections (connection_guard_new (rp_backends p) i ! i)"
proof -
  let ?b = "(demo_backend ''a'')\<lparr>be_max_connections := Some 1, be_active_connections := 1\<rparr>"
  show ?thesis
    by (rule exI [of _ "demo_pipeline [?b]"], rule exI [of _ "be_tag ?b"], rule exI [of _ 0],
        rule exI [of _ 1])
       (simp add: find_backend_by_tag_def demo_simps)
qed

text \<open>A global list with block entries only makes every client that is not blocked globally
  allowed: the test that decides whether a client may bypass the firewall does not require an
  allow-list entry.\<close>

theorem globally_allowed_without_allow_list:
  assumes "access_control_from_global_ip cl gcfg = Inr gacl" "iac_allow gcfg = []"
  shows "is_globally_allowed cl (request_pipeline_new facl (Some gacl) geo bal bs verify ca) ip \<longleftrightarrow>
    \<not> cidr_match cl (iac_block gcfg) ip"
  using access_control_refines [OF assms(1) [unfolded access_control_from_global_ip_eq], of ip] assms(2)
  by (simp add: is_globally_allowed_def request_pipeline_new_def access_control_is_allowed_def acl_spec_def)

theorem globally_allowed_without_allow_list_witness:
  "is_globally_allowed prefix_cidr_lib
     (request_pipeline_new
        \<lparr>ace_block_list = None, ace_allow_list = None, ace_default_action = Default_Deny\<rparr>
        (Some \<lparr>ace_block_list = Some \<lparr>bl_matcher = \<lparr>im_networks = [''10.'']\<rparr>\<rparr>, ace_allow_list = None,
               ace_default_action = Default_Allow\<rparr>)
        (None :: str geo_engine option) LeastConnections [] False None)
     (V4 127 0 0 1)"
proof -
  let ?g = "\<lparr>iac_allow = [], iac_block = [''10.'']\<rparr>"
  have 1: "access_control_from_global_ip prefix_cidr_lib ?g =
      Inr \<lparr>ace_block_list = Some \<lparr>bl_matcher = \<lparr>im_networks = [''10.'']\<rparr>\<rparr>, ace_allow_list = None,
           ace_default_action = Default_Allow\<rparr>"
    by (simp add: access_control_from_global_ip_def block_list_new_def ip_matcher_new_def
        prefix_cidr_lib_def)
  have "\<not> cidr_match prefix_cidr_lib [''10.''] (V4 127 0 0 1)"
    by code_simp
  then show ?thesis
    by (simp add: globally_allowed_without_allow_list [OF 1])
qed

end
