(* ===== verification/Utf8.thy ===== *)
theory Utf8
  imports Prelude
begin

text \<open>
  UTF-8 as the standard library reads it: \<^verbatim>\<open>chars()\<close> on valid text,
  \<^verbatim>\<open>String::from_utf8\<close> and \<^verbatim>\<open>String::from_utf8_lossy\<close> on arbitrary bytes,
  and pushing a byte converted with \<^verbatim>\<open>as char\<close>.
\<close>

definition byte :: "char \<Rightarrow> nat" where
  "byte c = of_char c"

definition is_cont :: "char \<Rightarrow> bool" where
  "is_cont c \<longleftrightarrow> 0x80 \<le> byte c \<and> byte c \<le> 0xBF"

text \<open>The first character of valid text: its lead byte and the continuation bytes after it.\<close>

fun next_char :: "str \<Rightarrow> str \<times> str" where
  "next_char [] = ([], [])"
| "next_char (c # s) = (c # takeWhile is_cont s, dropWhile is_cont s)"

text \<open>The sequence at the head of a byte string: whether it is a well-formed character, and how many
  bytes belong to it or to the maximal ill-formed subsequence.\<close>

definition second_ok :: "nat \<Rightarrow> nat \<Rightarrow> bool" where
  "second_ok l b \<longleftrightarrow>
     (if l = 0xE0 then 0xA0 \<le> b \<and> b \<le> 0xBF
      else if l = 0xED then 0x80 \<le> b \<and> b \<le> 0x9F
      else if l = 0xF0 then 0x90 \<le> b \<and> b \<le> 0xBF
      else if l = 0xF4 then 0x80 \<le> b \<and> b \<le> 0x8F
      else 0x80 \<le> b \<and> b \<le> 0xBF)"

definition seq_width :: "nat \<Rightarrow> nat" where
  "seq_width l =
     (if l < 0x80 then 1
      else if 0xC2 \<le> l \<and> l \<le> 0xDF then 2
      else if 0xE0 \<le> l \<and> l \<le> 0xEF then 3
      else if 0xF0 \<le> l \<and> l \<le> 0xF4 then 4
      else 0)"

fun utf8_head :: "char \<Rightarrow> str \<Rightarrow> bool \<times> nat" where
  "utf8_head l s =
     (let w = seq_width (byte l) in
      if w = 0 then (False, 1)
      else if w = 1 then (True, 1)
      else case s of
        [] \<Rightarrow> (False, 1)
      | b # s1 \<Rightarrow>
          if \<not> second_ok (byte l) (byte b) then (False, 1)
          else if w = 2 then (True, 2)
          else case s1 of
            [] \<Rightarrow> (False, 2)
          | c # s2 \<Rightarrow>
              if \<not> is_cont c then (False, 2)
              else if w = 3 then (True, 3)
              else case s2 of
                [] \<Rightarrow> (False, 3)
              | d # s3 \<Rightarrow> if is_cont d then (True, 4) else (False, 3))"

lemma utf8_head_pos: "0 < snd (utf8_head l s)"
  by (auto simp: Let_def split: list.splits)

lemma utf8_head_length: "snd (utf8_head l s) \<le> Suc (length s)"
  by (auto simp: Let_def split: list.splits)

declare utf8_head.simps [simp del]

function utf8_valid :: "str \<Rightarrow> bool" where
  "utf8_valid [] = True"
| "utf8_valid (l # s) =
     (fst (utf8_head l s) \<and> utf8_valid (drop (snd (utf8_head l s)) (l # s)))"
  by pat_completeness auto
termination
  by (relation "measure length") (simp_all add: utf8_head_pos)

function from_utf8_lossy :: "str \<Rightarrow> str" where
  "from_utf8_lossy [] = []"
| "from_utf8_lossy (l # s) =
     (if fst (utf8_head l s) then take (snd (utf8_head l s)) (l # s)
      else [CHR 0xEF, CHR 0xBF, CHR 0xBD]) @
     from_utf8_lossy (drop (snd (utf8_head l s)) (l # s))"
  by pat_completeness auto
termination
  by (relation "measure length") (simp_all add: utf8_head_pos)

declare utf8_valid.simps(2) [simp del] from_utf8_lossy.simps(2) [simp del]

text \<open>\<^verbatim>\<open>push(b as char)\<close>: the UTF-8 encoding of the code point of a byte.\<close>

definition byte_as_char :: "nat \<Rightarrow> str" where
  "byte_as_char b = (if b < 0x80 then [char_of b] else [char_of (0xC0 + b div 64), char_of (0x80 + b mod 64)])"

lemma from_utf8_lossy_valid: "utf8_valid s \<Longrightarrow> from_utf8_lossy s = s"
proof (induction s rule: from_utf8_lossy.induct)
  case 1
  then show ?case by simp
next
  case (2 l s)
  then show ?case
    by (auto simp: from_utf8_lossy.simps(2) utf8_valid.simps(2) split: prod.splits)
qed

lemma utf8_head_ascii:
  assumes "byte l < 0x80"
  shows "utf8_head l s = (True, 1)"
  using assms by (simp add: utf8_head.simps seq_width_def Let_def)

lemma utf8_valid_ascii: "list_all (\<lambda>c. byte c < 0x80) s \<Longrightarrow> utf8_valid s"
  by (induction s) (simp_all add: utf8_valid.simps(2) utf8_head_ascii)

lemma from_utf8_lossy_ascii: "list_all (\<lambda>c. byte c < 0x80) s \<Longrightarrow> from_utf8_lossy s = s"
  by (simp add: from_utf8_lossy_valid utf8_valid_ascii)

text \<open>ASCII bytes separate characters: text is valid exactly when both sides of an ASCII byte are.\<close>

lemma utf8_head_split:
  assumes "fst (utf8_head l s)"
  obtains t r where "s = t @ r" "utf8_head l s = (True, Suc (length t))"
    "list_all (\<lambda>c. 0x80 \<le> byte c) t" "\<And>r'. utf8_head l (t @ r') = (True, Suc (length t))"
proof -
  have second: "second_ok a b \<Longrightarrow> 128 \<le> b" for a b
    by (auto simp: second_ok_def split: if_splits)
  let ?w = "seq_width (byte l)"
  have "?w \<in> {0, 1, 2, 3, 4}" by (simp add: seq_width_def)
  with assms consider "?w = 1"
    | b s1 where "?w = 2" "s = b # s1" "second_ok (byte l) (byte b)"
    | b c s2 where "?w = 3" "s = b # c # s2" "second_ok (byte l) (byte b)" "is_cont c"
    | b c d s3 where "?w = 4" "s = b # c # d # s3" "second_ok (byte l) (byte b)" "is_cont c" "is_cont d"
    by (auto simp: utf8_head.simps Let_def split: list.splits if_splits)
  then show ?thesis
  proof cases
    case 1
    then show ?thesis by (intro that [of "[]" s]) (simp_all add: utf8_head.simps)
  next
    case (2 b s1)
    then show ?thesis
      by (intro that [of "[b]" s1]) (simp_all add: utf8_head.simps second)
  next
    case (3 b c s2)
    then show ?thesis
      by (intro that [of "[b, c]" s2]) (simp_all add: utf8_head.simps second, simp add: is_cont_def)
  next
    case (4 b c d s3)
    then show ?thesis
      by (intro that [of "[b, c, d]" s3]) (simp_all add: utf8_head.simps second, simp add: is_cont_def)
  qed
qed

lemma utf8_valid_append: "utf8_valid a \<Longrightarrow> utf8_valid (a @ b) = utf8_valid b"
proof (induction a rule: utf8_valid.induct)
  case 1
  then show ?case by simp
next
  case (2 l s)
  from 2(2) have "fst (utf8_head l s)" by (simp add: utf8_valid.simps(2))
  then obtain t r where s: "s = t @ r" and h: "utf8_head l s = (True, Suc (length t))"
      and h': "\<And>r'. utf8_head l (t @ r') = (True, Suc (length t))"
    by (rule utf8_head_split) auto
  from 2 h have "utf8_valid (r @ b) = utf8_valid b" by (simp add: utf8_valid.simps(2) s)
  with h' [of "r @ b"] show ?case by (simp add: utf8_valid.simps(2) s)
qed

lemma utf8_valid_ascii_split:
  assumes "byte c < 0x80"
  shows "utf8_valid (a @ c # b) \<longleftrightarrow> utf8_valid a \<and> utf8_valid b"
proof
  assume "utf8_valid (a @ c # b)"
  then show "utf8_valid a \<and> utf8_valid b"
  proof (induction a rule: length_induct)
    case (1 a)
    show ?case
    proof (cases a)
      case Nil
      with 1(2) assms show ?thesis by (simp add: utf8_valid.simps(2) utf8_head_ascii)
    next
      case (Cons l s)
      with 1(2) have "fst (utf8_head l (s @ c # b))" by (simp add: utf8_valid.simps(2))
      then obtain t r where sp: "s @ c # b = t @ r" and h: "utf8_head l (s @ c # b) = (True, Suc (length t))"
          and big: "list_all (\<lambda>c. 0x80 \<le> byte c) t"
          and h': "\<And>r'. utf8_head l (t @ r') = (True, Suc (length t))"
        by (rule utf8_head_split) auto
      have "length t \<le> length s"
      proof (rule ccontr)
        assume "\<not> length t \<le> length s"
        then have "t ! length s = (s @ c # b) ! length s" using sp by (simp add: nth_append)
        then have "c \<in> set t" using \<open>\<not> length t \<le> length s\<close> by (metis not_le_imp_less nth_append_length nth_mem)
        with big assms show False by (auto simp: list_all_iff)
      qed
      with sp obtain s' where s': "s = t @ s'" "r = s' @ c # b"
        by (auto simp: append_eq_append_conv2 append_eq_Cons_conv)
      from 1(2) h have "utf8_valid (s' @ c # b)" by (simp add: Cons utf8_valid.simps(2) s')
      moreover have "length s' < length a" by (simp add: Cons s')
      ultimately have "utf8_valid s' \<and> utf8_valid b" using 1(1) by blast
      with h' [of s'] show ?thesis by (simp add: Cons s' utf8_valid.simps(2))
    qed
  qed
next
  assume "utf8_valid a \<and> utf8_valid b"
  with assms show "utf8_valid (a @ c # b)"
    by (simp add: utf8_valid_append utf8_valid.simps(2) utf8_head_ascii)
qed

end
