(* ===== verification/Waf_Request.thy ===== *)
theory Waf_Request
  imports Net_Addr Utf8 "HOL-Library.AList"
begin

text \<open>
  The request context, the anomaly scorer and the decision type of the firewall
  (\<^verbatim>\<open>serverwall-waf/src/request.rs\<close>, \<^verbatim>\<open>anomaly.rs\<close>, \<^verbatim>\<open>response.rs\<close>).
  A \<^verbatim>\<open>HashMap\<close> is an association list with distinct keys; its iteration order is the order of
  the list.
\<close>

section \<open>Request context\<close>

type_synonym header_map = "(str \<times> str) list"

record http_request_context =
  rc_method :: str
  rc_uri :: str
  rc_path :: str
  rc_query_string :: str
  rc_headers :: header_map
  rc_cookies :: "(str \<times> str) list"
  rc_body :: str
  rc_remote_addr :: ip_addr
  rc_protocol :: str
  rc_ja3_fingerprint :: "str option"

text \<open>One pair of a \<^verbatim>\<open>Cookie\<close> header: \<^verbatim>\<open>splitn(2, '=')\<close> with both halves trimmed.\<close>

definition cookie_pair :: "str \<Rightarrow> (str \<times> str) option" where
  "cookie_pair p =
     (let pair = trim p;
          (k, v) = (case split_once (CHR ''='') pair of Some kv \<Rightarrow> kv | None \<Rightarrow> (pair, []));
          key = trim k; val = trim v
      in if key = [] then None else Some (key, val))"

text \<open>\<^verbatim>\<open>collect()\<close> into a map: a later pair overwrites an earlier one.\<close>

definition collect_map :: "('k \<times> 'v) list \<Rightarrow> ('k \<times> 'v) list" where
  "collect_map kvs = foldl (\<lambda>m (k, v). AList.update k v m) [] kvs"

definition parse_cookies :: "str \<Rightarrow> (str \<times> str) list" where
  "parse_cookies h = collect_map (List.map_filter cookie_pair (split_char (CHR '';'') h))"

definition get_either :: "header_map \<Rightarrow> str \<Rightarrow> str \<Rightarrow> str option" where
  "get_either hs a b = (case map_of hs a of Some v \<Rightarrow> Some v | None \<Rightarrow> map_of hs b)"

definition from_parts ::
  "str \<Rightarrow> str \<Rightarrow> header_map \<Rightarrow> str \<Rightarrow> ip_addr \<Rightarrow> str option \<Rightarrow> http_request_context" where
  "from_parts method uri headers body client_ip ja3 =
     (let (path, query_string) =
            (case find_sub uri ''?'' of
               Some idx \<Rightarrow> (take idx uri, drop (idx + 1) uri)
             | None \<Rightarrow> (uri, []));
          cookies = (case get_either headers ''cookie'' ''Cookie'' of
                       Some h \<Rightarrow> parse_cookies h
                     | None \<Rightarrow> []);
          protocol = (case map_of headers ''x-forwarded-proto'' of Some p \<Rightarrow> p | None \<Rightarrow> ''http'')
      in \<lparr>rc_method = to_upper method, rc_uri = uri, rc_path = path, rc_query_string = query_string,
          rc_headers = headers, rc_cookies = cookies, rc_body = body, rc_remote_addr = client_ip,
          rc_protocol = protocol, rc_ja3_fingerprint = ja3\<rparr>)"

definition user_agent :: "http_request_context \<Rightarrow> str option" where
  "user_agent ctx = get_either (rc_headers ctx) ''user-agent'' ''User-Agent''"

definition body_str :: "http_request_context \<Rightarrow> str" where
  "body_str ctx = from_utf8_lossy (rc_body ctx)"

definition body_size :: "http_request_context \<Rightarrow> nat" where
  "body_size ctx = length (rc_body ctx)"

definition header_count :: "http_request_context \<Rightarrow> nat" where
  "header_count ctx = length (rc_headers ctx)"

lemma distinct_collect_map: "distinct (map fst (collect_map kvs))"
proof -
  have "distinct (map fst (foldl (\<lambda>m (k, v). AList.update k v m) m kvs))" if "distinct (map fst m)" for m
    using that by (induction kvs arbitrary: m) (auto simp: distinct_update)
  then show ?thesis by (simp add: collect_map_def)
qed

lemma find_sub_char:
  "find_sub s [c] = (if c \<in> set s then Some (length (takeWhile (\<lambda>d. d \<noteq> c) s)) else None)"
  by (induction s) auto

lemma split_at_char:
  assumes "c \<in> set s"
  defines "i \<equiv> length (takeWhile (\<lambda>d. d \<noteq> c) s)"
  shows "s = take i s @ c # drop (Suc i) s" "c \<notin> set (take i s)"
proof -
  from assms(1) obtain xs ys where s: "s = xs @ c # ys" and xs: "c \<notin> set xs"
    by (metis split_list_first)
  have "takeWhile (\<lambda>d. d \<noteq> c) (c # ys) = []" by simp
  with xs have "takeWhile (\<lambda>d. d \<noteq> c) (xs @ c # ys) = xs"
    by (subst takeWhile_append2) auto
  then have "i = length xs" by (simp add: i_def s)
  with s xs show "s = take i s @ c # drop (Suc i) s" "c \<notin> set (take i s)"
    by simp_all
qed

lemma from_parts_simps:
  "rc_uri (from_parts m u h b ip j) = u"
  "rc_path (from_parts m u h b ip j) =
     (case find_sub u ''?'' of Some i \<Rightarrow> take i u | None \<Rightarrow> u)"
  "rc_query_string (from_parts m u h b ip j) =
     (case find_sub u ''?'' of Some i \<Rightarrow> drop (i + 1) u | None \<Rightarrow> [])"
  "rc_cookies (from_parts m u h b ip j) =
     (case get_either h ''cookie'' ''Cookie'' of Some c \<Rightarrow> parse_cookies c | None \<Rightarrow> [])"
  by (simp_all add: from_parts_def Let_def split: option.split)

text \<open>Building a request context loses nothing of the target: path and query string are the two
  sides of the first question mark, the path has none, and the cookie names are distinct.\<close>

theorem from_parts_splits_uri:
  "u = rc_path (from_parts m u h b ip j) @
         (if CHR ''?'' \<in> set u then CHR ''?'' # rc_query_string (from_parts m u h b ip j) else []) \<and>
   CHR ''?'' \<notin> set (rc_path (from_parts m u h b ip j)) \<and>
   distinct (map fst (rc_cookies (from_parts m u h b ip j)))"
proof -
  have "distinct (map fst (rc_cookies (from_parts m u h b ip j)))"
    by (simp add: from_parts_simps parse_cookies_def distinct_collect_map split: option.split)
  then show ?thesis
    using split_at_char [of "CHR ''?''" u]
    by (cases "CHR ''?'' \<in> set u") (simp_all add: from_parts_simps find_sub_char)
qed

section \<open>Decisions\<close>

datatype waf_decision = Waf_Allow | Waf_Block | Waf_Log | Waf_Redirect str | Waf_Challenge

fun waf_decision_status_code :: "waf_decision \<Rightarrow> u16" where
  "waf_decision_status_code Waf_Allow = 200"
| "waf_decision_status_code Waf_Block = 403"
| "waf_decision_status_code Waf_Log = 200"
| "waf_decision_status_code (Waf_Redirect _) = 302"
| "waf_decision_status_code Waf_Challenge = 429"

definition waf_decision_is_blocked :: "waf_decision \<Rightarrow> bool" where
  "waf_decision_is_blocked d = (d = Waf_Block)"

section \<open>Anomaly scoring\<close>

record anomaly_scorer =
  as_threshold :: u32
  as_current_score :: u32
  as_matched_rule_ids :: "str list"

definition anomaly_scorer_new :: "u32 \<Rightarrow> anomaly_scorer" where
  "anomaly_scorer_new threshold =
     \<lparr>as_threshold = threshold, as_current_score = 0, as_matched_rule_ids = []\<rparr>"

definition add_match :: "str \<Rightarrow> u32 \<Rightarrow> anomaly_scorer \<Rightarrow> anomaly_scorer" where
  "add_match rule_id score s =
     s\<lparr>as_current_score := saturating_add (as_current_score s) score,
       as_matched_rule_ids := as_matched_rule_ids s @ [rule_id]\<rparr>"

definition add_score :: "u32 \<Rightarrow> anomaly_scorer \<Rightarrow> anomaly_scorer" where
  "add_score score s = s\<lparr>as_current_score := saturating_add (as_current_score s) score\<rparr>"

definition is_anomalous :: "anomaly_scorer \<Rightarrow> bool" where
  "is_anomalous s = (as_threshold s \<le> as_current_score s)"

definition anomaly_scorer_reset :: "anomaly_scorer \<Rightarrow> anomaly_scorer" where
  "anomaly_scorer_reset s = s\<lparr>as_current_score := 0, as_matched_rule_ids := []\<rparr>"

text \<open>A run of matches: each identifier once per match, and the sum of the scores capped at the
  largest 32-bit value.\<close>

definition add_matches :: "(str \<times> u32) list \<Rightarrow> anomaly_scorer \<Rightarrow> anomaly_scorer" where
  "add_matches ms s = fold (\<lambda>(i, sc). add_match i sc) ms s"

definition capped :: "nat \<Rightarrow> nat" where
  "capped n = min n (2 ^ 32 - 1)"

definition scores_of :: "(str \<times> u32) list \<Rightarrow> nat" where
  "scores_of ms = sum_list (map (unat \<circ> snd) ms)"

lemma scores_of_simps [simp]:
  "scores_of [] = 0"
  "scores_of (m # ms) = unat (snd m) + scores_of ms"
  "scores_of (ms @ ns) = scores_of ms + scores_of ns"
  by (simp_all add: scores_of_def)

lemma add_matches_simps [simp]:
  "add_matches [] s = s"
  "add_matches ((i, sc) # ms) s = add_matches ms (add_match i sc s)"
  "add_matches (ms @ ns) s = add_matches ns (add_matches ms s)"
  by (simp_all add: add_matches_def)

lemma add_matches_threshold [simp]: "as_threshold (add_matches ms s) = as_threshold s"
  by (induction ms arbitrary: s) (auto simp: add_match_def)

lemma add_matches_ids [simp]:
  "as_matched_rule_ids (add_matches ms s) = as_matched_rule_ids s @ map fst ms"
  by (induction ms arbitrary: s) (auto simp: add_match_def)

lemma u32_le_max: "unat (w :: u32) \<le> 2 ^ 32 - 1"
  using unsigned_less [of w, where 'a = nat] by simp

lemma add_matches_score:
  "unat (as_current_score (add_matches ms s)) = capped (unat (as_current_score s) + scores_of ms)"
proof (induction ms arbitrary: s)
  case Nil
  then show ?case using u32_le_max [of "as_current_score s"] by (simp add: capped_def)
next
  case (Cons m ms)
  then show ?case
    by (cases m) (simp add: add_match_def unat_saturating_add capped_def)
qed

lemma is_anomalous_add_matches:
  "is_anomalous (add_matches ms (anomaly_scorer_new th)) \<longleftrightarrow> unat th \<le> scores_of ms"
  using u32_le_max [of th]
  by (simp add: is_anomalous_def word_le_nat_alt add_matches_score anomaly_scorer_new_def capped_def)

end
