(* ===== verification/Waf_Transform.thy ===== *)
theory Waf_Transform
  imports Waf_Request
begin

text \<open>
  The transformations a rule applies to a request value before matching
  (\<^verbatim>\<open>serverwall-waf/src/rules/matcher.rs\<close>): percent, HTML-entity and base64 decoding, path
  normalisation, and their composition.  Percent decoding and base64 decoding are shown to invert
  the corresponding encodings, and the collapsing loop of the path normalisation to end.
\<close>

unbundle bit_operations_syntax

section \<open>Percent decoding\<close>

definition hex_val :: "char \<Rightarrow> nat option" where
  "hex_val c =
     (let n = byte c in
      if 48 \<le> n \<and> n \<le> 57 then Some (n - 48)
      else if 97 \<le> n \<and> n \<le> 102 then Some (n - 87)
      else if 65 \<le> n \<and> n \<le> 70 then Some (n - 55)
      else None)"

text \<open>\<^verbatim>\<open>u8::from_str_radix(hex, 16)\<close> on a text of two bytes: a leading plus sign is accepted.\<close>

fun from_str_radix_16 :: "str \<Rightarrow> nat option" where
  "from_str_radix_16 [a, b] =
     (if a = CHR ''+'' then hex_val b
      else case (hex_val a, hex_val b) of (Some x, Some y) \<Rightarrow> Some (16 * x + y) | _ \<Rightarrow> None)"
| "from_str_radix_16 _ = None"

lemma next_char_shrinks: "length (snd (next_char s)) \<le> length s"
  by (cases s) (simp_all add: length_dropWhile_le le_SucI)

function url_decode :: "str \<Rightarrow> str" where
  "url_decode [] = []"
| "url_decode (c # s) =
     (if c = CHR ''%'' then
        let hex = fst (next_char s) @ fst (next_char (snd (next_char s)));
            rest = snd (next_char (snd (next_char s)))
        in (if length hex = 2
            then case from_str_radix_16 hex of
                   Some b \<Rightarrow> byte_as_char b
                 | None \<Rightarrow> CHR ''%'' # hex
            else CHR ''%'' # hex) @ url_decode rest
      else if c = CHR ''+'' then CHR '' '' # url_decode s
      else c # url_decode s)"
  by pat_completeness auto
termination
proof (relation "measure length", goal_cases)
  case (2 c s hex rest)
  have "length rest \<le> length s"
    unfolding 2 by (meson next_char_shrinks order_trans)
  then show ?case by simp
qed simp_all

declare url_decode.simps(2) [simp del]

section \<open>HTML entities and paths\<close>

definition html_entity_decode :: "str \<Rightarrow> str" where
  "html_entity_decode s0 =
     (let s1 = replace s0 ''&amp;'' ''&'';
          s2 = replace s1 ''&lt;'' ''<'';
          s3 = replace s2 ''&gt;'' ''>'';
          s4 = replace s3 ''&quot;'' [CHR 0x22];
          s5 = replace s4 ''&#39;'' [CHR 0x27];
          s6 = replace s5 ''&apos;'' [CHR 0x27];
          s7 = replace s6 ''&#x27;'' [CHR 0x27];
          s8 = replace s7 ''&#x2f;'' ''/'';
          s9 = replace s8 ''&#x2F;'' ''/'';
          s10 = replace s9 ''&#34;'' [CHR 0x22];
          s11 = replace s10 ''&#60;'' ''<''
      in replace s11 ''&#62;'' ''>'')"

lemma split_str_not_Nil [simp]: "split_str p s \<noteq> []"
  by (subst split_str.simps) (simp split: option.split)

lemma replace_unfold:
  "p \<noteq> [] \<Longrightarrow>
   replace s p r =
     (case find_sub s p of
        None \<Rightarrow> s
      | Some i \<Rightarrow> take i s @ r @ replace (drop (i + length p) s) p r)"
proof -
  assume "p \<noteq> []"
  have "join r (x # xs) = x @ r @ join r xs" if "xs \<noteq> []" for x xs
    using that by (cases xs) simp_all
  with \<open>p \<noteq> []\<close> show ?thesis
    unfolding replace_def by (subst split_str.simps) (simp split: option.split)
qed

lemma length_replace_le:
  assumes "p \<noteq> []" "length r \<le> length p"
  shows "length (replace s p r) \<le> length s"
proof (induction s rule: length_induct)
  case (1 s)
  show ?case
  proof (cases "find_sub s p")
    case None
    with assms show ?thesis by (simp add: replace_unfold)
  next
    case (Some i)
    then have i: "i + length p \<le> length s" using find_sub_Some_prefix by blast
    with assms(1) have "length (replace (drop (i + length p) s) p r) \<le> length (drop (i + length p) s)"
      by (intro 1 [rule_format]) (cases p; simp)
    with Some i assms show ?thesis by (simp add: replace_unfold)
  qed
qed

lemma length_replace_less:
  assumes "p \<noteq> []" "length r < length p" "contains s p"
  shows "length (replace s p r) < length s"
proof -
  from assms(3) obtain i where i: "find_sub s p = Some i"
    unfolding contains_def using find_sub_None_iff by fastforce
  then have "i + length p \<le> length s" using find_sub_Some_prefix by blast
  moreover have "length (replace (drop (i + length p) s) p r) \<le> length (drop (i + length p) s)"
    using assms by (intro length_replace_le) simp_all
  ultimately show ?thesis using assms i by (simp add: replace_unfold)
qed

function collapse_slashes :: "str \<Rightarrow> str" where
  "collapse_slashes s =
     (if contains s ''//'' then collapse_slashes (replace s ''//'' ''/'') else s)"
  by pat_completeness auto
termination
  by (relation "measure length") (simp_all add: length_replace_less)

declare collapse_slashes.simps [simp del]

definition normalize_path :: "str \<Rightarrow> str" where
  "normalize_path s =
     (let result = replace s [CHR 0x5C] ''/''
      in replace (collapse_slashes result) ''/./'' ''/'')"

section \<open>Base64\<close>

definition B64_TABLE :: str where
  "B64_TABLE = ''ABCDEFGHIJKLMNOPQRSTUVWXYZabcdefghijklmnopqrstuvwxyz0123456789+/''"

fun position_of :: "'a \<Rightarrow> 'a list \<Rightarrow> nat option" where
  "position_of x [] = None"
| "position_of x (y # ys) = (if y = x then Some 0 else map_option Suc (position_of x ys))"

definition b64_val :: "char \<Rightarrow> u8 option" where
  "b64_val c = map_option of_nat (position_of c B64_TABLE)"

definition u8_char :: "u8 \<Rightarrow> char" where
  "u8_char w = char_of (unat w)"

text \<open>One chunk of at most four bytes; \<open>len\<close> counts the bytes that are not padding.\<close>

definition b64_chunk :: "str \<Rightarrow> str option" where
  "b64_chunk chunk =
     (let len = length (filter (\<lambda>b. b \<noteq> CHR ''='') chunk) in
      if len < 2 then None
      else case (b64_val (chunk ! 0), b64_val (chunk ! 1)) of
        (Some a, Some b) \<Rightarrow>
          let o1 = u8_char (push_bit 2 a OR drop_bit 4 b) in
          if len \<le> 2 then Some [o1]
          else (case b64_val (chunk ! 2) of
             None \<Rightarrow> None
           | Some c \<Rightarrow>
               let o2 = u8_char (push_bit 4 b OR drop_bit 2 c) in
               if len \<le> 3 then Some [o1, o2]
               else (case b64_val (chunk ! 3) of
                  None \<Rightarrow> None
                | Some d \<Rightarrow> Some [o1, o2, u8_char (push_bit 6 c OR d)]))
      | _ \<Rightarrow> None)"

function simple_base64_decode :: "str \<Rightarrow> str option" where
  "simple_base64_decode input =
     (if input = [] then Some []
      else case b64_chunk (take 4 input) of
             None \<Rightarrow> None
           | Some bs \<Rightarrow> map_option (\<lambda>r. bs @ r) (simple_base64_decode (drop 4 input)))"
  by pat_completeness auto
termination
  by (relation "measure length") auto

declare simple_base64_decode.simps [simp del]

definition decode_base64 :: "str \<Rightarrow> str option" where
  "decode_base64 input =
     (let trimmed = trim input in
      if trimmed = [] \<or>
         \<not> list_all (\<lambda>c. is_ascii_alphanumeric c \<or> c = CHR ''+'' \<or> c = CHR ''/'' \<or> c = CHR ''='') trimmed
      then None
      else case simple_base64_decode trimmed of
             None \<Rightarrow> None
           | Some bytes \<Rightarrow> if utf8_valid bytes then Some bytes else None)"

section \<open>Transformation chains\<close>

datatype transformation =
    Lowercase | UrlDecode | HtmlEntityDecode | Base64Decode | RemoveWhitespace | NormalizePath
  | NoTransformation

fun apply_transformation :: "transformation \<Rightarrow> str \<Rightarrow> str" where
  "apply_transformation Lowercase s = to_lower s"
| "apply_transformation UrlDecode s = url_decode s"
| "apply_transformation HtmlEntityDecode s = html_entity_decode s"
| "apply_transformation Base64Decode s = (case decode_base64 s of Some d \<Rightarrow> d | None \<Rightarrow> s)"
| "apply_transformation RemoveWhitespace s = filter (\<lambda>c. \<not> is_ws c) s"
| "apply_transformation NormalizePath s = normalize_path s"
| "apply_transformation NoTransformation s = s"

definition apply_transformations :: "str \<Rightarrow> transformation list \<Rightarrow> str" where
  "apply_transformations input ts = foldl (\<lambda>r t. apply_transformation t r) input ts"

section \<open>Percent decoding inverts percent encoding\<close>

definition percent_encode :: "str \<Rightarrow> str" where
  "percent_encode s =
     concat (map (\<lambda>c. [CHR ''%'', hex_char (byte c div 16), hex_char (byte c mod 16)]) s)"

lemma hex_val_hex_char: "d < 16 \<Longrightarrow> hex_val (hex_char d) = Some d"
  by (auto simp: hex_val_def hex_char_def byte_def Let_def)

lemma hex_char_not_special:
  assumes "d < 16"
  shows "hex_char d \<noteq> CHR ''+''" "\<not> is_cont (hex_char d)"
proof -
  have "byte (hex_char d) \<noteq> 43 \<and> byte (hex_char d) < 128"
    using assms by (auto simp: hex_char_def byte_def)
  then show "hex_char d \<noteq> CHR ''+''" "\<not> is_cont (hex_char d)"
    by (auto simp: is_cont_def byte_def)
qed

lemma byte_less_256 [simp]: "byte c < 256"
  by (simp add: byte_def)

lemma char_of_byte [simp]: "char_of (byte c) = c"
  by (simp add: byte_def)

lemma url_decode_escape:
  assumes "n < 256" "s = [] \<or> \<not> is_cont (hd s)"
  shows "url_decode (CHR ''%'' # hex_char (n div 16) # hex_char (n mod 16) # s) =
    byte_as_char n @ url_decode s"
proof -
  have d: "n div 16 < 16" "n mod 16 < 16" using assms(1) by auto
  note h = hex_char_not_special [OF d(1)] hex_char_not_special [OF d(2)]
  have "from_str_radix_16 [hex_char (n div 16), hex_char (n mod 16)] = Some n"
    using h d by (simp add: hex_val_hex_char)
  moreover have "takeWhile is_cont s = []" "dropWhile is_cont s = s"
    using assms(2) by (cases s; simp)+
  ultimately show ?thesis
    using h by (simp add: url_decode.simps(2) Let_def)
qed

text \<open>Percent decoding inverts percent encoding: whatever ASCII payload a client hides by
  escaping every byte of it, the rules see the payload.\<close>

theorem url_decode_percent_encode:
  assumes "list_all (\<lambda>c. byte c < 0x80) s"
  shows "url_decode (percent_encode s) = s"
  using assms
proof (induction s)
  case Nil
  then show ?case by (simp add: percent_encode_def)
next
  case (Cons c s)
  have "percent_encode s = [] \<or> \<not> is_cont (hd (percent_encode s))"
    by (cases s) (simp_all add: percent_encode_def is_cont_def byte_def)
  from url_decode_escape [OF byte_less_256 [of c] this] Cons show ?case
    by (simp add: percent_encode_def byte_as_char_def)
qed

theorem url_decode_percent_encode_witness:
  "url_decode (percent_encode ''../etc/passwd'') = ''../etc/passwd''"
  by (rule url_decode_percent_encode) code_simp

lemma url_decode_append:
  "CHR ''%'' \<notin> set a \<Longrightarrow>
   url_decode (a @ t) = map (\<lambda>c. if c = CHR ''+'' then CHR '' '' else c) a @ url_decode t"
  by (induction a) (auto simp: url_decode.simps(2))

lemma url_decode_plain:
  "CHR ''%'' \<notin> set a \<Longrightarrow> url_decode a = map (\<lambda>c. if c = CHR ''+'' then CHR '' '' else c) a"
  using url_decode_append [of a "[]"] by simp

section \<open>Base64 decoding inverts base64 encoding\<close>

text \<open>The encoding of RFC 4648: the four sextets of three bytes, and padding.\<close>

definition char_u8 :: "char \<Rightarrow> u8" where
  "char_u8 c = of_nat (byte c)"

definition b64_char :: "u8 \<Rightarrow> char" where
  "b64_char w = B64_TABLE ! unat w"

definition sextet1 :: "u8 \<Rightarrow> u8" where
  "sextet1 x = drop_bit 2 x"

definition sextet2 :: "u8 \<Rightarrow> u8 \<Rightarrow> u8" where
  "sextet2 x y = push_bit 4 (take_bit 2 x) OR drop_bit 4 y"

definition sextet3 :: "u8 \<Rightarrow> u8 \<Rightarrow> u8" where
  "sextet3 y z = push_bit 2 (take_bit 4 y) OR drop_bit 6 z"

definition sextet4 :: "u8 \<Rightarrow> u8" where
  "sextet4 z = take_bit 6 z"

fun base64_encode :: "str \<Rightarrow> str" where
  "base64_encode [] = []"
| "base64_encode [x] =
     [b64_char (sextet1 (char_u8 x)), b64_char (sextet2 (char_u8 x) 0), CHR ''='', CHR ''='']"
| "base64_encode [x, y] =
     [b64_char (sextet1 (char_u8 x)), b64_char (sextet2 (char_u8 x) (char_u8 y)),
      b64_char (sextet3 (char_u8 y) 0), CHR ''='']"
| "base64_encode (x # y # z # s) =
     b64_char (sextet1 (char_u8 x)) # b64_char (sextet2 (char_u8 x) (char_u8 y)) #
     b64_char (sextet3 (char_u8 y) (char_u8 z)) # b64_char (sextet4 (char_u8 z)) # base64_encode s"

lemma B64_TABLE_facts: "length B64_TABLE = 64" "distinct B64_TABLE" "CHR ''='' \<notin> set B64_TABLE"
  by (simp_all add: B64_TABLE_def)

lemma position_of_nth: "distinct xs \<Longrightarrow> i < length xs \<Longrightarrow> position_of (xs ! i) xs = Some i"
  by (induction xs arbitrary: i) (auto simp: nth_Cons split: nat.splits)

lemma b64_val_char: "unat w < 64 \<Longrightarrow> b64_val (b64_char w) = Some w"
  using position_of_nth [OF B64_TABLE_facts(2), of "unat w"]
  by (simp add: b64_val_def b64_char_def B64_TABLE_facts(1))

lemma b64_char_in_table: "unat w < 64 \<Longrightarrow> b64_char w \<in> set B64_TABLE"
  unfolding b64_char_def using B64_TABLE_facts(1) nth_mem by metis

lemma b64_char_not_pad: "unat w < 64 \<Longrightarrow> b64_char w \<noteq> CHR ''=''"
  using b64_char_in_table B64_TABLE_facts(3) by metis

lemma bit_u8_eqI:
  assumes "bit a 0 = bit b 0" "bit a 1 = bit b 1" "bit a 2 = bit b 2" "bit a 3 = bit b 3"
    "bit a 4 = bit b 4" "bit a 5 = bit b 5" "bit a 6 = bit b 6" "bit a 7 = bit b 7"
  shows "a = (b :: u8)"
proof (rule bit_word_eqI)
  fix n
  assume "n < LENGTH(8)"
  then consider "n = 0" | "n = 1" | "n = 2" | "n = 3" | "n = 4" | "n = 5" | "n = 6" | "n = 7"
    by fastforce
  then show "bit a n = bit b n" using assms by cases simp_all
qed

lemma bit_u8_out: "8 \<le> n \<Longrightarrow> \<not> bit (x :: u8) n"
  using bit_imp_le_length [of x n] by auto

lemma u8_below_64:
  assumes "take_bit 6 w = w"
  shows "unat (w :: u8) < 64"
proof -
  have "unat w = take_bit 6 (unat w)" by (metis assms unsigned_take_bit_eq)
  then show ?thesis using take_bit_nat_less_exp [of 6 "unat w"] by simp
qed

lemmas sextet_simps = sextet1_def sextet2_def sextet3_def sextet4_def bit_simps bit_u8_out

lemma sextet_below_64:
  "unat (sextet1 x) < 64" "unat (sextet2 x y) < 64" "unat (sextet3 x y) < 64" "unat (sextet4 x) < 64"
  by (rule u8_below_64, rule bit_u8_eqI; simp add: sextet_simps)+

lemma sextets_join:
  "push_bit 2 (sextet1 x) OR drop_bit 4 (sextet2 x y) = x"
  "push_bit 4 (sextet2 x y) OR drop_bit 2 (sextet3 y z) = y"
  "push_bit 6 (sextet3 y z) OR sextet4 z = z"
  by (rule bit_u8_eqI; simp add: sextet_simps)+

lemma u8_char_inverse [simp]: "u8_char (char_u8 c) = c"
  by (simp add: u8_char_def char_u8_def unsigned_of_nat take_bit_nat_eq_self)

lemmas b64_facts = sextet_below_64 [THEN b64_val_char] sextet_below_64 [THEN b64_char_not_pad]

lemma simple_base64_decode_encode: "simple_base64_decode (base64_encode s) = Some s"
  by (induction s rule: base64_encode.induct)
     (simp_all add: simple_base64_decode.simps b64_chunk_def b64_facts sextets_join Let_def)

definition b64_alphabet :: "char \<Rightarrow> bool" where
  "b64_alphabet c \<longleftrightarrow> is_ascii_alphanumeric c \<or> c = CHR ''+'' \<or> c = CHR ''/'' \<or> c = CHR ''=''"

lemma b64_table_alphabet: "c \<in> set B64_TABLE \<Longrightarrow> b64_alphabet c"
proof -
  have "list_all b64_alphabet B64_TABLE"
    by (simp add: B64_TABLE_def b64_alphabet_def is_ascii_alphanumeric_def)
  then show "c \<in> set B64_TABLE \<Longrightarrow> b64_alphabet c" by (simp only: list_all_iff)
qed

lemma base64_encode_alphabet: "list_all b64_alphabet (base64_encode s)"
  by (induction s rule: base64_encode.induct)
     (simp_all add: sextet_below_64 [THEN b64_char_in_table, THEN b64_table_alphabet], simp_all add: b64_alphabet_def)

lemma base64_encode_Nil_iff [simp]: "base64_encode s = [] \<longleftrightarrow> s = []"
  by (cases s rule: base64_encode.cases) simp_all

lemma b64_alphabet_not_ws: "b64_alphabet c \<Longrightarrow> \<not> is_ws c"
  by (auto simp: b64_alphabet_def is_ascii_alphanumeric_def is_ws_def Let_def)

text \<open>The hand-written base64 decoder inverts the standard encoding on every non-empty UTF-8
  text, whatever padding its length calls for.\<close>

theorem decode_base64_encode:
  assumes "s \<noteq> []" "utf8_valid s"
  shows "decode_base64 (base64_encode s) = Some s"
proof -
  have "list_all (\<lambda>c. \<not> is_ws c) (base64_encode s)"
    using base64_encode_alphabet [of s] by (auto simp: list_all_iff b64_alphabet_not_ws)
  then have "trim (base64_encode s) = base64_encode s" by (rule trim_no_ws)
  with assms base64_encode_alphabet [of s] show ?thesis
    by (simp add: decode_base64_def Let_def simple_base64_decode_encode b64_alphabet_def [abs_def])
qed

theorem decode_base64_encode_witness:
  "decode_base64 (base64_encode ''<script>'') = Some ''<script>''"
  by (rule decode_base64_encode) (simp, rule utf8_valid_ascii, simp add: byte_def)

end
