(* ===== verification/Waf_Rules.thy ===== *)
theory Waf_Rules
  imports Waf_Transform External_Libs
begin

text \<open>
  Rules, their compilation into groups, the built-in rule sets and the custom-rule parser
  (\<^verbatim>\<open>serverwall-waf/src/rules\<close> and \<^verbatim>\<open>serverwall-waf/src/inspection\<close>).  Regular
  expressions are the argument \<open>lib\<close>; the file system and the TOML parser of a rules directory are
  arguments of the loader.
\<close>

section \<open>Rules\<close>

datatype rule_target =
    RequestUri | Path | QueryString | RequestHeaders | HeaderValue str | RequestBody | Cookies
  | UserAgent | RemoteAddr

datatype rule_operator =
    Op_Regex | Op_Contains | Op_Equals | Op_StartsWith | Op_EndsWith | Op_GreaterThan | Op_LessThan
  | Op_DetectSqli | Op_DetectXss

datatype severity = Critical | Error | Warning | Notice

fun severity_u8 :: "severity \<Rightarrow> u8" where
  "severity_u8 Critical = 1"
| "severity_u8 Error = 2"
| "severity_u8 Warning = 3"
| "severity_u8 Notice = 4"

fun severity_default_score :: "severity \<Rightarrow> u32" where
  "severity_default_score Critical = 5"
| "severity_default_score Error = 4"
| "severity_default_score Warning = 3"
| "severity_default_score Notice = 2"

record waf_rule =
  wr_id :: u32
  wr_description :: str
  wr_targets :: "rule_target list"
  wr_operator :: rule_operator
  wr_pattern :: str
  wr_transformations :: "transformation list"
  wr_severity :: u8
  wr_score :: u32
  wr_paranoia_level :: u8

definition waf_rule_regex ::
  "u32 \<Rightarrow> str \<Rightarrow> rule_target list \<Rightarrow> str \<Rightarrow> u8 \<Rightarrow> u32 \<Rightarrow> u8 \<Rightarrow> waf_rule" where
  "waf_rule_regex i description targets pattern severity score paranoia =
     \<lparr>wr_id = i, wr_description = description, wr_targets = targets, wr_operator = Op_Regex,
      wr_pattern = pattern, wr_transformations = [Lowercase, UrlDecode], wr_severity = severity,
      wr_score = score, wr_paranoia_level = paranoia\<rparr>"

text \<open>The values of one target in a request.\<close>

fun extract_targets :: "http_request_context \<Rightarrow> rule_target \<Rightarrow> str list" where
  "extract_targets ctx RequestUri = [rc_uri ctx]"
| "extract_targets ctx Path = [rc_path ctx]"
| "extract_targets ctx QueryString =
     (if rc_query_string ctx = [] then [] else [rc_query_string ctx])"
| "extract_targets ctx RequestHeaders = map snd (rc_headers ctx)"
| "extract_targets ctx (HeaderValue name) =
     (let lower = to_lower name
      in map snd (filter (\<lambda>(k, _). to_lower k = lower) (rc_headers ctx)))"
| "extract_targets ctx RequestBody =
     (let body = from_utf8_lossy (rc_body ctx) in if body = [] then [] else [body])"
| "extract_targets ctx Cookies = map snd (rc_cookies ctx)"
| "extract_targets ctx UserAgent = (case user_agent ctx of Some s \<Rightarrow> [s] | None \<Rightarrow> [])"
| "extract_targets ctx RemoteAddr = [ip_to_string (rc_remote_addr ctx)]"

section \<open>Compiled groups\<close>

record 'rs compiled_rule_group =
  crg_regex_set :: 'rs
  crg_rules :: "waf_rule list"
  crg_targets :: "rule_target list"

definition compile_rule_group ::
  "('re, 'rs) regex_lib \<Rightarrow> waf_rule list \<Rightarrow> 'rs compiled_rule_group option" where
  "compile_rule_group lib rules =
     (if rules = [] then None
      else
        let targets = wr_targets (rules ! 0);
            patterns = map wr_pattern rules
        in case rs_new lib patterns of
             Some rs \<Rightarrow> Some \<lparr>crg_regex_set = rs, crg_rules = rules, crg_targets = targets\<rparr>
           | None \<Rightarrow>
               let valid_rules = filter (\<lambda>r. re_new lib (wr_pattern r) \<noteq> None) rules
               in if valid_rules = [] then None
                  else map_option
                         (\<lambda>rs. \<lparr>crg_regex_set = rs, crg_rules = valid_rules, crg_targets = targets\<rparr>)
                         (rs_new lib (map wr_pattern valid_rules)))"

definition group_matches ::
  "('re, 'rs) regex_lib \<Rightarrow> 'rs compiled_rule_group \<Rightarrow> str \<Rightarrow> nat list" where
  "group_matches lib g input = rs_matches lib (crg_regex_set g) input"

section \<open>The built-in rules\<close>

definition sql_injection_rules :: "waf_rule list" where
  "sql_injection_rules =
     (let targets = [QueryString, RequestBody, RequestUri, Cookies]
      in [
        waf_rule_regex 941100 ''SQL Injection: UNION-based attack''
          targets
          (rx ''(?i)(?:union~s+(?:all~s+)?select)'') 1 5 1,
        waf_rule_regex 941110 ''SQL Injection: tautology (OR 1=1, OR true)''
          targets
          (rx ''(?i)(?:@~s*(?:or|and)~s+[@~d][~d~s]*=~s*[@~d])'') 1 5 1,
        waf_rule_regex 941120 ''SQL Injection: comment-based bypass (--)''
          targets
          (rx ''(?i)(?:@~s*;~s*--~s*|@~s*--~s*)'') 2 4 1,
        waf_rule_regex 941130 ''SQL Injection: DROP/ALTER/TRUNCATE statements''
          targets
          (rx ''(?i)(?:;~s*(?:drop|alter|truncate|create|insert|update|delete)~s+(?:table|database|schema|index))'') 1 5 1,
        waf_rule_regex 941140 ''SQL Injection: EXEC/EXECUTE xp_cmdshell''
          targets
          (rx ''(?i)(?:(?:exec|execute)~s+(?:xp_|sp_)|xp_cmdshell)'') 1 5 1,
        waf_rule_regex 941200 ''SQL Injection: SLEEP/BENCHMARK/WAITFOR timing attacks''
          targets
          (rx ''(?i)(?:sleep~s*~(~s*~d|benchmark~s*~(~s*~d|waitfor~s+delay~s+@)'') 2 4 2,
        waf_rule_regex 941210 ''SQL Injection: stacked queries''
          targets
          (rx ''(?i)(?:;~s*(?:select|insert|update|delete|drop|alter|create)~s)'') 2 4 2,
        waf_rule_regex 941220 ''SQL Injection: INFORMATION_SCHEMA/system tables''
          targets
          (rx ''(?i)(?:information_schema|mysql~.user|sysobjects|syscolumns|pg_catalog)'') 2 4 2,
        waf_rule_regex 941230 ''SQL Injection: LOAD_FILE/INTO OUTFILE''
          targets
          (rx ''(?i)(?:load_file~s*~(|into~s+(?:out|dump)file)'') 1 5 2,
        waf_rule_regex 941240 ''SQL Injection: hex-encoded values''
          targets
          (rx ''(?i)(?:0x[0-9a-f]{8,}|char~s*~(~s*~d+(?:~s*,~s*~d+)+~s*~))'') 3 3 2,
        waf_rule_regex 941300 ''SQL Injection: common SQL keywords in suspicious context''
          targets
          (rx ''(?i)(?:@~s*(?:having|group~s+by|order~s+by|limit)~s)'') 3 3 3,
        waf_rule_regex 941310 ''SQL Injection: SQL function calls''
          targets
          (rx ''(?i)(?:(?:concat|substr|substring|ascii|hex|unhex|conv|cast)~s*~()'') 4 2 3,
        waf_rule_regex 941320 ''SQL Injection: single-quote probing''
          targets
          (rx ''(?:(?:^|[^~w])@~s*(?:$|[^~w@]))'') 4 2 4])"

definition xss_rules :: "waf_rule list" where
  "xss_rules =
     (let targets = [QueryString, RequestBody, RequestUri, Cookies]
      in [
        waf_rule_regex 942100 ''XSS: <script> tag injection''
          targets
          (rx ''(?i)<~s*script[^>]*>'') 1 5 1,
        waf_rule_regex 942110 ''XSS: javascript: protocol handler''
          targets
          (rx ''(?i)javascript~s*:'') 1 5 1,
        waf_rule_regex 942120 ''XSS: on-event handler attributes''
          targets
          (rx ''(?i)~bon(?:error|load|click|mouse(?:over|out|down|up)|focus|blur|change|submit|key(?:down|up|press)|unload)~s*='') 1 5 1,
        waf_rule_regex 942130 ''XSS: <iframe>/<object>/<embed> injection''
          targets
          (rx ''(?i)<~s*(?:iframe|object|embed|applet|form|base)~b'') 1 5 1,
        waf_rule_regex 942140 ''XSS: data: URI with script content''
          targets
          (rx ''(?i)data~s*:~s*(?:text/html|application/xhtml)'') 2 4 1,
        waf_rule_regex 942200 ''XSS: SVG onload/animate attack''
          targets
          (rx ''(?i)<~s*svg[^>]*~bon(?:load|error)~s*='') 2 4 2,
        waf_rule_regex 942210 ''XSS: HTML entity encoding bypass''
          targets
          (rx ''(?i)(?:&#(?:x0*(?:6[1-9a-f]|7[0-9a])|0*(?:9[7-9]|1[01][0-9]|12[0-2]))~s*;?)'') 3 3 2,
        waf_rule_regex 942220 ''XSS: expression() CSS function''
          targets
          (rx ''(?i)(?:expression|behavior)~s*~('') 2 4 2,
        waf_rule_regex 942230 ''XSS: vbscript: protocol handler''
          targets
          (rx ''(?i)vbscript~s*:'') 1 5 2,
        waf_rule_regex 942240 ''XSS: <img> tag with event handler''
          targets
          (rx ''(?i)<~s*img[^>]+~bon(?:error|load)~s*='') 2 4 2,
        waf_rule_regex 942300 ''XSS: alert/confirm/prompt/eval function calls''
          targets
          (rx ''(?i)(?:alert|confirm|prompt|eval)~s*~('') 3 3 3,
        waf_rule_regex 942310 ''XSS: document.cookie/document.write access''
          targets
          (rx ''(?i)document~s*~.~s*(?:cookie|write|location|domain)'') 3 3 3,
        waf_rule_regex 942320 ''XSS: innerHTML/outerHTML DOM manipulation''
          targets
          (rx ''(?i)~.(?:innerHTML|outerHTML|insertAdjacentHTML|write|writeln)~s*[=(]'') 3 3 3])"

definition path_traversal_rules :: "waf_rule list" where
  "path_traversal_rules =
     (let targets = [RequestUri, Path, QueryString, RequestBody]
      in [
        waf_rule_regex 943100 ''Path Traversal: ../ sequences''
          targets
          (rx ''(?:~.~./|~.~.~~)'') 1 5 1,
        waf_rule_regex 943110 ''Path Traversal: /etc/passwd or /etc/shadow access''
          targets
          (rx ''(?i)/etc/(?:passwd|shadow|hosts|group|resolv~.conf|issue)'') 1 5 1,
        waf_rule_regex 943120 ''Path Traversal: Windows drive letter access''
          targets
          (rx ''(?i)(?:(?:^|[^a-z])[a-z]:~~|~~~~[a-z0-9])'') 2 4 1,
        waf_rule_regex 943130 ''Path Traversal: null byte injection''
          targets
          (rx ''(?:%00|~~x00|~~0)'') 1 5 1,
        waf_rule_regex 943140 ''Path Traversal: /proc/self or /dev/ access''
          targets
          ''(?:/proc/(?:self|version|cpuinfo|meminfo)|/dev/(?:null|zero|random|urandom|tcp|udp))'' 1 5 1,
        waf_rule_regex 943200 ''Path Traversal: URL-encoded ../ sequences''
          targets
          (rx ''(?:%2e%2e[/~~]|~.%2e[/~~]|%2e~.[/~~]|%252e%252e)'') 2 4 2,
        waf_rule_regex 943210 ''Path Traversal: Windows system file access''
          targets
          (rx ''(?i)(?:windows[~~/]system32|windows[~~/]win~.ini|boot~.ini|web~.config)'') 2 4 2,
        waf_rule_regex 943220 ''Path Traversal: UTF-8 encoded traversal''
          targets
          ''(?:%c0%ae|%c1%9c|%c0%af)'' 1 5 2,
        waf_rule_regex 943230 ''Path Traversal: sensitive config file access''
          targets
          (rx ''(?i)(?:~.htaccess|~.htpasswd|~.env|~.git/|~.svn/|wp-config~.php|config~.yml|database~.yml)'') 2 4 2,
        waf_rule_regex 943300 ''Path Traversal: backslash-encoded sequences''
          targets
          (rx ''(?:~~~~~.~~~~~.)'') 3 3 3])"

definition command_injection_rules :: "waf_rule list" where
  "command_injection_rules =
     (let targets = [QueryString, RequestBody, RequestUri, Cookies]
      in [
        waf_rule_regex 944100 ''Command Injection: shell command chaining (;, &&, ||)''
          targets
          (rx ''(?:;~s*(?:cat|ls|id|whoami|uname|pwd|wget|curl|nc|ncat|bash|sh|python|perl|ruby|php)~b)'') 1 5 1,
        waf_rule_regex 944110 ''Command Injection: backtick command substitution''
          targets
          ''`[^`]*(?:cat|ls|id|whoami|uname|pwd|wget|curl|nc|bash|sh)[^`]*`'' 1 5 1,
        waf_rule_regex 944120 ''Command Injection: $() command substitution''
          targets
          (rx ''~$~([^)]*(?:cat|ls|id|whoami|uname|pwd|wget|curl|nc|bash|sh)[^)]*~)'') 1 5 1,
        waf_rule_regex 944130 ''Command Injection: pipe to shell commands''
          targets
          (rx ''(?:~|~s*(?:cat|ls|id|whoami|uname|bash|sh|python|perl|nc|ncat|wget|curl)~b)'') 1 5 1,
        waf_rule_regex 944140 ''Command Injection: /bin/ or /usr/bin/ direct execution''
          targets
          ''(?:/(?:usr/)?(?:s?bin|local/bin)/(?:cat|ls|id|whoami|uname|bash|sh|python|perl|nc|wget|curl|chmod|chown))'' 1 5 1,
        waf_rule_regex 944200 ''Command Injection: && or || chaining with any command''
          targets
          (rx ''(?:(?:&&|~|~|)~s*~w+~b)'') 3 3 2,
        waf_rule_regex 944210 ''Command Injection: redirection operators''
          targets
          (rx ''(?:>~s*/(?:etc|tmp|var|dev)|>>~s*~S+|<~s*/(?:etc|proc|dev))'') 2 4 2,
        waf_rule_regex 944220 ''Command Injection: environment variable injection''
          targets
          (rx ''(?:~$~{(?:IFS|PATH|SHELL|HOME|USER|HOSTNAME)~})'') 2 4 2,
        waf_rule_regex 944230 ''Command Injection: Powershell command patterns''
          targets
          (rx ''(?i)(?:powershell|invoke-(?:expression|webrequest|command)|new-object~s+system)'') 1 5 2,
        waf_rule_regex 944300 ''Command Injection: semicolon followed by any word''
          targets
          (rx ''(?:;~s*~w+)'') 4 2 3,
        waf_rule_regex 944310 ''Command Injection: line feeds used as command separators''
          targets
          (rx ''(?:%0[ad]|~~n|~~r)'') 4 2 3])"

definition protocol_attack_rules :: "waf_rule list" where
  "protocol_attack_rules =
     (let uri_targets = [RequestUri, Path, QueryString];
          header_targets = [RequestHeaders];
          all_targets = [RequestUri, QueryString, RequestHeaders, RequestBody]
      in [
        waf_rule_regex 945100 ''Protocol Attack: HTTP request smuggling (CL + TE)''
          header_targets
          (rx ''(?i)(?:transfer-encoding~s*:~s*chunked.*content-length|content-length.*transfer-encoding~s*:~s*chunked)'') 1 5 1,
        waf_rule_regex 945110 ''Protocol Attack: CRLF injection in headers''
          all_targets
          (rx ''(?:%0[da]|~~r|~~n)(?:%0[da]|~~r|~~n|[~w-]+~s*:)'') 1 5 1,
        waf_rule_regex 945120 ''Protocol Attack: HTTP response splitting''
          uri_targets
          ''(?i)(?:%0[da](?:%0[da])?(?:set-cookie|content-type|location|http/))'' 1 5 1,
        waf_rule_regex 945130 ''Protocol Attack: HTTP header injection via newlines''
          all_targets
          (rx ''(?:~r~n|~n)[~w-]+~s*:'') 1 5 1,
        waf_rule_regex 945140 ''Protocol Attack: invalid HTTP method''
          [RequestUri]
          (rx ''(?i)(?:^(?:connect|trace|track|debug)~s)'') 2 4 1,
        waf_rule_regex 945200 ''Protocol Attack: Transfer-Encoding obfuscation''
          header_targets
          (rx ''(?i)(?:transfer-encoding~s*:~s*(?:chunked~s*,|,~s*chunked|identity|compress|deflate|gzip)~s*,)'') 2 4 2,
        waf_rule_regex 945210 ''Protocol Attack: HTTP/0.9 request attempt''
          [RequestUri]
          (rx ''(?:^GET~s+/[^~s]*~s*$)'') 3 3 2,
        waf_rule_regex 945220 ''Protocol Attack: absolute URI in request line''
          uri_targets
          (rx ''(?i)(?:^(?:get|post|put|delete|patch)~s+https?://)'') 4 2 2,
        waf_rule_regex 945300 ''Protocol Attack: X-Forwarded-For header spoofing''
          header_targets
          (rx ''(?i)(?:x-forwarded-for~s*:~s*(?:127~.0~.0~.1|::1|0~.0~.0~.0|10~.~d|172~.(?:1[6-9]|2~d|3[01])~.|192~.168~.))'') 4 2 3,
        waf_rule_regex 945310 ''Protocol Attack: Host header injection''
          header_targets
          (rx ''(?i)(?:host~s*:~s*(?:localhost|127~.0~.0~.1|::1|0~.0~.0~.0)(?::~d+)?)'') 4 2 3])"

definition all_builtin_rules :: "waf_rule list" where
  "all_builtin_rules =
     sql_injection_rules @ xss_rules @ path_traversal_rules @ command_injection_rules @
     protocol_attack_rules"

section \<open>Custom rules\<close>

record waf_custom_rule =
  wcr_id :: u64
  wcr_description :: str
  wcr_phase :: u8
  wcr_action :: str
  wcr_match_field :: str
  wcr_operator :: str
  wcr_pattern :: str

record waf_exclusions =
  wex_paths :: "str list"
  wex_ip_addresses :: "str list"

datatype waf_mode = Blocking | DetectionOnly | Disabled

record waf_ruleset_config =
  wrc_name :: str
  wrc_mode :: waf_mode
  wrc_anomaly_threshold :: u32
  wrc_rules_dir :: "str option"
  wrc_paranoia_level :: u8
  wrc_exclusions :: waf_exclusions
  wrc_custom_rules :: "waf_custom_rule list"

definition parse_target :: "str \<Rightarrow> rule_target option" where
  "parse_target match_field =
     (let f = to_lower match_field in
      if f \<in> {''uri'', ''request_uri''} then Some RequestUri
      else if f = ''path'' then Some Path
      else if f \<in> {''query'', ''query_string'', ''args''} then Some QueryString
      else if f \<in> {''body'', ''request_body''} then Some RequestBody
      else if f \<in> {''headers'', ''request_headers''} then Some RequestHeaders
      else if f \<in> {''user_agent'', ''ua''} then Some UserAgent
      else if f \<in> {''cookie'', ''cookies''} then Some Cookies
      else if f \<in> {''remote_addr'', ''ip''} then Some RemoteAddr
      else None)"

definition operator_to_pattern :: "('re, 'rs) regex_lib \<Rightarrow> str \<Rightarrow> str \<Rightarrow> str" where
  "operator_to_pattern lib operator pattern =
     (let oper = to_lower operator in
      if oper \<in> {''regex'', ''rx''} then pattern
      else if oper \<in> {''contains'', ''contains_word''} then re_escape lib pattern
      else if oper \<in> {''equals'', ''eq'', ''streq''} then ''^'' @ re_escape lib pattern @ ''$''
      else if oper \<in> {''starts_with'', ''beginswith''} then ''^'' @ re_escape lib pattern
      else if oper \<in> {''ends_with'', ''endswith''} then re_escape lib pattern @ ''$''
      else pattern)"

definition convert_custom_rule :: "('re, 'rs) regex_lib \<Rightarrow> waf_custom_rule \<Rightarrow> waf_rule option" where
  "convert_custom_rule lib c =
     (case parse_target (wcr_match_field c) of
        None \<Rightarrow> None
      | Some target \<Rightarrow>
          Some \<lparr>wr_id = ucast (wcr_id c), wr_description = wcr_description c, wr_targets = [target],
                wr_operator = Op_Regex,
                wr_pattern = operator_to_pattern lib (wcr_operator c) (wcr_pattern c),
                wr_transformations = [Lowercase], wr_severity = severity_u8 Error, wr_score = 5,
                wr_paranoia_level = 1\<rparr>)"

text \<open>The file system and the TOML parser as the loader sees them.\<close>

record rules_dir_lib =
  rd_read_dir :: "str \<Rightarrow> str list option"
  rd_read_to_string :: "str \<Rightarrow> str option"
  rd_toml_rules :: "str \<Rightarrow> waf_custom_rule list option"

definition load_rules_file ::
  "('re, 'rs) regex_lib \<Rightarrow> rules_dir_lib \<Rightarrow> str \<Rightarrow> waf_rule list" where
  "load_rules_file lib fs path =
     (if path_extension path \<noteq> Some ''toml'' then []
      else case rd_read_to_string fs path of
             None \<Rightarrow> []
           | Some content \<Rightarrow>
               (case rd_toml_rules fs content of
                  None \<Rightarrow> []
                | Some customs \<Rightarrow> List.map_filter (convert_custom_rule lib) customs))"

definition load_from_dir ::
  "('re, 'rs) regex_lib \<Rightarrow> rules_dir_lib \<Rightarrow> str \<Rightarrow> waf_rule list" where
  "load_from_dir lib fs dir =
     (case rd_read_dir fs dir of
        None \<Rightarrow> []
      | Some paths \<Rightarrow> concat (map (load_rules_file lib fs) paths))"

definition rules_from_ruleset_config ::
  "('re, 'rs) regex_lib \<Rightarrow> rules_dir_lib \<Rightarrow> waf_ruleset_config \<Rightarrow> waf_rule list" where
  "rules_from_ruleset_config lib fs cfg =
     List.map_filter (convert_custom_rule lib) (wrc_custom_rules cfg) @
     (case wrc_rules_dir cfg of None \<Rightarrow> [] | Some d \<Rightarrow> load_from_dir lib fs d)"

section \<open>Compilation keeps rules and patterns aligned\<close>

definition rule_matches :: "('re, 'rs) regex_lib \<Rightarrow> waf_rule \<Rightarrow> str \<Rightarrow> bool" where
  "rule_matches lib r s \<longleftrightarrow>
     (case re_new lib (wr_pattern r) of None \<Rightarrow> False | Some re \<Rightarrow> re_is_match lib re s)"

lemma sorted_distinct_set_filter:
  assumes "sorted (xs :: nat list)" "distinct xs" "set xs = {i. i < n \<and> P i}"
  shows "xs = filter P [0..<n]"
proof (rule sorted_distinct_set_unique)
  show "set xs = set (filter P [0..<n])" using assms(3) by auto
qed (use assms in \<open>simp_all add: sorted_wrt_filter\<close>)

lemma rs_matches_rules:
  assumes "regex_set_law lib" "rs_new lib (map wr_pattern rules) = Some rs"
  shows "map (\<lambda>i. rules ! i) (rs_matches lib rs s) = filter (\<lambda>r. rule_matches lib r s) rules"
proof -
  let ?P = "\<lambda>i. rule_matches lib (rules ! i) s"
  note law = assms(1) [unfolded regex_set_law_def, rule_format, OF assms(2), of s]
  have "{i. i < length (map wr_pattern rules) \<and>
          (\<exists>re. re_new lib (map wr_pattern rules ! i) = Some re \<and> re_is_match lib re s)} =
      {i. i < length rules \<and> ?P i}"
    by (rule Collect_cong) (auto simp: rule_matches_def split: option.split)
  with law have "set (rs_matches lib rs s) = {i. i < length rules \<and> ?P i}"
    by (elim conjE) (rule trans)
  with law have "rs_matches lib rs s = filter ?P [0..<length rules]"
    by (elim conjE) (rule sorted_distinct_set_filter)
  then have "map (\<lambda>i. rules ! i) (rs_matches lib rs s) =
      filter (\<lambda>r. rule_matches lib r s) (map (\<lambda>i. rules ! i) [0..<length rules])"
    by (simp only: filter_map comp_def)
  then show ?thesis by (simp only: map_nth)
qed

lemma filter_valid_rules:
  "filter (\<lambda>r. rule_matches lib r s) (filter (\<lambda>r. re_new lib (wr_pattern r) \<noteq> None) rules) =
   filter (\<lambda>r. rule_matches lib r s) rules"
  by (induction rules) (auto simp: rule_matches_def)

lemma compile_rule_group_targets:
  "compile_rule_group lib rules = Some g \<Longrightarrow> crg_targets g = wr_targets (hd rules)"
  by (auto simp: compile_rule_group_def Let_def hd_conv_nth split: if_splits option.splits)

lemma compile_rule_group_subset:
  "compile_rule_group lib rules = Some g \<Longrightarrow> crg_rules g \<noteq> [] \<and> set (crg_rules g) \<subseteq> set rules"
  by (auto simp: compile_rule_group_def Let_def split: if_splits option.splits)

lemma group_matches_rules:
  assumes "regex_set_law lib" "compile_rule_group lib rules = Some g"
  shows "map (\<lambda>i. crg_rules g ! i) (group_matches lib g s) = filter (\<lambda>r. rule_matches lib r s) rules"
  using assms rs_matches_rules [OF assms(1)] filter_valid_rules [of lib s rules]
  by (auto simp: compile_rule_group_def group_matches_def Let_def split: if_splits option.splits)

lemma group_matches_bound:
  assumes "regex_set_law lib" "compile_rule_group lib rules = Some g" "i \<in> set (group_matches lib g s)"
  shows "i < length (crg_rules g)"
proof -
  from assms(2) have rs: "rs_new lib (map wr_pattern (crg_rules g)) = Some (crg_regex_set g)"
    by (auto simp: compile_rule_group_def Let_def split: if_splits option.splits)
  from assms(1) [unfolded regex_set_law_def, rule_format, OF rs, of s] assms(3) show ?thesis
    by (simp add: group_matches_def)
qed

lemma compile_rule_group_total:
  assumes "regex_set_total lib" "r \<in> set rules" "re_new lib (wr_pattern r) \<noteq> None"
  shows "\<exists>g. compile_rule_group lib rules = Some g"
proof -
  let ?v = "filter (\<lambda>r. re_new lib (wr_pattern r) \<noteq> None) rules"
  have "?v \<noteq> []" using assms(2,3) by (auto simp: filter_empty_conv)
  moreover have "rs_new lib (map wr_pattern ?v) \<noteq> None"
    by (rule assms(1) [unfolded regex_set_total_def, rule_format]) (auto simp: list_all_iff)
  ultimately show ?thesis
    using assms(2) by (auto simp: compile_rule_group_def Let_def split: option.split)
qed

text \<open>C26. Compiling rules into one regex set keeps every rule attached to its own pattern, also when
  rules with invalid patterns are skipped: the rules at the indices the set reports for a value are
  exactly the given rules whose pattern matches it, in their order.\<close>

theorem compile_rule_group_matches:
  assumes "regex_set_law lib" "compile_rule_group lib rules = Some g"
  shows "map (\<lambda>i. crg_rules g ! i) (group_matches lib g s) = filter (\<lambda>r. rule_matches lib r s) rules"
  using assms by (rule group_matches_rules)

definition demo_rule :: "str \<Rightarrow> waf_rule" where
  "demo_rule p = waf_rule_regex 1 ''demo'' [QueryString] p 1 5 1"

theorem compile_rule_group_matches_witness:
  "map (\<lambda>i. [demo_rule ''ab'', demo_rule ''c''] ! i)
     (group_matches substring_regex_lib
        \<lparr>crg_regex_set = [''ab'', ''c''], crg_rules = [demo_rule ''ab'', demo_rule ''c''],
         crg_targets = [QueryString]\<rparr> ''xcx'') = [demo_rule ''c'']"
proof -
  have "compile_rule_group substring_regex_lib [demo_rule ''ab'', demo_rule [], demo_rule ''c''] =
    Some \<lparr>crg_regex_set = [''ab'', ''c''], crg_rules = [demo_rule ''ab'', demo_rule ''c''],
          crg_targets = [QueryString]\<rparr>"
    by (simp add: compile_rule_group_def substring_regex_lib_def demo_rule_def waf_rule_regex_def Let_def)
  from compile_rule_group_matches [OF substring_regex_lib_law this, of "''xcx''"] show ?thesis
    by (simp add: rule_matches_def substring_regex_lib_def demo_rule_def waf_rule_regex_def
        sublist_Cons_right)
qed

end
