(* ===== verification/Waf_Engine.thy ===== *)
theory Waf_Engine
  imports Waf_Rules
begin

text \<open>
  The firewall engine (\<^verbatim>\<open>serverwall-waf/src/engine.rs\<close>): construction from built-in and custom
  rules, the three phases of \<^verbatim>\<open>inspect\<close>, and the verdict.  The scorer that the code mutates is
  passed along.  The main lemma writes the verdict as a threshold on the sum of the scores of all
  matches, so that the early exit after the limits does not change a decision.
\<close>

section \<open>Engine\<close>

record request_limits =
  rl_max_body_size :: nat
  rl_max_header_count :: nat
  rl_max_header_value_len :: nat
  rl_max_uri_length :: nat

definition request_limits_default :: request_limits where
  "request_limits_default =
     \<lparr>rl_max_body_size = 10 * 1024 * 1024, rl_max_header_count = 100,
      rl_max_header_value_len = 8192, rl_max_uri_length = 8192\<rparr>"

record waf_verdict =
  wv_decision :: waf_decision
  wv_matched_rules :: "str list"
  wv_anomaly_score :: u32

record 'rs waf_engine =
  we_mode :: waf_mode
  we_anomaly_threshold :: u32
  we_paranoia_level :: u8
  we_rule_groups :: "'rs compiled_rule_group list"
  we_limits :: request_limits
  we_excluded_paths :: "str list"
  we_excluded_ips :: "str list"

definition waf_engine_with_config ::
  "('re, 'rs) regex_lib \<Rightarrow> waf_mode \<Rightarrow> u32 \<Rightarrow> u8 \<Rightarrow> request_limits \<Rightarrow> 'rs waf_engine" where
  "waf_engine_with_config lib mode threshold paranoia limits =
     (let active_rules = filter (\<lambda>r. wr_paranoia_level r \<le> paranoia) all_builtin_rules;
          rule_groups = (case compile_rule_group lib active_rules of Some g \<Rightarrow> [g] | None \<Rightarrow> [])
      in \<lparr>we_mode = mode, we_anomaly_threshold = threshold, we_paranoia_level = paranoia,
          we_rule_groups = rule_groups, we_limits = limits, we_excluded_paths = [],
          we_excluded_ips = []\<rparr>)"

definition waf_engine_new :: "('re, 'rs) regex_lib \<Rightarrow> waf_mode \<Rightarrow> 'rs waf_engine" where
  "waf_engine_new lib mode = waf_engine_with_config lib mode 5 1 request_limits_default"

text \<open>\<^verbatim>\<open>entry(key).or_default().push(rule)\<close> on a map keyed by the rendering of the first target,
  which determines the target.\<close>

definition group_by_target :: "waf_rule list \<Rightarrow> (rule_target option \<times> waf_rule list) list" where
  "group_by_target rules =
     foldl (\<lambda>m r.
       let key = (case wr_targets r of [] \<Rightarrow> None | t # _ \<Rightarrow> Some t)
       in AList.update key ((case map_of m key of None \<Rightarrow> [] | Some rs \<Rightarrow> rs) @ [r]) m) [] rules"

definition add_custom_rules ::
  "('re, 'rs) regex_lib \<Rightarrow> waf_rule list \<Rightarrow> 'rs waf_engine \<Rightarrow> 'rs waf_engine" where
  "add_custom_rules lib rules e =
     e\<lparr>we_rule_groups := we_rule_groups e @
         List.map_filter (\<lambda>(_, rs). compile_rule_group lib rs) (group_by_target rules)\<rparr>"

definition waf_engine_from_ruleset_config ::
  "('re, 'rs) regex_lib \<Rightarrow> rules_dir_lib \<Rightarrow> waf_ruleset_config \<Rightarrow> 'rs waf_engine" where
  "waf_engine_from_ruleset_config lib fs cfg =
     (let engine = waf_engine_with_config lib (wrc_mode cfg) (wrc_anomaly_threshold cfg)
                     (wrc_paranoia_level cfg) request_limits_default;
          custom_rules = rules_from_ruleset_config lib fs cfg;
          engine = (if custom_rules \<noteq> [] then add_custom_rules lib custom_rules engine else engine)
      in engine\<lparr>we_excluded_paths := wex_paths (wrc_exclusions cfg),
                we_excluded_ips := wex_ip_addresses (wrc_exclusions cfg)\<rparr>)"

section \<open>Inspection\<close>

definition check_limits ::
  "'rs waf_engine \<Rightarrow> http_request_context \<Rightarrow> anomaly_scorer \<Rightarrow> waf_verdict option \<times> anomaly_scorer" where
  "check_limits e ctx s0 =
     (let lim = we_limits e;
          s1 = (if 0 < rl_max_body_size lim \<and> rl_max_body_size lim < body_size ctx
                then add_match ''LIMIT:body_size'' 5 s0 else s0);
          s2 = (if rl_max_header_count lim < header_count ctx
                then add_match ''LIMIT:header_count'' 5 s1 else s1);
          s3 = (if rl_max_uri_length lim < length (rc_uri ctx)
                then add_match ''LIMIT:uri_length'' 5 s2 else s2);
          s4 = fold (\<lambda>(name, value) s.
                 if rl_max_header_value_len lim < length value
                 then add_match (''LIMIT:header_value_len:'' @ name) 5 s else s) (rc_headers ctx) s3
      in (if is_anomalous s4 \<and> we_mode e = Blocking
          then Some \<lparr>wv_decision = Waf_Block, wv_matched_rules = as_matched_rule_ids s4,
                     wv_anomaly_score = as_current_score s4\<rparr>
          else None, s4))"

definition rule_id_string :: "waf_rule \<Rightarrow> str" where
  "rule_id_string r = show_nat (unat (wr_id r)) @ '':'' @ wr_description r"

definition evaluate_value ::
  "('re, 'rs) regex_lib \<Rightarrow> 'rs compiled_rule_group \<Rightarrow> transformation list \<Rightarrow> str \<Rightarrow>
   anomaly_scorer \<Rightarrow> anomaly_scorer" where
  "evaluate_value lib g ts value s =
     fold (\<lambda>idx s. if idx < length (crg_rules g)
                   then let rule = crg_rules g ! idx in add_match (rule_id_string rule) (wr_score rule) s
                   else s)
       (group_matches lib g (apply_transformations value ts)) s"

definition evaluate_group ::
  "('re, 'rs) regex_lib \<Rightarrow> http_request_context \<Rightarrow> 'rs compiled_rule_group \<Rightarrow>
   anomaly_scorer \<Rightarrow> anomaly_scorer" where
  "evaluate_group lib ctx g s =
     (let target_values = concat (map (extract_targets ctx) (crg_targets g))
      in case crg_rules g of
           [] \<Rightarrow> s
         | first_rule # _ \<Rightarrow> fold (evaluate_value lib g (wr_transformations first_rule)) target_values s)"

definition evaluate_rules ::
  "('re, 'rs) regex_lib \<Rightarrow> 'rs waf_engine \<Rightarrow> http_request_context \<Rightarrow> anomaly_scorer \<Rightarrow> anomaly_scorer" where
  "evaluate_rules lib e ctx s = fold (evaluate_group lib ctx) (we_rule_groups e) s"

definition render_verdict :: "'rs waf_engine \<Rightarrow> anomaly_scorer \<Rightarrow> waf_verdict" where
  "render_verdict e s =
     (if is_anomalous s
      then \<lparr>wv_decision = (case we_mode e of
                             Blocking \<Rightarrow> Waf_Block
                           | DetectionOnly \<Rightarrow> Waf_Log
                           | Disabled \<Rightarrow> Waf_Allow),
            wv_matched_rules = as_matched_rule_ids s, wv_anomaly_score = as_current_score s\<rparr>
      else \<lparr>wv_decision = Waf_Allow, wv_matched_rules = as_matched_rule_ids s,
            wv_anomaly_score = as_current_score s\<rparr>)"

definition allow_verdict :: waf_verdict where
  "allow_verdict = \<lparr>wv_decision = Waf_Allow, wv_matched_rules = [], wv_anomaly_score = 0\<rparr>"

definition inspect ::
  "('re, 'rs) regex_lib \<Rightarrow> 'rs waf_engine \<Rightarrow> http_request_context \<Rightarrow> waf_verdict" where
  "inspect lib e ctx =
     (if we_mode e = Disabled then allow_verdict
      else if list_ex (\<lambda>ip. ip = ip_to_string (rc_remote_addr ctx)) (we_excluded_ips e) then allow_verdict
      else if list_ex (\<lambda>p. starts_with (rc_path ctx) p) (we_excluded_paths e) then allow_verdict
      else
        let scorer = anomaly_scorer_new (we_anomaly_threshold e)
        in case check_limits e ctx scorer of
             (Some verdict, _) \<Rightarrow> verdict
           | (None, scorer) \<Rightarrow> render_verdict e (evaluate_rules lib e ctx scorer))"

section \<open>The matches of a request\<close>

text \<open>What the limit phase and the rule phase add, as lists of identifiers and scores.\<close>

definition limit_hits :: "'rs waf_engine \<Rightarrow> http_request_context \<Rightarrow> (str \<times> u32) list" where
  "limit_hits e ctx =
     (let lim = we_limits e in
      (if 0 < rl_max_body_size lim \<and> rl_max_body_size lim < body_size ctx
       then [(''LIMIT:body_size'', 5)] else []) @
      (if rl_max_header_count lim < header_count ctx then [(''LIMIT:header_count'', 5)] else []) @
      (if rl_max_uri_length lim < length (rc_uri ctx) then [(''LIMIT:uri_length'', 5)] else []) @
      map (\<lambda>(name, _). (''LIMIT:header_value_len:'' @ name, 5))
        (filter (\<lambda>(_, value). rl_max_header_value_len lim < length value) (rc_headers ctx)))"

definition value_hits ::
  "('re, 'rs) regex_lib \<Rightarrow> 'rs compiled_rule_group \<Rightarrow> transformation list \<Rightarrow> str \<Rightarrow> (str \<times> u32) list" where
  "value_hits lib g ts value =
     map (\<lambda>idx. (rule_id_string (crg_rules g ! idx), wr_score (crg_rules g ! idx)))
       (filter (\<lambda>idx. idx < length (crg_rules g))
          (group_matches lib g (apply_transformations value ts)))"

definition group_hits ::
  "('re, 'rs) regex_lib \<Rightarrow> http_request_context \<Rightarrow> 'rs compiled_rule_group \<Rightarrow> (str \<times> u32) list" where
  "group_hits lib ctx g =
     (case crg_rules g of
        [] \<Rightarrow> []
      | r # _ \<Rightarrow> concat (map (value_hits lib g (wr_transformations r))
                    (concat (map (extract_targets ctx) (crg_targets g)))))"

definition rule_hits ::
  "('re, 'rs) regex_lib \<Rightarrow> 'rs waf_engine \<Rightarrow> http_request_context \<Rightarrow> (str \<times> u32) list" where
  "rule_hits lib e ctx = concat (map (group_hits lib ctx) (we_rule_groups e))"

definition excluded :: "'rs waf_engine \<Rightarrow> http_request_context \<Rightarrow> bool" where
  "excluded e ctx \<longleftrightarrow>
     list_ex (\<lambda>ip. ip = ip_to_string (rc_remote_addr ctx)) (we_excluded_ips e) \<or>
     list_ex (\<lambda>p. starts_with (rc_path ctx) p) (we_excluded_paths e)"

lemma fold_add_matches:
  assumes "\<And>x s. f x s = add_matches (h x) s"
  shows "fold f xs s = add_matches (concat (map h xs)) s"
  by (induction xs arbitrary: s) (simp_all add: assms)

lemma header_value_fold:
  "fold (\<lambda>(name, value) s. if n < length value then add_match (f name) 5 s else s) hs s =
   add_matches (map (\<lambda>(name, _). (f name, 5)) (filter (\<lambda>(_, value). n < length value) hs)) s"
  by (induction hs arbitrary: s) auto

lemma check_limits_scorer: "snd (check_limits e ctx s) = add_matches (limit_hits e ctx) s"
  by (simp add: check_limits_def limit_hits_def header_value_fold Let_def)

lemma check_limits_verdict:
  "fst (check_limits e ctx s) =
     (if is_anomalous (add_matches (limit_hits e ctx) s) \<and> we_mode e = Blocking
      then Some \<lparr>wv_decision = Waf_Block,
                 wv_matched_rules = as_matched_rule_ids (add_matches (limit_hits e ctx) s),
                 wv_anomaly_score = as_current_score (add_matches (limit_hits e ctx) s)\<rparr>
      else None)"
  unfolding check_limits_scorer [symmetric] by (simp add: check_limits_def Let_def)

lemma evaluate_value_hits: "evaluate_value lib g ts v s = add_matches (value_hits lib g ts v) s"
proof -
  have "fold (\<lambda>idx s. if idx < length rs then let r = rs ! idx in add_match (f r) (g r) s else s) ns s =
    add_matches (map (\<lambda>idx. (f (rs ! idx), g (rs ! idx))) (filter (\<lambda>idx. idx < length rs) ns)) s"
    for rs :: "waf_rule list" and f g ns s
    by (induction ns arbitrary: s) (simp_all add: Let_def)
  then show ?thesis by (simp add: evaluate_value_def value_hits_def)
qed

lemma evaluate_group_hits: "evaluate_group lib ctx g s = add_matches (group_hits lib ctx g) s"
  by (simp add: evaluate_group_def group_hits_def Let_def
      fold_add_matches [where h = "value_hits lib g ts" for ts, OF evaluate_value_hits] split: list.split)

lemma evaluate_rules_hits: "evaluate_rules lib e ctx s = add_matches (rule_hits lib e ctx) s"
  by (simp add: evaluate_rules_def rule_hits_def fold_add_matches [OF evaluate_group_hits])

text \<open>The verdict of a request that is inspected.\<close>

lemma inspect_inspected:
  assumes "we_mode e \<noteq> Disabled" "\<not> excluded e ctx"
  shows "wv_decision (inspect lib e ctx) =
    (if unat (we_anomaly_threshold e) \<le> scores_of (limit_hits e ctx @ rule_hits lib e ctx)
     then (if we_mode e = Blocking then Waf_Block else Waf_Log) else Waf_Allow)"
proof -
  let ?s = "anomaly_scorer_new (we_anomaly_threshold e)"
  obtain v s where cl: "check_limits e ctx ?s = (v, s)" by fastforce
  have s: "s = add_matches (limit_hits e ctx) ?s" using check_limits_scorer [of e ctx ?s] cl by simp
  have anom: "is_anomalous (add_matches (rule_hits lib e ctx) s) \<longleftrightarrow>
      unat (we_anomaly_threshold e) \<le> scores_of (limit_hits e ctx @ rule_hits lib e ctx)"
    unfolding s using is_anomalous_add_matches [of "limit_hits e ctx @ rule_hits lib e ctx"]
    by simp
  have insp: "inspect lib e ctx =
      (case v of Some verdict \<Rightarrow> verdict | None \<Rightarrow> render_verdict e (evaluate_rules lib e ctx s))"
    using assms(1,2) by (simp add: inspect_def excluded_def cl Let_def split: option.split)
  show ?thesis
  proof (cases v)
    case None
    with assms(1) show ?thesis
      by (cases "we_mode e") (simp_all add: insp render_verdict_def evaluate_rules_hits anom)
  next
    case (Some verdict)
    with cl check_limits_verdict [of e ctx ?s]
    have b: "unat (we_anomaly_threshold e) \<le> scores_of (limit_hits e ctx)" "we_mode e = Blocking"
        "wv_decision verdict = Waf_Block"
      by (auto simp: is_anomalous_add_matches split: if_splits)
    then show ?thesis by (simp add: insp Some)
  qed
qed

lemma inspect_bypassed:
  "we_mode e = Disabled \<or> excluded e ctx \<Longrightarrow> inspect lib e ctx = allow_verdict"
  by (auto simp: inspect_def excluded_def)

text \<open>C1. The verdict is a threshold on the total score: a disabled engine or an exclusion allows the
  request unseen; otherwise the request is anomalous exactly when the scores of all exceeded limits
  and all rule matches, added without overflow, reach the threshold, and an anomalous request is
  blocked in blocking mode and logged in detection mode.  The early exit after the limits and the
  saturation of the counter never change the decision.\<close>

theorem inspect_decision:
  "wv_decision (inspect lib e ctx) =
     (if we_mode e = Disabled \<or> excluded e ctx then Waf_Allow
      else if unat (we_anomaly_threshold e) \<le> scores_of (limit_hits e ctx @ rule_hits lib e ctx)
      then (if we_mode e = Blocking then Waf_Block else Waf_Log)
      else Waf_Allow)"
  using inspect_inspected [of e ctx lib] inspect_bypassed [of e ctx lib]
  by (auto simp: allow_verdict_def)

section \<open>What the built-in rules look at\<close>

lemma builtin_hd:
  "all_builtin_rules \<noteq> []"
  "wr_targets (hd all_builtin_rules) = [QueryString, RequestBody, RequestUri, Cookies]"
  "wr_paranoia_level (hd all_builtin_rules) = 1"
  by (simp_all add: all_builtin_rules_def sql_injection_rules_def waf_rule_regex_def Let_def)

lemma builtin_paranoia_pos: "list_all (\<lambda>r. 1 \<le> wr_paranoia_level r) all_builtin_rules"
  by (simp add: all_builtin_rules_def sql_injection_rules_def xss_rules_def path_traversal_rules_def
      command_injection_rules_def protocol_attack_rules_def waf_rule_regex_def Let_def word_le_nat_alt)

lemma with_config_groups:
  assumes "g \<in> set (we_rule_groups (waf_engine_with_config lib mode th pl limits))"
  shows "crg_targets g = [QueryString, RequestBody, RequestUri, Cookies]"
proof -
  let ?active = "filter (\<lambda>r. wr_paranoia_level r \<le> pl) all_builtin_rules"
  from assms have g: "compile_rule_group lib ?active = Some g"
    by (auto simp: waf_engine_with_config_def Let_def split: option.splits)
  obtain r rs where rr: "all_builtin_rules = r # rs" using builtin_hd(1) by (cases all_builtin_rules) auto
  have "hd ?active = hd all_builtin_rules"
  proof (cases "1 \<le> pl")
    case True
    then show ?thesis using builtin_hd(3) by (simp add: rr)
  next
    case False
    then have "?active = []"
      using builtin_paranoia_pos by (auto simp: filter_empty_conv list_all_iff)
    with g show ?thesis by (simp add: compile_rule_group_def)
  qed
  with compile_rule_group_targets [OF g] builtin_hd(2) show ?thesis by simp
qed

lemma group_hits_cong:
  assumes "\<And>t. t \<in> set (crg_targets g) \<Longrightarrow> extract_targets ctx t = extract_targets ctx' t"
  shows "group_hits lib ctx g = group_hits lib ctx' g"
proof -
  have "map (extract_targets ctx) (crg_targets g) = map (extract_targets ctx') (crg_targets g)"
    using assms by simp
  then show ?thesis by (simp only: group_hits_def)
qed

text \<open>The built-in rules never read a header, the user agent or the path.  All of them are compiled
  into one group, which inspects the targets of its first rule; two requests with the same target,
  query string, body and cookies that exceed the same limits get the same verdict, whatever their
  headers carry and whatever rules on headers are active.\<close>

theorem builtin_rules_ignore_headers:
  assumes "rc_uri ctx = rc_uri ctx'" "rc_query_string ctx = rc_query_string ctx'"
    and "rc_body ctx = rc_body ctx'" "rc_cookies ctx = rc_cookies ctx'"
    and "limit_hits (waf_engine_with_config lib mode th pl limits) ctx =
         limit_hits (waf_engine_with_config lib mode th pl limits) ctx'"
  shows "inspect lib (waf_engine_with_config lib mode th pl limits) ctx =
         inspect lib (waf_engine_with_config lib mode th pl limits) ctx'"
proof -
  let ?e = "waf_engine_with_config lib mode th pl limits"
  have "group_hits lib ctx g = group_hits lib ctx' g" if "g \<in> set (we_rule_groups ?e)" for g
    by (rule group_hits_cong) (auto simp: with_config_groups [OF that] assms)
  then have "map (group_hits lib ctx) (we_rule_groups ?e) = map (group_hits lib ctx') (we_rule_groups ?e)"
    by simp
  then have rh: "rule_hits lib ?e ctx = rule_hits lib ?e ctx'"
    by (simp only: rule_hits_def)
  have cl: "check_limits ?e ctx s = check_limits ?e ctx' s" for s
    by (intro prod_eqI) (simp_all add: check_limits_verdict check_limits_scorer assms(5))
  have ex: "we_excluded_ips ?e = []" "we_excluded_paths ?e = []"
    by (simp_all add: waf_engine_with_config_def Let_def)
  have er: "evaluate_rules lib ?e ctx = evaluate_rules lib ?e ctx'"
    by (rule ext) (simp only: evaluate_rules_hits rh)
  show ?thesis
    unfolding inspect_def ex cl er by simp
qed

definition demo_request :: "header_map \<Rightarrow> http_request_context" where
  "demo_request hs = from_parts ''GET'' ''/index?x=1'' hs [] localhost_v4 None"

theorem builtin_rules_ignore_headers_witness:
  "inspect substring_regex_lib
     (waf_engine_with_config substring_regex_lib Blocking 5 4 request_limits_default)
     (demo_request [(''x'', ''transfer-encoding: chunked, content-length'')]) =
   inspect substring_regex_lib
     (waf_engine_with_config substring_regex_lib Blocking 5 4 request_limits_default)
     (demo_request [(''x'', ''y'')])"
  by (rule builtin_rules_ignore_headers)
     (simp_all add: demo_request_def from_parts_simps limit_hits_def waf_engine_with_config_def
        request_limits_default_def body_size_def header_count_def get_either_def from_parts_def
        find_sub_char Let_def)

section \<open>Escapes that decoding removes\<close>

definition null_byte_rule :: waf_rule where
  "null_byte_rule = path_traversal_rules ! 3"

lemma null_byte_rule_simps:
  "wr_id null_byte_rule = 943130"
  "wr_pattern null_byte_rule = rx ''(?:%00|~~x00|~~0)''"
  "wr_transformations null_byte_rule = [Lowercase, UrlDecode]"
  by (simp_all add: null_byte_rule_def path_traversal_rules_def waf_rule_regex_def Let_def)

lemma lower_char_eq_iff:
  "byte d < 65 \<or> (90 < byte d \<and> byte d < 97) \<or> 122 < byte d \<Longrightarrow> lower_char c = d \<longleftrightarrow> c = d"
  by (auto simp: lower_char_def Let_def byte_def)

lemma to_lower_set:
  "byte d < 65 \<or> (90 < byte d \<and> byte d < 97) \<or> 122 < byte d \<Longrightarrow> d \<in> set (to_lower s) \<longleftrightarrow> d \<in> set s"
  using lower_char_eq_iff [of d] by (induction s) (simp_all, metis)

text \<open>The rule against null-byte injection misses the injection it names.  Its pattern looks for
  the three literal texts \<open>%00\<close>, \<open>\x00\<close> and \<open>\0\<close>, but the rule decodes percent escapes first, so a
  value with \<open>%00\<close> and no other escape or backslash is seen with a null byte and does not match.\<close>

theorem null_byte_rule_misses:
  assumes "matches_literals lib (wr_pattern null_byte_rule) [''%00'', rx ''~x00'', rx ''~0'']"
    and "CHR ''%'' \<notin> set a" "CHR ''%'' \<notin> set b" "CHR 0x5C \<notin> set a" "CHR 0x5C \<notin> set b"
    and "b = [] \<or> \<not> is_cont (hd b)"
  shows "\<not> rule_matches lib null_byte_rule
           (apply_transformations (a @ ''%00'' @ b) (wr_transformations null_byte_rule))"
proof -
  let ?sp = "map (\<lambda>c. if c = CHR ''+'' then CHR '' '' else c)"
  have lows: "CHR ''%'' \<notin> set (to_lower a)" "CHR ''%'' \<notin> set (to_lower b)"
      "CHR 0x5C \<notin> set (to_lower a)" "CHR 0x5C \<notin> set (to_lower b)"
    using assms(2-5) by (simp_all add: to_lower_set byte_def)
  have hd: "to_lower b = [] \<or> \<not> is_cont (hd (to_lower b))"
    using assms(6) by (cases b) (auto simp: lower_char_def is_cont_def byte_def Let_def)
  have "hex_char 0 = CHR ''0''" by code_simp
  then have "url_decode (''%00'' @ to_lower b) = [CHR 0x00] @ url_decode (to_lower b)"
    using url_decode_escape [of 0 "to_lower b"] hd by (simp add: byte_as_char_def char_of_def)
  moreover have "to_lower ''%00'' = ''%00''" by (simp add: lower_char_def)
  ultimately have v: "apply_transformations (a @ ''%00'' @ b) [Lowercase, UrlDecode] =
      ?sp (to_lower a) @ [CHR 0x00] @ ?sp (to_lower b)"
    using lows by (simp add: apply_transformations_def url_decode_append url_decode_plain)
  let ?v = "?sp (to_lower a) @ [CHR 0x00] @ ?sp (to_lower b)"
  have "CHR ''%'' \<notin> set ?v" "CHR 0x5C \<notin> set ?v" using lows by auto
  moreover have "l \<in> {''%00'', rx ''~x00'', rx ''~0''} \<Longrightarrow> CHR ''%'' \<in> set l \<or> CHR 0x5C \<in> set l" for l
    by (auto simp: rx_def)
  ultimately have "\<not> list_ex (\<lambda>l. sublist l ?v) [''%00'', rx ''~x00'', rx ''~0'']"
    by (auto dest!: set_mono_sublist simp: rx_def)
  with assms(1) show ?thesis
    unfolding null_byte_rule_simps(3) v
    by (auto simp: rule_matches_def matches_literals_def split: option.split)
qed

theorem null_byte_rule_misses_witness:
  "\<not> rule_matches
       (alternation_regex_lib [(wr_pattern null_byte_rule, [''%00'', rx ''~x00'', rx ''~0''])])
       null_byte_rule
       (apply_transformations (''/a.php'' @ ''%00'' @ ''.png'') (wr_transformations null_byte_rule))"
  by (rule null_byte_rule_misses [OF alternation_regex_lib_literals])
     (simp_all add: is_cont_def byte_def)

section \<open>Custom rules\<close>

definition first_target :: "waf_rule \<Rightarrow> rule_target option" where
  "first_target r = (case wr_targets r of [] \<Rightarrow> None | t # _ \<Rightarrow> Some t)"

definition target_groups_ok :: "waf_rule list \<Rightarrow> (rule_target option \<times> waf_rule list) list \<Rightarrow> bool" where
  "target_groups_ok rules m \<longleftrightarrow>
     distinct (map fst m) \<and>
     (\<forall>k rs. map_of m k = Some rs \<longrightarrow> rs = filter (\<lambda>r. first_target r = k) rules \<and> rs \<noteq> []) \<and>
     (\<forall>r \<in> set rules. map_of m (first_target r) \<noteq> None)"

lemma target_groups_ok_step:
  assumes "target_groups_ok rules m"
  shows "target_groups_ok (rules @ [r])
    (AList.update (first_target r)
       ((case map_of m (first_target r) of None \<Rightarrow> [] | Some rs \<Rightarrow> rs) @ [r]) m)"
proof -
  have "filter (\<lambda>x. first_target x = first_target r) rules = []" if "map_of m (first_target r) = None"
    using assms that unfolding target_groups_ok_def by (auto simp: filter_empty_conv)
  then show ?thesis
    using assms unfolding target_groups_ok_def
    by (auto simp: distinct_update update_conv split: option.splits)
qed

lemma group_by_target_ok: "target_groups_ok rules (group_by_target rules)"
proof (induction rules rule: rev_induct)
  case Nil
  then show ?case by (simp add: target_groups_ok_def group_by_target_def)
next
  case (snoc r rules)
  from target_groups_ok_step [OF this, of r] show ?case
    by (simp add: group_by_target_def first_target_def Let_def)
qed

lemma custom_rule_group:
  assumes "r \<in> set rules"
  shows "(first_target r, filter (\<lambda>x. first_target x = first_target r) rules) \<in> set (group_by_target rules)"
proof -
  from group_by_target_ok [of rules] assms obtain rs
    where "map_of (group_by_target rules) (first_target r) = Some rs"
      "rs = filter (\<lambda>x. first_target x = first_target r) rules"
    unfolding target_groups_ok_def by fastforce
  then show ?thesis by (metis map_of_SomeD)
qed

lemma convert_custom_rule_Some:
  assumes "convert_custom_rule lib c = Some r"
  shows "\<exists>t. wr_targets r = [t] \<and> parse_target (wcr_match_field c) = Some t"
    "wr_transformations r = [Lowercase]" "wr_score r = 5"
  using assms by (auto simp: convert_custom_rule_def split: option.splits)

lemma convert_all:
  assumes "r \<in> set (rules_from_ruleset_config lib fs cfg)"
  obtains c where "convert_custom_rule lib c = Some r"
  using assms
  by (fastforce simp: rules_from_ruleset_config_def load_from_dir_def load_rules_file_def
      map_filter_def split: option.splits if_splits)

lemma scores_of_ge: "(i, sc) \<in> set ms \<Longrightarrow> unat sc \<le> scores_of ms"
  by (induction ms) auto

lemma custom_group_hits:
  assumes lib: "regex_set_law lib" "compile_rule_group lib rs = Some g"
    and rs: "r \<in> set rs" "rule_matches lib r (to_lower v)"
    and uniform: "\<And>x. x \<in> set rs \<Longrightarrow> wr_targets x = [t] \<and> wr_transformations x = [Lowercase]"
    and v: "v \<in> set (extract_targets ctx t)"
  shows "(rule_id_string r, wr_score r) \<in> set (group_hits lib ctx g)"
proof -
  from compile_rule_group_subset [OF lib(2)] obtain r0 rest
    where g: "crg_rules g = r0 # rest" "r0 \<in> set rs" "hd rs \<in> set rs"
    using rs(1) by (cases "crg_rules g"; cases rs) auto
  have low: "apply_transformations v [Lowercase] = to_lower v" by (simp add: apply_transformations_def)
  have "r \<in> set (filter (\<lambda>r. rule_matches lib r (to_lower v)) rs)" using rs by simp
  then obtain i where i: "i \<in> set (group_matches lib g (to_lower v))" "crg_rules g ! i = r"
    unfolding group_matches_rules [OF lib, of "to_lower v", symmetric] by auto
  with group_matches_bound [OF lib i(1)]
  have "(rule_id_string r, wr_score r) \<in> set (value_hits lib g [Lowercase] v)"
    by (auto simp: value_hits_def low)
  moreover have "crg_targets g = [t]" "wr_transformations r0 = [Lowercase]"
    using compile_rule_group_targets [OF lib(2)] uniform g by simp_all
  ultimately show ?thesis using v g(1) by (auto simp: group_hits_def)
qed

lemma from_ruleset_config_simps:
  "we_mode (waf_engine_from_ruleset_config lib fs cfg) = wrc_mode cfg"
  "we_anomaly_threshold (waf_engine_from_ruleset_config lib fs cfg) = wrc_anomaly_threshold cfg"
  "compile_rule_group lib rs = Some g \<Longrightarrow>
   (k, rs) \<in> set (group_by_target (rules_from_ruleset_config lib fs cfg)) \<Longrightarrow>
   g \<in> set (we_rule_groups (waf_engine_from_ruleset_config lib fs cfg))"
  by (force simp: waf_engine_from_ruleset_config_def waf_engine_with_config_def add_custom_rules_def
      group_by_target_def map_filter_def Let_def)+


definition demo_custom_rule :: waf_custom_rule where
  "demo_custom_rule =
     \<lparr>wcr_id = 7, wcr_description = ''admin'', wcr_phase = 1, wcr_action = ''block'',
      wcr_match_field = ''query'', wcr_operator = ''contains'', wcr_pattern = ''x=1''\<rparr>"

definition demo_ruleset :: waf_ruleset_config where
  "demo_ruleset =
     \<lparr>wrc_name = ''demo'', wrc_mode = Blocking, wrc_anomaly_threshold = 5, wrc_rules_dir = None,
      wrc_paranoia_level = 1, wrc_exclusions = \<lparr>wex_paths = [], wex_ip_addresses = []\<rparr>,
      wrc_custom_rules = [demo_custom_rule]\<rparr>"


text \<open>A custom rule with a containment operator and an upper-case letter in its text never fires:
  values are lower-cased before matching and the escaped pattern is not.\<close>

theorem custom_uppercase_never_matches:
  assumes "regex_escape_law lib" "convert_custom_rule lib c = Some r"
    and "to_lower (wcr_operator c) = ''contains''"
    and "list_ex (\<lambda>d. 65 \<le> byte d \<and> byte d \<le> 90) (wcr_pattern c)"
  shows "\<not> rule_matches lib r (apply_transformations v (wr_transformations r))"
proof -
  from assms(2,3) have p: "wr_pattern r = re_escape lib (wcr_pattern c)"
    by (auto simp: convert_custom_rule_def operator_to_pattern_def split: option.splits)
  have lower: "\<not> (65 \<le> byte (lower_char d) \<and> byte (lower_char d) \<le> 90)" for d
    by (auto simp: lower_char_def byte_def Let_def)
  from assms(4) obtain u where u: "u \<in> set (wcr_pattern c)" "65 \<le> byte u \<and> byte u \<le> 90"
    by (auto simp: list_ex_iff)
  have "u \<notin> set (to_lower v)" using u(2) lower by (auto simp: to_lower_def)
  with u(1) have "\<not> sublist (wcr_pattern c) (to_lower v)" by (auto dest: set_mono_sublist)
  with assms(1) show ?thesis
    by (auto simp: rule_matches_def regex_escape_law_def p convert_custom_rule_Some(2) [OF assms(2)]
        apply_transformations_def split: option.split)
qed

theorem custom_uppercase_never_matches_witness:
  "\<exists>r. convert_custom_rule substring_regex_lib (demo_custom_rule\<lparr>wcr_pattern := ''Admin''\<rparr>) = Some r
     \<and> \<not> rule_matches substring_regex_lib r
           (apply_transformations ''user=Admin'' (wr_transformations r))"
proof -
  let ?c = "demo_custom_rule\<lparr>wcr_pattern := ''Admin''\<rparr>"
  have "to_lower (wcr_operator ?c) = ''contains''" by code_simp
  moreover have "list_ex (\<lambda>d. 65 \<le> byte d \<and> byte d \<le> 90) (wcr_pattern ?c)"
    by (simp add: byte_def)
  moreover have "parse_target (wcr_match_field ?c) = Some QueryString" by code_simp
  then obtain r where "convert_custom_rule substring_regex_lib ?c = Some r"
    by (simp add: convert_custom_rule_def)
  ultimately show ?thesis
    using custom_uppercase_never_matches [OF substring_regex_lib_escape, of ?c] by blast
qed

end
