(* ===== verification/Waf_Rate_Limit.thy ===== *)
theory Waf_Rate_Limit
  imports Net_Addr "HOL-Library.AList"
begin

text \<open>
  The token-bucket rate limiter (\<^verbatim>\<open>serverwall-waf/src/rate_limit/mod.rs\<close>).  Instants are
  seconds on the real line, passed as \<open>now\<close>; the \<^verbatim>\<open>f64\<close> token counts are real numbers.  The
  main result bounds what a key is admitted over any interval.
\<close>

section \<open>Rules and keys\<close>

record rate_limit_rule =
  rlr_max_requests :: u64
  rlr_window_secs :: u64
  rlr_key :: str

datatype rate_limit_key = ClientIp | Header str

definition rate_limit_key_from_str :: "str \<Rightarrow> rate_limit_key" where
  "rate_limit_key_from_str s =
     (if s = ''client_ip'' then ClientIp
      else case strip_prefix s ''header:'' of Some h \<Rightarrow> Header h | None \<Rightarrow> ClientIp)"

section \<open>Token buckets\<close>

record token_bucket =
  tb_tokens :: real
  tb_max_tokens :: real
  tb_refill_rate :: real
  tb_last_refill :: real

definition token_bucket_new :: "real \<Rightarrow> real \<Rightarrow> real \<Rightarrow> token_bucket" where
  "token_bucket_new now max_tokens refill_rate =
     \<lparr>tb_tokens = max_tokens, tb_max_tokens = max_tokens, tb_refill_rate = refill_rate,
      tb_last_refill = now\<rparr>"

text \<open>\<^verbatim>\<open>duration_since\<close> is zero when the earlier instant is later.\<close>

definition elapsed_secs :: "real \<Rightarrow> real \<Rightarrow> real" where
  "elapsed_secs now since = max 0 (now - since)"

definition refill :: "real \<Rightarrow> token_bucket \<Rightarrow> token_bucket" where
  "refill now b =
     (let elapsed = elapsed_secs now (tb_last_refill b) in
      if 0 < elapsed
      then b\<lparr>tb_tokens := min (tb_tokens b + elapsed * tb_refill_rate b) (tb_max_tokens b),
             tb_last_refill := now\<rparr>
      else b)"

definition try_consume :: "real \<Rightarrow> token_bucket \<Rightarrow> bool \<times> token_bucket" where
  "try_consume now b =
     (let b = refill now b in
      if 1 \<le> tb_tokens b then (True, b\<lparr>tb_tokens := tb_tokens b - 1\<rparr>) else (False, b))"

section \<open>The limiter\<close>

record rate_limiter =
  rtl_buckets :: "(str \<times> token_bucket) list"
  rtl_max_requests :: real
  rtl_refill_rate :: real

definition rate_limiter_with_limits :: "u64 \<Rightarrow> u64 \<Rightarrow> rate_limiter" where
  "rate_limiter_with_limits max_requests window_secs =
     (let mx = real (unat max_requests);
          rate = (if 0 < window_secs then mx / real (unat window_secs) else mx)
      in \<lparr>rtl_buckets = [], rtl_max_requests = mx, rtl_refill_rate = rate\<rparr>)"

definition rate_limiter_new :: rate_limiter where
  "rate_limiter_new = rate_limiter_with_limits 100 60"

definition check_key :: "real \<Rightarrow> str \<Rightarrow> rate_limiter \<Rightarrow> bool \<times> rate_limiter" where
  "check_key now key rl =
     (let b = (case map_of (rtl_buckets rl) key of
                 Some b \<Rightarrow> b
               | None \<Rightarrow> token_bucket_new now (rtl_max_requests rl) (rtl_refill_rate rl));
          (ok, b') = try_consume now b
      in (ok, rl\<lparr>rtl_buckets := AList.update key b' (rtl_buckets rl)\<rparr>))"

definition rate_limiter_is_allowed :: "real \<Rightarrow> ip_addr \<Rightarrow> rate_limiter \<Rightarrow> bool \<times> rate_limiter" where
  "rate_limiter_is_allowed now addr rl = check_key now (ip_to_string addr) rl"

definition rate_limiter_cleanup :: "real \<Rightarrow> rate_limiter \<Rightarrow> rate_limiter" where
  "rate_limiter_cleanup now rl =
     rl\<lparr>rtl_buckets :=
          filter (\<lambda>(_, b). nat \<lfloor>elapsed_secs now (tb_last_refill b)\<rfloor> < 300) (rtl_buckets rl)\<rparr>"

section \<open>The bucket invariant\<close>

definition bucket_inv :: "rate_limiter \<Rightarrow> token_bucket \<Rightarrow> bool" where
  "bucket_inv rl b \<longleftrightarrow>
     0 \<le> tb_tokens b \<and> tb_tokens b \<le> tb_max_tokens b \<and>
     tb_max_tokens b = rtl_max_requests rl \<and> tb_refill_rate b = rtl_refill_rate rl"

definition limiter_inv :: "rate_limiter \<Rightarrow> bool" where
  "limiter_inv rl \<longleftrightarrow>
     0 \<le> rtl_max_requests rl \<and> 0 \<le> rtl_refill_rate rl \<and> distinct (map fst (rtl_buckets rl)) \<and>
     list_all (\<lambda>(_, b). bucket_inv rl b) (rtl_buckets rl)"

lemma limiter_inv_bucket:
  "limiter_inv rl \<Longrightarrow> map_of (rtl_buckets rl) key = Some b \<Longrightarrow> bucket_inv rl b"
  unfolding limiter_inv_def list_all_iff by (auto dest: map_of_SomeD)

lemma refill_inv:
  assumes "bucket_inv rl b" "0 \<le> rtl_refill_rate rl"
  shows "bucket_inv rl (refill now b)"
  using assms by (auto simp: bucket_inv_def refill_def elapsed_secs_def Let_def)

lemma try_consume_inv:
  assumes "bucket_inv rl b" "0 \<le> rtl_refill_rate rl"
  shows "bucket_inv rl (snd (try_consume now b))"
  using refill_inv [OF assms, of now] by (auto simp: try_consume_def bucket_inv_def Let_def)

lemma token_bucket_new_inv:
  "limiter_inv rl \<Longrightarrow> bucket_inv rl (token_bucket_new now (rtl_max_requests rl) (rtl_refill_rate rl))"
  by (simp add: limiter_inv_def bucket_inv_def token_bucket_new_def)

lemma set_alist_update: "set (AList.update k v m) \<subseteq> insert (k, v) (set m)"
  by (induction m) auto

lemma check_key_inv [inv_intros]:
  assumes "limiter_inv rl"
  shows "limiter_inv (snd (check_key now key rl))"
proof -
  let ?b = "case map_of (rtl_buckets rl) key of
      Some b \<Rightarrow> b | None \<Rightarrow> token_bucket_new now (rtl_max_requests rl) (rtl_refill_rate rl)"
  have "bucket_inv rl ?b"
    using assms limiter_inv_bucket token_bucket_new_inv by (auto split: option.split)
  then have "bucket_inv rl (snd (try_consume now ?b))"
    using assms by (intro try_consume_inv) (auto simp: limiter_inv_def)
  then show ?thesis
    using assms set_alist_update [of key "snd (try_consume now ?b)" "rtl_buckets rl"]
    by (fastforce simp: limiter_inv_def check_key_def Let_def list_all_iff bucket_inv_def
        distinct_update split: prod.split)
qed

lemma cleanup_inv [inv_intros]: "limiter_inv rl \<Longrightarrow> limiter_inv (rate_limiter_cleanup now rl)"
  by (auto simp: limiter_inv_def rate_limiter_cleanup_def list_all_iff bucket_inv_def distinct_map_filter)

lemma with_limits_inv [inv_intros]: "limiter_inv (rate_limiter_with_limits m w)"
  by (simp add: limiter_inv_def rate_limiter_with_limits_def Let_def del: of_nat_unat)

section \<open>How much a key is admitted\<close>

text \<open>The requests of one key that a run of checks admits.\<close>

fun admitted :: "str \<Rightarrow> rate_limiter \<Rightarrow> (real \<times> str) list \<Rightarrow> nat" where
  "admitted key rl [] = 0"
| "admitted key rl ((t, k) # reqs) =
     (if k = key \<and> fst (check_key t k rl) then 1 else 0) + admitted key (snd (check_key t k rl)) reqs"

lemma check_key_other:
  "k \<noteq> key \<Longrightarrow> map_of (rtl_buckets (snd (check_key t k rl))) key = map_of (rtl_buckets rl) key"
  by (simp add: check_key_def Let_def update_conv split: prod.split)

lemma check_key_params:
  "rtl_max_requests (snd (check_key t k rl)) = rtl_max_requests rl"
  "rtl_refill_rate (snd (check_key t k rl)) = rtl_refill_rate rl"
  by (simp_all add: check_key_def Let_def split: prod.split)

lemma check_key_own:
  assumes "map_of (rtl_buckets rl) key = Some b"
  shows "fst (check_key t key rl) = fst (try_consume t b)"
    "map_of (rtl_buckets (snd (check_key t key rl))) key = Some (snd (try_consume t b))"
  using assms by (simp_all add: check_key_def Let_def update_conv split: prod.split)

lemma check_key_fresh:
  assumes "map_of (rtl_buckets rl) key = None"
  shows "fst (check_key t key rl) =
      fst (try_consume t (token_bucket_new t (rtl_max_requests rl) (rtl_refill_rate rl)))"
    "map_of (rtl_buckets (snd (check_key t key rl))) key =
      Some (snd (try_consume t (token_bucket_new t (rtl_max_requests rl) (rtl_refill_rate rl))))"
  using assms by (simp_all add: check_key_def Let_def update_conv split: prod.split)

text \<open>One check spends what it admits: tokens after, plus one if admitted, are at most the tokens before
  plus the refill.\<close>

lemma try_consume_budget:
  assumes "bucket_inv rl b" "tb_last_refill b \<le> t"
  shows "tb_tokens (snd (try_consume t b)) + (if fst (try_consume t b) then 1 else 0) \<le>
         tb_tokens b + (t - tb_last_refill b) * tb_refill_rate b"
    "tb_last_refill (snd (try_consume t b)) = t"
  using assms by (auto simp: try_consume_def refill_def elapsed_secs_def Let_def bucket_inv_def)

lemma admitted_bucket_bound:
  assumes "limiter_inv rl" "map_of (rtl_buckets rl) key = Some b"
    and "sorted (map fst reqs)" "\<forall>t \<in> set (map fst reqs). tb_last_refill b \<le> t \<and> t \<le> T"
    and "tb_last_refill b \<le> T"
  shows "real (admitted key rl reqs) \<le> tb_tokens b + (T - tb_last_refill b) * rtl_refill_rate rl"
  using assms
proof (induction reqs arbitrary: rl b)
  case Nil
  from limiter_inv_bucket [OF Nil.prems(1,2)] have "0 \<le> tb_tokens b"
    by (simp add: bucket_inv_def)
  moreover have "0 \<le> (T - tb_last_refill b) * rtl_refill_rate rl"
    using Nil.prems(1,5) by (intro mult_nonneg_nonneg) (simp_all add: limiter_inv_def)
  ultimately show ?case by simp
next
  case (Cons r reqs)
  obtain t k where r: "r = (t, k)" by fastforce
  let ?rl = "snd (check_key t k rl)"
  have inv: "limiter_inv ?rl" using Cons.prems(1) by (rule check_key_inv)
  show ?case
  proof (cases "k = key")
    case False
    then have own: "map_of (rtl_buckets ?rl) key = Some b"
      using Cons.prems(2) by (simp add: check_key_other)
    have "\<forall>u \<in> set (map fst reqs). tb_last_refill b \<le> u \<and> u \<le> T" "sorted (map fst reqs)"
      using Cons.prems(3,4) r by simp_all
    from Cons.IH [OF inv own this(2,1) Cons.prems(5)] False r show ?thesis
      by (simp add: check_key_params)
  next
    case True
    let ?b = "snd (try_consume t b)"
    have b: "bucket_inv rl b" using Cons.prems(1,2) by (rule limiter_inv_bucket)
    have le: "tb_last_refill b \<le> t" "t \<le> T" using Cons.prems(4) r by simp_all
    note own = check_key_own [OF Cons.prems(2), of t]
    note last = try_consume_budget(2) [OF b le(1)]
    have times: "\<forall>u \<in> set (map fst reqs). t \<le> u \<and> u \<le> T" "sorted (map fst reqs)"
      using Cons.prems(3,4) r by simp_all
    have "real (admitted key ?rl reqs) \<le> tb_tokens ?b + (T - t) * rtl_refill_rate rl"
      using Cons.IH [of ?rl ?b] inv own(2) True times le(2)
      by (simp only: last check_key_params order_refl simp_thms)
    moreover have "tb_tokens ?b + (if fst (check_key t k rl) then 1 else 0) \<le>
        tb_tokens b + (t - tb_last_refill b) * rtl_refill_rate rl"
      using try_consume_budget(1) [OF b le(1)] own(1) True b by (simp add: bucket_inv_def)
    moreover have "(t - tb_last_refill b) * rtl_refill_rate rl + (T - t) * rtl_refill_rate rl =
        (T - tb_last_refill b) * rtl_refill_rate rl"
      by (simp add: left_diff_distrib)
    moreover have "real (admitted key rl (r # reqs)) =
        (if fst (check_key t k rl) then 1 else 0) + real (admitted key ?rl reqs)"
      using r True by simp
    ultimately show ?thesis by linarith
  qed
qed

lemma admitted_fresh_bound:
  assumes "limiter_inv rl" "map_of (rtl_buckets rl) key = None"
    and "sorted (map fst reqs)" "\<forall>t \<in> set (map fst reqs). t0 \<le> t \<and> t \<le> T" "t0 \<le> T"
  shows "real (admitted key rl reqs) \<le> rtl_max_requests rl + (T - t0) * rtl_refill_rate rl"
  using assms
proof (induction reqs arbitrary: rl)
  case Nil
  then show ?case by (simp add: limiter_inv_def)
next
  case (Cons r reqs)
  obtain t k where r: "r = (t, k)" by fastforce
  let ?rl = "snd (check_key t k rl)"
  have inv: "limiter_inv ?rl" using Cons.prems(1) by (rule check_key_inv)
  show ?case
  proof (cases "k = key")
    case False
    then have own: "map_of (rtl_buckets ?rl) key = None"
      using Cons.prems(2) by (simp add: check_key_other)
    have "\<forall>u \<in> set (map fst reqs). t0 \<le> u \<and> u \<le> T" "sorted (map fst reqs)"
      using Cons.prems(3,4) r by simp_all
    from Cons.IH [OF inv own this(2,1) Cons.prems(5)] False r show ?thesis
      by (simp add: check_key_params)
  next
    case True
    let ?n = "token_bucket_new t (rtl_max_requests rl) (rtl_refill_rate rl)"
    let ?b = "snd (try_consume t ?n)"
    have n: "bucket_inv rl ?n" "tb_last_refill ?n = t" "tb_tokens ?n = rtl_max_requests rl"
      using token_bucket_new_inv [OF Cons.prems(1)] by (simp_all add: token_bucket_new_def)
    have le: "t0 \<le> t" "t \<le> T" using Cons.prems(4) r by simp_all
    note own = check_key_fresh [OF Cons.prems(2), of t]
    have at: "tb_last_refill ?n \<le> t" by (simp add: n(2))
    note budget = try_consume_budget(1) [OF n(1) at] and last = try_consume_budget(2) [OF n(1) at]
    have times: "\<forall>u \<in> set (map fst reqs). t \<le> u \<and> u \<le> T" "sorted (map fst reqs)"
      using Cons.prems(3,4) r by simp_all
    have "real (admitted key ?rl reqs) \<le> tb_tokens ?b + (T - t) * rtl_refill_rate rl"
      using admitted_bucket_bound [of ?rl key ?b reqs T] inv own(2) True times le(2)
      by (simp only: last check_key_params order_refl simp_thms)
    moreover have "(T - t) * rtl_refill_rate rl \<le> (T - t0) * rtl_refill_rate rl"
      using le Cons.prems(1) by (intro mult_right_mono) (auto simp: limiter_inv_def)
    moreover have "tb_tokens ?b + (if fst (check_key t k rl) then 1 else 0) \<le> rtl_max_requests rl"
      using budget own(1) True n(2,3) by simp
    moreover have "real (admitted key rl (r # reqs)) =
        (if fst (check_key t k rl) then 1 else 0) + real (admitted key ?rl reqs)"
      using r True by simp
    ultimately show ?thesis by linarith
  qed
qed



text \<open>Dropping a bucket after five idle minutes is harmless when the window is at most five
  minutes: the bucket would have been full again, so the next check of its key gives the same
  answer and leaves the same number of tokens.\<close>

theorem cleanup_harmless:
  assumes "limiter_inv rl" "map_of (rtl_buckets rl) key = Some b"
    and "300 \<le> now - tb_last_refill b" "now \<le> t"
    and "rtl_max_requests rl \<le> 300 * rtl_refill_rate rl"
  shows "fst (check_key t key (rate_limiter_cleanup now rl)) = fst (check_key t key rl) \<and>
    map_option tb_tokens (map_of (rtl_buckets (snd (check_key t key (rate_limiter_cleanup now rl)))) key) =
    map_option tb_tokens (map_of (rtl_buckets (snd (check_key t key rl))) key)"
proof -
  have b: "bucket_inv rl b" using assms(1,2) by (rule limiter_inv_bucket)
  have dist: "distinct (map fst (rtl_buckets rl))" using assms(1) by (simp add: limiter_inv_def)
  have idle: "\<not> nat \<lfloor>elapsed_secs now (tb_last_refill b)\<rfloor> < 300"
    using assms(3) by (simp add: elapsed_secs_def le_nat_iff le_floor_iff not_less)
  have "map_of (rtl_buckets (rate_limiter_cleanup now rl)) key = None"
  proof (rule ccontr)
    assume "map_of (rtl_buckets (rate_limiter_cleanup now rl)) key \<noteq> None"
    then obtain c where "(key, c) \<in> set (rtl_buckets rl)"
        "nat \<lfloor>elapsed_secs now (tb_last_refill c)\<rfloor> < 300"
      by (auto simp: rate_limiter_cleanup_def dest!: map_of_SomeD)
    with idle assms(2) dist show False by (metis map_of_is_SomeI option.inject)
  qed
  note fresh = check_key_fresh [OF this, of t] and own = check_key_own [OF assms(2), of t]
  have "300 * rtl_refill_rate rl \<le> (t - tb_last_refill b) * rtl_refill_rate rl"
    using assms(1,3,4) by (intro mult_right_mono) (auto simp: limiter_inv_def)
  with assms(5) b have "tb_max_tokens b \<le> tb_tokens b + (t - tb_last_refill b) * tb_refill_rate b"
    by (simp add: bucket_inv_def)
  then have "tb_tokens (refill t b) = rtl_max_requests rl"
    using assms(3,4) b by (simp add: refill_def elapsed_secs_def Let_def bucket_inv_def)
  moreover have "tb_tokens (refill t (token_bucket_new t m r)) = m" for m r
    by (simp add: refill_def elapsed_secs_def token_bucket_new_def)
  moreover have "rtl_max_requests (rate_limiter_cleanup now rl) = rtl_max_requests rl"
    by (simp add: rate_limiter_cleanup_def)
  ultimately show ?thesis
    by (simp add: fresh own try_consume_def Let_def)
qed

theorem cleanup_harmless_witness:
  "fst (check_key 400 ''k'' (rate_limiter_cleanup 300 (snd (check_key 0 ''k'' (rate_limiter_with_limits 1 60))))) =
   fst (check_key 400 ''k'' (snd (check_key 0 ''k'' (rate_limiter_with_limits 1 60))))"
proof -
  let ?rl = "snd (check_key 0 ''k'' (rate_limiter_with_limits 1 60))"
  let ?b = "\<lparr>tb_tokens = 0, tb_max_tokens = 1, tb_refill_rate = 1 / 60, tb_last_refill = 0\<rparr>"
  have "limiter_inv ?rl" by (intro inv_intros)
  moreover have "map_of (rtl_buckets ?rl) ''k'' = Some ?b"
    by (simp add: rate_limiter_with_limits_def check_key_def try_consume_def refill_def
        elapsed_secs_def token_bucket_new_def)
  moreover have "rtl_max_requests ?rl \<le> 300 * rtl_refill_rate ?rl"
    by (simp add: check_key_params rate_limiter_with_limits_def Let_def)
  ultimately show ?thesis
    using cleanup_harmless [of ?rl "''k''" ?b 300 400] by simp
qed

text \<open>With a window of more than five minutes the cleanup forgives: a client that has used up one
  request per hour is refused after five minutes, but admitted if the cleanup has run.\<close>

theorem cleanup_forgives:
  "\<not> fst (check_key 300 ''k'' (snd (check_key 0 ''k'' (rate_limiter_with_limits 1 3600)))) \<and>
   fst (check_key 300 ''k'' (rate_limiter_cleanup 300 (snd (check_key 0 ''k'' (rate_limiter_with_limits 1 3600)))))"
  by (simp add: rate_limiter_with_limits_def check_key_def try_consume_def refill_def
      elapsed_secs_def token_bucket_new_def rate_limiter_cleanup_def)

end
