(* ===== verification/Protocols.thy ===== *)
theory Protocols
  imports Waf_Request
begin

text \<open>
  The protocol helpers of \<^verbatim>\<open>serverwall-core/src/proto\<close>: SMTP commands and responses, HTTP
  proxy headers, IMAP commands and Stratum messages; and the line discipline of the relay's SMTP
  client and server (\<^verbatim>\<open>read_line\<close>, dot-stuffing in \<^verbatim>\<open>delivery/sender.rs\<close>, its inverse
  in \<^verbatim>\<open>receiver.rs\<close>), which are proved to agree.
\<close>

section \<open>SMTP commands\<close>

datatype smtp_command =
    Ehlo str | Helo str | MailFrom str | RcptTo str | Data | Quit | Rset | Noop | StartTls
  | Auth str | Xclient str | Unknown str

definition parse_command :: "str \<Rightarrow> smtp_command" where
  "parse_command line =
     (let trimmed = trim line; upper = to_upper trimmed in
      case strip_prefix upper ''EHLO '' of
        Some domain \<Rightarrow> Ehlo (trim domain)
      | None \<Rightarrow> (case strip_prefix upper ''HELO '' of
        Some domain \<Rightarrow> Helo (trim domain)
      | None \<Rightarrow>
          if starts_with upper ''MAIL FROM:'' then MailFrom (trim (drop (length ''MAIL FROM:'') trimmed))
          else if starts_with upper ''RCPT TO:'' then RcptTo (trim (drop (length ''RCPT TO:'') trimmed))
          else if upper = ''DATA'' then Data
          else if upper = ''QUIT'' then Quit
          else if upper = ''RSET'' then Rset
          else if upper = ''NOOP'' then Noop
          else if upper = ''STARTTLS'' then StartTls
          else (case strip_prefix upper ''AUTH '' of
            Some rest \<Rightarrow> Auth (trim rest)
          | None \<Rightarrow> (case strip_prefix upper ''XCLIENT '' of
            Some rest \<Rightarrow> Xclient (trim rest)
          | None \<Rightarrow> Unknown trimmed))))"

record smtp_response =
  sr_code :: u16
  sr_enhanced_code :: "str option"
  sr_message :: str

definition smtp_response_new :: "u16 \<Rightarrow> str \<Rightarrow> smtp_response" where
  "smtp_response_new code message =
     \<lparr>sr_code = code, sr_enhanced_code = None, sr_message = message\<rparr>"

definition smtp_response_to_bytes :: "smtp_response \<Rightarrow> str" where
  "smtp_response_to_bytes r = show_nat (unat (sr_code r)) @ '' '' @ sr_message r @ CRLF"

text \<open>The bare address of a parameter such as \<open><user@domain>\<close>.\<close>

definition extract_address :: "str \<Rightarrow> str" where
  "extract_address raw =
     (let s = trim raw in
      if starts_with s ''<'' \<and> ends_with s ''>'' then take (length s - 1 - 1) (drop 1 s) else s)"

section \<open>Lines and dot-stuffing\<close>

text \<open>\<^verbatim>\<open>read_line\<close>: the bytes up to and including the first line feed, or all of them.\<close>

fun read_line :: "str \<Rightarrow> str \<times> str" where
  "read_line [] = ([], [])"
| "read_line (c # s) = (if c = LF then ([c], s) else (case read_line s of (l, r) \<Rightarrow> (c # l, r)))"

lemma read_line_append: "fst (read_line s) @ snd (read_line s) = s"
  by (induction s) (auto split: prod.splits)

lemma read_line_shrinks: "s \<noteq> [] \<Longrightarrow> length (snd (read_line s)) < length s"
  by (induction s) (fastforce split: prod.splits)+

text \<open>The client: a command line, and the body of \<^verbatim>\<open>smtp_conversation\<close> after the DATA reply.\<close>

definition write_cmd :: "str \<Rightarrow> str" where
  "write_cmd cmd = cmd @ CRLF"

definition stuff_line :: "str \<Rightarrow> str" where
  "stuff_line l =
     (let line = (if ends_with l [CR] then take (length l - 1) l else l)
      in (if starts_with line ''.'' then ''.'' else []) @ line @ CRLF)"

definition smtp_body :: "str \<Rightarrow> str" where
  "smtp_body message = concat (map stuff_line (split_char LF message)) @ ''.'' @ CRLF"

text \<open>The server: \<^verbatim>\<open>trim_end_matches\<close> of a pair and of a byte, and the loop that collects the
  message.  \<open>DataClosed\<close> is a connection closed before the final dot; \<open>DataInvalid\<close> is the I/O
  error of \<^verbatim>\<open>read_line\<close> on a line that is not UTF-8.\<close>

function trim_end_crlf :: "str \<Rightarrow> str" where
  "trim_end_crlf s = (if suffix CRLF s then trim_end_crlf (take (length s - 2) s) else s)"
  by pat_completeness auto
termination
  by (relation "measure length") (auto simp: CRLF_def suffix_def)

declare trim_end_crlf.simps [simp del]

datatype data_result = DataDone (data_message: str) (data_rest: str) | DataClosed | DataInvalid

function read_data :: "str \<Rightarrow> str \<Rightarrow> data_result" where
  "read_data acc input =
     (if input = [] then DataClosed
      else let data_line = fst (read_line input); rest = snd (read_line input) in
        if \<not> utf8_valid data_line then DataInvalid
        else if trim_end_char LF (trim_end_crlf data_line) = ''.'' then DataDone acc rest
        else let line_bytes = (if starts_with data_line ''..'' then drop 1 data_line else data_line)
             in read_data (acc @ line_bytes) rest)"
  by pat_completeness auto
termination
  by (relation "measure (length \<circ> snd)") (auto simp: read_line_shrinks)

declare read_data.simps [simp del]

section \<open>HTTP proxy headers\<close>

definition inject_proxy_headers :: "header_map \<Rightarrow> ip_addr \<Rightarrow> str option \<Rightarrow> header_map" where
  "inject_proxy_headers headers client_ip host =
     (let h1 = AList.update ''X-Forwarded-For'' (ip_to_string client_ip) headers;
          h2 = AList.update ''X-Forwarded-Proto'' ''https'' h1
      in case host of Some h \<Rightarrow> AList.update ''X-Forwarded-Host'' h h2 | None \<Rightarrow> h2)"

definition get_host :: "header_map \<Rightarrow> str option" where
  "get_host headers = get_either headers ''Host'' ''host''"

definition hop_headers :: "str list" where
  "hop_headers =
     [''Connection'', ''Keep-Alive'', ''Proxy-Authenticate'', ''Proxy-Authorization'', ''TE'',
      ''Trailers'', ''Transfer-Encoding'', ''Upgrade'']"

definition strip_hop_by_hop :: "header_map \<Rightarrow> header_map" where
  "strip_hop_by_hop headers =
     fold (\<lambda>h hs. AList.delete h (AList.delete (to_lower h) hs)) hop_headers headers"

definition via_header :: "str \<Rightarrow> str \<Rightarrow> str" where
  "via_header protocol_version proxy_name = protocol_version @ '' '' @ proxy_name"

section \<open>IMAP\<close>

record imap_command =
  ic_tag :: str
  ic_command :: str
  ic_args :: str

record imap_response =
  ir_tag :: str
  ir_status :: str
  ir_text :: str

definition imap_response_ok :: "str \<Rightarrow> str \<Rightarrow> imap_response" where
  "imap_response_ok tag txt = \<lparr>ir_tag = tag, ir_status = ''OK'', ir_text = txt\<rparr>"

definition imap_response_untagged :: "str \<Rightarrow> imap_response" where
  "imap_response_untagged txt = \<lparr>ir_tag = ''*'', ir_status = [], ir_text = txt\<rparr>"

definition imap_response_to_bytes :: "imap_response \<Rightarrow> str" where
  "imap_response_to_bytes r =
     (if ir_status r = [] then ir_tag r @ '' '' @ ir_text r @ CRLF
      else ir_tag r @ '' '' @ ir_status r @ '' '' @ ir_text r @ CRLF)"

definition imap_parse_command :: "str \<Rightarrow> imap_command option" where
  "imap_parse_command line =
     (let trimmed = trim line in
      case split_once (CHR '' '') trimmed of
        None \<Rightarrow> None
      | Some (tag, rest) \<Rightarrow>
          (case split_once (CHR '' '') rest of
             None \<Rightarrow> Some \<lparr>ic_tag = tag, ic_command = to_upper rest, ic_args = []\<rparr>
           | Some (cmd, args) \<Rightarrow> Some \<lparr>ic_tag = tag, ic_command = to_upper cmd, ic_args = args\<rparr>))"

definition is_capability_line :: "str \<Rightarrow> bool" where
  "is_capability_line line = starts_with (trim line) ''* CAPABILITY''"

definition build_id_command :: "str \<Rightarrow> str \<Rightarrow> str" where
  "build_id_command tag proxy_name =
     tag @ '' ID ('' @ [CHR 0x22] @ ''name'' @ [CHR 0x22] @ '' '' @ [CHR 0x22] @ proxy_name @ [CHR 0x22] @ '')'' @ CRLF"

section \<open>Stratum\<close>

text \<open>JSON values as \<^verbatim>\<open>serde_json\<close> represents them; the parser is an argument.\<close>

datatype json = JNull | JBool bool | JUnsigned u64 | JNegative int | JFloat real | JString str
  | JArray "json list" | JObject "(str \<times> json) list"

fun json_as_u64 :: "json \<Rightarrow> u64 option" where
  "json_as_u64 (JUnsigned n) = Some n"
| "json_as_u64 _ = None"

fun json_as_str :: "json \<Rightarrow> str option" where
  "json_as_str (JString s) = Some s"
| "json_as_str _ = None"

record stratum_message =
  sm_id :: "json option"
  sm_method :: "str option"
  sm_params :: "json option"
  sm_result :: "json option"
  sm_error :: "json option"

definition stratum_parse_line :: "(str \<Rightarrow> json option) \<Rightarrow> str \<Rightarrow> stratum_message option" where
  "stratum_parse_line from_str line =
     (case from_str (trim line) of
        Some (JObject obj) \<Rightarrow>
          Some \<lparr>sm_id = map_of obj ''id'',
                sm_method = Option.bind (map_of obj ''method'') json_as_str,
                sm_params = map_of obj ''params'', sm_result = map_of obj ''result'',
                sm_error = map_of obj ''error''\<rparr>
      | _ \<Rightarrow> None)"

definition is_success_response :: "stratum_message \<Rightarrow> u64 \<Rightarrow> bool" where
  "is_success_response msg expected_id \<longleftrightarrow>
     Option.bind (sm_id msg) json_as_u64 = Some expected_id \<and>
     (case sm_result msg of Some v \<Rightarrow> v \<noteq> JNull | None \<Rightarrow> False) \<and>
     (case sm_error msg of Some v \<Rightarrow> v = JNull | None \<Rightarrow> True)"

definition extract_worker :: "stratum_message \<Rightarrow> str option" where
  "extract_worker msg =
     (case sm_params msg of
        Some (JArray (p # _)) \<Rightarrow> json_as_str p
      | _ \<Rightarrow> None)"

section \<open>Client and server agree on addresses\<close>

lemma trim_bracketed:
  assumes "\<not> is_ws a" "\<not> is_ws z" "list_all is_ws w"
  shows "trim (a # s @ z # w) = a # s @ [z]"
proof -
  have "dropWhile is_ws (rev w @ z # rev s @ [a]) = z # rev s @ [a]"
    using assms(2,3) by (subst dropWhile_append2) (auto simp: list_all_iff)
  then show ?thesis
    using assms(1) by (simp add: trim_def trim_start_def trim_end_def)
qed

lemma ws_CRLF: "list_all is_ws CRLF"
  by (simp add: CRLF_def CR_def LF_def is_ws_def)

lemma extract_bracketed: "extract_address (''<'' @ a @ ''>'') = a"
proof -
  have "\<not> is_ws (CHR ''<'')" "\<not> is_ws (CHR ''>'')" by (simp_all add: is_ws_def)
  from trim_bracketed [OF this, of "[]" a] show ?thesis
    by (simp add: extract_address_def starts_with_def ends_with_def Let_def suffix_def)
qed

lemma parse_mail_from:
  "parse_command (write_cmd (''MAIL FROM:<'' @ a @ ''>'')) = MailFrom (''<'' @ a @ ''>'')"
proof -
  have ns: "\<not> is_ws (CHR ''M'')" "\<not> is_ws (CHR ''<'')" "\<not> is_ws (CHR ''>'')" by (simp_all add: is_ws_def)
  have t: "trim (write_cmd (''MAIL FROM:<'' @ a @ ''>'')) = ''MAIL FROM:<'' @ a @ ''>''"
    using trim_bracketed [OF ns(1,3) ws_CRLF, of "''AIL FROM:<'' @ a"] by (simp add: write_cmd_def)
  have u: "to_upper (''MAIL FROM:<'' @ a @ ''>'') = ''MAIL FROM:<'' @ to_upper (a @ ''>'')"
    by (simp add: to_upper_def upper_char_def)
  have "trim (''<'' @ a @ ''>'') = ''<'' @ a @ ''>''"
    using trim_bracketed [OF ns(2,3), of "[]" a] by simp
  then show ?thesis
    unfolding parse_command_def t Let_def u by (simp add: strip_prefix_def starts_with_def)
qed

lemma parse_rcpt_to:
  "parse_command (write_cmd (''RCPT TO:<'' @ a @ ''>'')) = RcptTo (''<'' @ a @ ''>'')"
proof -
  have ns: "\<not> is_ws (CHR ''R'')" "\<not> is_ws (CHR ''<'')" "\<not> is_ws (CHR ''>'')" by (simp_all add: is_ws_def)
  have t: "trim (write_cmd (''RCPT TO:<'' @ a @ ''>'')) = ''RCPT TO:<'' @ a @ ''>''"
    using trim_bracketed [OF ns(1,3) ws_CRLF, of "''CPT TO:<'' @ a"] by (simp add: write_cmd_def)
  have u: "to_upper (''RCPT TO:<'' @ a @ ''>'') = ''RCPT TO:<'' @ to_upper (a @ ''>'')"
    by (simp add: to_upper_def upper_char_def)
  have "trim (''<'' @ a @ ''>'') = ''<'' @ a @ ''>''"
    using trim_bracketed [OF ns(2,3), of "[]" a] by simp
  then show ?thesis
    unfolding parse_command_def t Let_def u by (simp add: strip_prefix_def starts_with_def)
qed

text \<open>The relay's client and server agree on envelope addresses: for every address, the MAIL and RCPT
  lines the client writes are parsed by the server as these commands with exactly that address.\<close>

theorem envelope_address_roundtrip:
  "(case parse_command (write_cmd (''MAIL FROM:<'' @ a @ ''>'')) of
      MailFrom p \<Rightarrow> extract_address p = a | _ \<Rightarrow> False) \<and>
   (case parse_command (write_cmd (''RCPT TO:<'' @ a @ ''>'')) of
      RcptTo p \<Rightarrow> extract_address p = a | _ \<Rightarrow> False)"
  by (simp only: parse_mail_from parse_rcpt_to extract_bracketed smtp_command.case)

text \<open>The size parameter that the server itself advertises ends up in the sender: a MAIL line with
  an extension parameter after the address is taken as a whole, so its domain is not the sender's
  domain either.\<close>

theorem mail_parameter_kept:
  "parse_command (''MAIL FROM:<a@b.c> SIZE=100'' @ CRLF) = MailFrom ''<a@b.c> SIZE=100'' \<and>
   extract_address ''<a@b.c> SIZE=100'' = ''<a@b.c> SIZE=100'' \<and>
   rsplit_first (CHR ''@'') (extract_address ''<a@b.c> SIZE=100'') = ''b.c> SIZE=100''"
proof -
  have ns: "\<not> is_ws (CHR ''M'')" "\<not> is_ws (CHR ''0'')" "\<not> is_ws (CHR ''<'')" by (simp_all add: is_ws_def)
  have t: "trim (''MAIL FROM:<a@b.c> SIZE=100'' @ CRLF) = ''MAIL FROM:<a@b.c> SIZE=100''"
    using trim_bracketed [OF ns(1,2) ws_CRLF, of "''AIL FROM:<a@b.c> SIZE=10''"] by simp
  have t2: "trim ''<a@b.c> SIZE=100'' = ''<a@b.c> SIZE=100''"
    using trim_bracketed [OF ns(3,2), of "[]" "''a@b.c> SIZE=10''"] by simp
  have u: "to_upper (''MAIL FROM:'' @ s) = ''MAIL FROM:'' @ to_upper s" for s
    by (simp add: to_upper_def upper_char_def)
  have "parse_command (''MAIL FROM:<a@b.c> SIZE=100'' @ CRLF) = MailFrom ''<a@b.c> SIZE=100''"
    unfolding parse_command_def t Let_def using t2 u [of "''<a@b.c> SIZE=100''"]
    by (simp add: strip_prefix_def starts_with_def)
  moreover have "extract_address ''<a@b.c> SIZE=100'' = ''<a@b.c> SIZE=100''"
    unfolding extract_address_def t2 Let_def by (simp add: ends_with_def suffix_to_prefix)
  ultimately show ?thesis by (simp add: rsplit_first_def)
qed

section \<open>Client and server agree on the message\<close>

text \<open>The message as lines with CRLF ends.\<close>

definition crlf_lines :: "str \<Rightarrow> str" where
  "crlf_lines m = concat (map (\<lambda>l. strip_cr l @ CRLF) (split_char LF m))"

lemma stuff_line_eq:
  "stuff_line l = (if starts_with (strip_cr l) ''.'' then ''.'' else []) @ strip_cr l @ CRLF"
proof -
  have "(if ends_with l [CR] then take (length l - 1) l else l) = strip_cr l"
    by (cases l rule: rev_cases) (auto simp: ends_with_def strip_cr_def suffix_def)
  then show ?thesis by (simp add: stuff_line_def Let_def)
qed

lemma set_strip_cr: "set (strip_cr l) \<subseteq> set l"
  by (auto simp: strip_cr_def dest: in_set_butlastD)

lemma read_line_at: "LF \<notin> set x \<Longrightarrow> read_line (x @ LF # r) = (x @ [LF], r)"
  by (induction x) auto

lemma LF_not_CR [simp]: "LF \<noteq> CR" "CR \<noteq> LF"
  by (simp_all add: LF_def CR_def)

lemma trim_line:
  assumes "LF \<notin> set y"
  shows "trim_end_char LF (trim_end_crlf (y @ CRLF)) = y"
proof -
  have "\<not> suffix CRLF y" using assms by (auto simp: suffix_def CRLF_def)
  then have "trim_end_crlf y = y" by (simp add: trim_end_crlf.simps)
  moreover have "trim_end_crlf (y @ CRLF) = trim_end_crlf y"
    by (subst trim_end_crlf.simps) (simp add: CRLF_def suffixI)
  ultimately have "trim_end_crlf (y @ CRLF) = y" by simp
  moreover have "dropWhile (\<lambda>d. d = LF) (rev y) = rev y"
    using assms by (cases "rev y") auto
  ultimately show ?thesis by (simp add: trim_end_char_def)
qed

lemma byte_line_ends: "byte LF < 128" "byte CR < 128" "byte (CHR ''.'') < 128"
  by (simp_all add: LF_def CR_def byte_def)

lemma utf8_split_lines: "utf8_valid s \<Longrightarrow> list_all utf8_valid (split_char LF s)"
proof (induction s rule: length_induct)
  case (1 s)
  show ?case
  proof (cases "LF \<in> set s")
    case False
    then have "split_char LF s = [s]" by (induction s) auto
    with 1(2) show ?thesis by simp
  next
    case True
    then obtain a b where s: "s = a @ LF # b" "LF \<notin> set a" by (metis split_list_first)
    have "split_char LF (a @ LF # b) = a # split_char LF b"
      using s(2) by (induction a) auto
    moreover have "utf8_valid a" "utf8_valid b"
      using 1(2) s(1) utf8_valid_ascii_split [OF byte_line_ends(1)] by blast+
    ultimately show ?thesis using 1(1) s(1) by simp
  qed
qed

lemma utf8_strip_cr: "utf8_valid l \<Longrightarrow> utf8_valid (strip_cr l)"
  by (cases l rule: rev_cases) (auto simp: strip_cr_def utf8_valid_ascii_split [OF byte_line_ends(2)])

lemma utf8_stuff_line: "utf8_valid l \<Longrightarrow> utf8_valid (stuff_line l)"
proof -
  assume "utf8_valid l"
  then have "utf8_valid (strip_cr l @ CRLF)"
    using utf8_strip_cr [of l] utf8_valid_ascii [of CRLF] byte_line_ends
    by (simp add: utf8_valid_append CRLF_def)
  then show ?thesis
    using utf8_valid_ascii_split [OF byte_line_ends(3), of "[]"]
    by (simp add: stuff_line_eq)
qed

lemma read_data_line:
  assumes "LF \<notin> set l" "utf8_valid l"
  shows "read_data acc (stuff_line l @ r) = read_data (acc @ strip_cr l @ CRLF) r"
proof -
  let ?y = "(if starts_with (strip_cr l) ''.'' then ''.'' else []) @ strip_cr l"
  have lf: "LF \<notin> set ?y" using assms(1) set_strip_cr [of l] by (auto simp: LF_def)
  have st: "stuff_line l = ?y @ CRLF" by (simp add: stuff_line_eq)
  have rl: "read_line (stuff_line l @ r) = (stuff_line l, r)"
    using read_line_at [of "?y @ [CR]" r] lf by (simp add: st CRLF_def)
  have ne: "stuff_line l @ r \<noteq> []" by (simp add: st CRLF_def)
  have "?y \<noteq> ''.''" by (auto simp: starts_with_def)
  then have "trim_end_char LF (trim_end_crlf (stuff_line l)) \<noteq> ''.''"
    unfolding st trim_line [OF lf] .
  moreover have "(if starts_with (stuff_line l) ''..'' then drop 1 (stuff_line l) else stuff_line l) =
      strip_cr l @ CRLF"
    unfolding st by (cases "strip_cr l") (auto simp: starts_with_def CRLF_def CR_def)
  ultimately show ?thesis
    using ne rl utf8_stuff_line [OF assms(2)] by (subst read_data.simps) (simp add: Let_def del: append_is_Nil_conv)
qed

lemma read_data_end: "read_data acc (''.'' @ CRLF @ r) = DataDone acc r"
proof -
  have "read_line (''.'' @ CRLF @ r) = (''.'' @ CRLF, r)"
    using read_line_at [of "[CHR ''.'', CR]" r] by (simp add: CRLF_def LF_def CR_def)
  moreover have "utf8_valid (''.'' @ CRLF)"
    using byte_line_ends by (intro utf8_valid_ascii) (simp add: CRLF_def)
  moreover have "trim_end_char LF (trim_end_crlf (''.'' @ CRLF)) = ''.''"
    by (rule trim_line) (simp add: LF_def)
  ultimately show ?thesis by (subst read_data.simps) simp
qed

lemma read_data_lines:
  assumes "list_all (\<lambda>l. LF \<notin> set l) ls" "list_all utf8_valid ls"
  shows "read_data acc (concat (map stuff_line ls) @ ''.'' @ CRLF @ r) =
    DataDone (acc @ concat (map (\<lambda>l. strip_cr l @ CRLF) ls)) r"
  using assms
proof (induction ls arbitrary: acc)
  case Nil
  then show ?case using read_data_end by simp
next
  case (Cons l ls)
  then show ?case by (simp add: read_data_line)
qed

text \<open>Dot-stuffing round trip: what the relay's server collects from the body its client writes is
  the message with every line ended by CRLF, for every UTF-8 message, whatever dots its lines start
  with, and the server stops exactly at the client's final dot.\<close>

theorem smtp_body_roundtrip:
  assumes "utf8_valid m"
  shows "read_data [] (smtp_body m @ r) = DataDone (crlf_lines m) r"
  using read_data_lines [OF split_char_no_sep utf8_split_lines [OF assms], of "[]" r]
  by (simp add: smtp_body_def crlf_lines_def)

theorem smtp_body_roundtrip_witness:
  "read_data [] (smtp_body ''.a'' @ ''QUIT'') = DataDone (''.a'' @ CRLF) ''QUIT''"
  using smtp_body_roundtrip [of "''.a''" "''QUIT''"]
  by (simp add: utf8_valid_ascii byte_def crlf_lines_def strip_cr_def CR_def LF_def)

lemma crlf_lines_canonical:
  assumes "list_all (\<lambda>l. LF \<notin> set l) ls"
  shows "crlf_lines (concat (map (\<lambda>l. l @ CRLF) ls)) = concat (map (\<lambda>l. l @ CRLF) ls) @ CRLF"
  using assms
proof (induction ls)
  case Nil
  then show ?case by (simp add: crlf_lines_def strip_cr_def)
next
  case (Cons l ls)
  have "split_char LF (x @ LF # y) = x # split_char LF y" if "LF \<notin> set x" for x y
    using that by (induction x) auto
  from this [of "l @ [CR]"] Cons show ?case
    by (simp add: crlf_lines_def CRLF_def strip_cr_def)
qed

text \<open>A message that already consists of lines with CRLF ends arrives with one empty line more: the
  client writes a line for the empty text after the last line feed.\<close>

theorem smtp_body_appends_line:
  assumes "list_all (\<lambda>l. LF \<notin> set l) ls" "utf8_valid (concat (map (\<lambda>l. l @ CRLF) ls))"
  shows "read_data [] (smtp_body (concat (map (\<lambda>l. l @ CRLF) ls)) @ r) =
    DataDone (concat (map (\<lambda>l. l @ CRLF) ls) @ CRLF) r"
  using read_data_lines [OF split_char_no_sep utf8_split_lines [OF assms(2)], of "[]" r]
    crlf_lines_canonical [OF assms(1)]
  by (simp add: smtp_body_def crlf_lines_def)

theorem smtp_body_appends_line_witness:
  "read_data [] (smtp_body (''hi'' @ CRLF) @ []) = DataDone (''hi'' @ CRLF @ CRLF) []"
proof -
  have "utf8_valid (concat (map (\<lambda>l. l @ CRLF) [''hi'']))"
    using byte_line_ends by (intro utf8_valid_ascii) (simp add: CRLF_def byte_def)
  from smtp_body_appends_line [OF _ this, of "[]"] show ?thesis by (simp add: LF_def)
qed

end
