(* ===== verification/Sliding_Window.thy ===== *)
theory Sliding_Window
  imports Prelude
begin

text \<open>
  The interface of a sliding window of event times.  A provider prunes the stored times to those
  less than one window old; a client that only ever prunes and appends the current time then holds
  exactly the recent part of its history, and a client that appends only below a limit never has
  more than that many events in one window.  The outbound limiter of the relay and the two windows
  of the spam filter interpret it.  Times are integers in milliseconds.
\<close>

locale sliding_window =
  fixes window :: int and prune :: "int \<Rightarrow> int list \<Rightarrow> int list"
  assumes prune_recent: "\<forall>t \<in> set ts. t \<le> now \<Longrightarrow> prune now ts = filter (\<lambda>t. now - t < window) ts"
begin

definition tracks :: "int \<Rightarrow> int list \<Rightarrow> int list \<Rightarrow> bool" where
  "tracks s hist ts \<longleftrightarrow>
     sorted hist \<and> (\<forall>t \<in> set hist. t \<le> s) \<and> (\<forall>t \<in> set ts. t \<le> s) \<and>
     (\<forall>now. s \<le> now \<longrightarrow> filter (\<lambda>t. now - t < window) ts = filter (\<lambda>t. now - t < window) hist)"

definition bounded :: "nat \<Rightarrow> int list \<Rightarrow> bool" where
  "bounded m hist \<longleftrightarrow> (\<forall>now. length (filter (\<lambda>t. now - window < t \<and> t \<le> now) hist) \<le> m)"

lemma tracks_empty: "tracks s [] []"
  by (simp add: tracks_def)

lemma bounded_empty: "bounded m []"
  by (simp add: bounded_def)

lemma tracks_later: "tracks s hist ts \<Longrightarrow> s \<le> s' \<Longrightarrow> tracks s' hist ts"
  by (fastforce simp: tracks_def)

lemma prune_tracked:
  assumes "tracks s hist ts" "s \<le> now"
  shows "prune now ts = filter (\<lambda>t. now - t < window) hist"
proof -
  have "\<forall>t \<in> set ts. t \<le> now" using assms by (fastforce simp: tracks_def)
  then show ?thesis using assms by (simp add: prune_recent tracks_def)
qed

lemma tracks_prune:
  assumes "tracks s hist ts" "s \<le> now"
  shows "tracks now hist (prune now ts)"
proof -
  have "filter (\<lambda>t. n - t < window) (filter (\<lambda>t. now - t < window) hist) =
      filter (\<lambda>t. n - t < window) hist" if "now \<le> n" for n
    using that by (auto intro: filter_cong)
  moreover have "\<forall>t \<in> set hist. t \<le> now" using assms by (fastforce simp: tracks_def)
  ultimately show ?thesis
    using assms by (simp add: prune_tracked tracks_def)
qed

lemma tracks_push: "tracks now hist ts \<Longrightarrow> tracks now (hist @ [now]) (ts @ [now])"
  by (auto simp: tracks_def sorted_append)

text \<open>Recording every event keeps the events of the last window.\<close>

lemma record_all:
  assumes "sorted hist" "\<forall>t \<in> set hist. t \<le> now"
  shows "tracks now hist (foldl (\<lambda>ts t. prune t ts @ [t]) [] hist)"
  using assms
proof (induction hist arbitrary: now rule: rev_induct)
  case Nil
  show ?case by (simp add: tracks_empty)
next
  case (snoc t hist)
  then have "tracks t hist (foldl (\<lambda>ts t. prune t ts @ [t]) [] hist)"
    by (auto simp: sorted_append)
  from tracks_push [OF tracks_prune [OF this order_refl]] show ?case
    using snoc.prems by (auto intro: tracks_later)
qed

text \<open>Admitting below the limit keeps every window within it.\<close>

lemma bounded_push:
  assumes "tracks now hist ts" "bounded m hist" "length (prune now ts) < m"
  shows "bounded m (hist @ [now])"
  unfolding bounded_def
proof
  fix n
  have le: "\<forall>t \<in> set hist. t \<le> now" using assms(1) by (simp add: tracks_def)
  have recent: "length (filter (\<lambda>t. now - t < window) hist) < m"
    using assms(3) prune_tracked [OF assms(1) order_refl] by simp
  have old: "length (filter (\<lambda>t. n - window < t \<and> t \<le> n) hist) \<le> m"
    using assms(2) by (simp add: bounded_def)
  consider "n < now" | "now \<le> n" "now \<le> n - window" | "now \<le> n" "n - window < now" by linarith
  then show "length (filter (\<lambda>t. n - window < t \<and> t \<le> n) (hist @ [now])) \<le> m"
  proof cases
    case 1
    then show ?thesis using old by simp
  next
    case 2
    then show ?thesis using old by simp
  next
    case 3
    have "length (filter (\<lambda>t. n - window < t \<and> t \<le> n) hist)
        \<le> length (filter (\<lambda>t. now - t < window) hist)"
      using 3 by (induction hist) auto
    then show ?thesis using 3 recent by simp
  qed
qed

end

end
