(* ===== verification/Antispam.thy ===== *)
theory Antispam
  imports Net_Addr Sliding_Window "HOL-Library.AList"
begin

text \<open>
  The common part of the spam filter (\<^verbatim>\<open>score.rs\<close>, \<^verbatim>\<open>result.rs\<close>,
  \<^verbatim>\<open>lists/*.rs\<close>, \<^verbatim>\<open>headers.rs\<close>, \<^verbatim>\<open>storage/rate_db.rs\<close> of
  \<^verbatim>\<open>serverwall-antispam\<close>): scores and verdicts, the outcome of a check, allow and block lists, the
  headers of a report and the counter store.  Scores are real numbers; a hash set is a list of which
  only the members matter.
\<close>

section \<open>Scores\<close>

type_synonym spam_score = real

datatype spam_verdict = Clean | Suspect | Spam

datatype check_category = Authentication | Reputation | Content | Header | RateLimit | Behavioral

record score_contribution =
  sc_check_name :: str
  sc_category :: check_category
  sc_score :: real
  sc_description :: str

definition spam_score_add :: "real \<Rightarrow> real \<Rightarrow> spam_score \<Rightarrow> spam_score" where
  "spam_score_add weight severity s = s + weight * severity"

definition spam_score_percentage :: "real \<Rightarrow> spam_score \<Rightarrow> real" where
  "spam_score_percentage max_score s =
     (if max_score \<le> 0 then 0 else (max 0 (min s max_score) / max_score) * 100)"

definition spam_score_verdict :: "real \<Rightarrow> real \<Rightarrow> real \<Rightarrow> spam_score \<Rightarrow> spam_verdict" where
  "spam_score_verdict max_score suspect_threshold spam_threshold s =
     (let pct = spam_score_percentage max_score s in
      if spam_threshold \<le> pct then Spam else if suspect_threshold \<le> pct then Suspect else Clean)"

section \<open>Results\<close>

datatype check_outcome =
    COPass
  | COHit real str
  | COReject str
  | COTempFail str
  | COSkip str

datatype auth_result = ARPass | ARFail | ARSoftFail | ARNeutral | ARNone | ARTempError | ARPermError

fun auth_result_string :: "auth_result \<Rightarrow> str" where
  "auth_result_string ARPass = ''pass''"
| "auth_result_string ARFail = ''fail''"
| "auth_result_string ARSoftFail = ''softfail''"
| "auth_result_string ARNeutral = ''neutral''"
| "auth_result_string ARNone = ''none''"
| "auth_result_string ARTempError = ''temperror''"
| "auth_result_string ARPermError = ''permerror''"

record authentication_results =
  ar_spf :: auth_result
  ar_dkim :: auth_result
  ar_dmarc :: auth_result
  ar_arc :: auth_result

definition authentication_results_default :: authentication_results where
  "authentication_results_default = \<lparr>ar_spf = ARNone, ar_dkim = ARNone, ar_dmarc = ARNone, ar_arc = ARNone\<rparr>"

record spam_report =
  sr_score :: spam_score
  sr_verdict :: spam_verdict
  sr_contributions :: "score_contribution list"
  sr_auth_results :: authentication_results

section \<open>Allow and block lists\<close>

record mail_allow_list =
  mal_ips :: "str list"
  mal_senders :: "str list"
  mal_sender_domains :: "str list"

definition mail_allow_list_from_config :: "str list \<Rightarrow> str list \<Rightarrow> str list \<Rightarrow> mail_allow_list" where
  "mail_allow_list_from_config ips senders sender_domains =
     \<lparr>mal_ips = ips, mal_senders = map to_lower senders, mal_sender_domains = map to_lower sender_domains\<rparr>"

text \<open>The domain of a sender, as both lists take it.\<close>

definition sender_domain :: "str \<Rightarrow> str option" where
  "sender_domain sender =
     (case rsplit_once (CHR ''@'') sender of
        Some (_, domain) \<Rightarrow> Some (to_lower (trim_end_char (CHR ''>'') domain))
      | None \<Rightarrow> None)"

definition list_contains_domain :: "str list \<Rightarrow> str \<Rightarrow> bool" where
  "list_contains_domain domains sender =
     (case sender_domain sender of Some d \<Rightarrow> d \<in> set domains | None \<Rightarrow> False)"

definition mail_allow_list_matches :: "mail_allow_list \<Rightarrow> ip_addr \<Rightarrow> str \<Rightarrow> bool" where
  "mail_allow_list_matches al ip sender =
     (ip_to_string ip \<in> set (mal_ips al) \<or> to_lower sender \<in> set (mal_senders al) \<or>
      list_contains_domain (mal_sender_domains al) sender)"

record mail_block_list =
  mbl_ips :: "str list"
  mbl_senders :: "str list"
  mbl_sender_domains :: "str list"
  mbl_recipients :: "str list"

definition mail_block_list_from_config :: "str list \<Rightarrow> str list \<Rightarrow> str list \<Rightarrow> str list \<Rightarrow> mail_block_list" where
  "mail_block_list_from_config ips senders sender_domains recipients =
     \<lparr>mbl_ips = ips, mbl_senders = map to_lower senders, mbl_sender_domains = map to_lower sender_domains,
      mbl_recipients = map to_lower recipients\<rparr>"

definition mail_block_list_contains_recipient :: "mail_block_list \<Rightarrow> str \<Rightarrow> bool" where
  "mail_block_list_contains_recipient bl addr = (to_lower addr \<in> set (mbl_recipients bl))"

definition mail_block_list_matches :: "mail_block_list \<Rightarrow> ip_addr \<Rightarrow> str \<Rightarrow> bool" where
  "mail_block_list_matches bl ip sender =
     (ip_to_string ip \<in> set (mbl_ips bl) \<or> to_lower sender \<in> set (mbl_senders bl) \<or>
      list_contains_domain (mbl_sender_domains bl) sender)"

section \<open>Report headers\<close>

text \<open>\<^verbatim>\<open>{:.1}\<close>: one decimal, rounded to nearest, ties to even.\<close>

definition round_half_even :: "real \<Rightarrow> nat" where
  "round_half_even x =
     (let n = nat \<lfloor>x\<rfloor>; r = x - real n in
      if r < 1 / 2 then n else if 1 / 2 < r then Suc n else if even n then n else Suc n)"

definition show_f1 :: "real \<Rightarrow> str" where
  "show_f1 x =
     (let n = round_half_even (\<bar>x\<bar> * 10)
      in (if x < 0 then ''-'' else []) @ show_nat (n div 10) @ ''.'' @ show_nat (n mod 10))"

definition auth_results_value :: "str \<Rightarrow> authentication_results \<Rightarrow> str" where
  "auth_results_value authserv_id auth =
     authserv_id @ ''; spf='' @ auth_result_string (ar_spf auth) @ '' ; dkim='' @
     auth_result_string (ar_dkim auth) @ '' ; dmarc='' @ auth_result_string (ar_dmarc auth) @
     '' ; arc='' @ auth_result_string (ar_arc auth)"

definition spam_status_word :: "spam_verdict \<Rightarrow> str" where
  "spam_status_word v = (case v of Clean \<Rightarrow> ''No'' | Suspect \<Rightarrow> ''Maybe'' | Spam \<Rightarrow> ''Yes'')"

definition build_headers :: "spam_report \<Rightarrow> str \<Rightarrow> (str \<times> str) list" where
  "build_headers report authserv_id =
     (let cs = sr_contributions report;
          tests = map (\<lambda>c. sc_check_name c @ ''='' @ show_f1 (sc_score c)) cs;
          tests_str = (if tests = [] then ''none'' else join '','' tests)
      in [(''X-Spam-Score'', show_f1 (sr_score report)),
          (''X-Spam-Flag'', if sr_verdict report = Spam then ''YES'' else ''NO''),
          (''X-Spam-Status'', spam_status_word (sr_verdict report) @ '', score='' @ show_f1 (sr_score report) @
             '' tests=['' @ tests_str @ '']'')] @
         (if cs \<noteq> []
          then [(''X-Spam-Report'',
                 join (CRLF @ [CHR 9])
                   (map (\<lambda>c. ''* '' @ show_f1 (sc_score c) @ '' '' @ sc_check_name c @ '' -- '' @ sc_description c) cs))]
          else []) @
         [(''Authentication-Results'', auth_results_value authserv_id (sr_auth_results report))])"

section \<open>Counters\<close>

text \<open>Times and the window are in milliseconds.\<close>

record rate_db =
  rd_counters :: "(str \<times> int list) list"
  rd_window :: int

definition rate_db_new :: rate_db where
  "rate_db_new = \<lparr>rd_counters = [], rd_window = 3600 * 1000\<rparr>"

definition rate_db_with_window :: "int \<Rightarrow> rate_db" where
  "rate_db_with_window w = \<lparr>rd_counters = [], rd_window = w\<rparr>"

definition retain_window :: "int \<Rightarrow> int \<Rightarrow> int list \<Rightarrow> int list" where
  "retain_window window now ts = filter (\<lambda>t. duration_since now t < window) ts"

definition rate_db_increment :: "int \<Rightarrow> str \<Rightarrow> rate_db \<Rightarrow> u64 \<times> rate_db" where
  "rate_db_increment now key db =
     (let e = (case map_of (rd_counters db) key of Some ts \<Rightarrow> ts | None \<Rightarrow> []);
          e' = retain_window (rd_window db) now e @ [now]
      in (of_nat (length e'), db\<lparr>rd_counters := AList.update key e' (rd_counters db)\<rparr>))"

definition rate_db_get_count :: "int \<Rightarrow> str \<Rightarrow> rate_db \<Rightarrow> u64" where
  "rate_db_get_count now key db =
     (case map_of (rd_counters db) key of
        Some e \<Rightarrow> of_nat (length (retain_window (rd_window db) now e)) | None \<Rightarrow> 0)"

definition rate_db_record_connection :: "int \<Rightarrow> ip_addr \<Rightarrow> rate_db \<Rightarrow> rate_db" where
  "rate_db_record_connection now addr db = snd (rate_db_increment now (''conn:'' @ ip_to_string addr) db)"

section \<open>Windows\<close>

text \<open>Both windows of the filter, the counter store and the rate limit, keep the times of a key that
  are less than a window old.\<close>

lemma retain_window_recent:
  "\<forall>t \<in> set ts. t \<le> now \<Longrightarrow> retain_window w now ts = filter (\<lambda>t. now - t < w) ts"
  unfolding retain_window_def by (rule filter_cong) (auto simp: duration_since_def)

interpretation win: sliding_window w "retain_window w" for w
  by unfold_locales (rule retain_window_recent)

text \<open>The times stored for a key after the events of a history.\<close>

definition stored_times :: "int \<Rightarrow> int list \<Rightarrow> int list" where
  "stored_times w hist = foldl (\<lambda>ts t. retain_window w t ts @ [t]) [] hist"

lemma stored_snoc: "stored_times w (hist @ [t]) = retain_window w t (stored_times w hist) @ [t]"
  by (simp add: stored_times_def)

lemma retain_stored:
  assumes "sorted (hist @ [now])"
  shows "retain_window w now (stored_times w hist) = filter (\<lambda>t. now - t < w) hist"
proof -
  have "win.tracks w now hist (stored_times w hist)"
    unfolding stored_times_def using assms by (intro win.record_all) (auto simp: sorted_append)
  then show ?thesis using win.prune_tracked by blast
qed

lemma get_count_stored:
  assumes "sorted (hist @ [now])" "rd_window db = w" "length hist < 2 ^ 64"
    and "(case map_of (rd_counters db) key of Some ts \<Rightarrow> ts | None \<Rightarrow> []) = stored_times w hist"
  shows "unat (rate_db_get_count now key db) = length (filter (\<lambda>t. now - t < w) hist)"
proof -
  have "length (filter (\<lambda>t. now - t < w) hist) < 2 ^ 64"
    using length_filter_le [of "\<lambda>t. now - t < w" hist] assms(3) by linarith
  then have fits: "unat (of_nat (length (filter (\<lambda>t. now - t < w) hist)) :: u64) = length (filter (\<lambda>t. now - t < w) hist)"
    by (simp add: unat_of_nat)
  show ?thesis
  proof (cases "map_of (rd_counters db) key")
    case None
    then have "stored_times w hist = []" using assms(4) by simp
    then have "filter (\<lambda>t. now - t < w) hist = []"
      using retain_stored [OF assms(1), of w] by (simp add: retain_window_def)
    then show ?thesis using None by (simp add: rate_db_get_count_def)
  next
    case (Some ts)
    then show ?thesis using assms(2,4) fits by (simp add: rate_db_get_count_def retain_stored [OF assms(1)])
  qed
qed

lemma rate_db_increment_stored:
  assumes "rd_window db = w"
    and "\<And>key. (case map_of (rd_counters db) key of Some ts \<Rightarrow> ts | None \<Rightarrow> []) = stored_times w (h key)"
  shows "rd_window (snd (rate_db_increment t k db)) = w \<and>
    (case map_of (rd_counters (snd (rate_db_increment t k db))) key of Some ts \<Rightarrow> ts | None \<Rightarrow> []) =
      stored_times w (if key = k then h k @ [t] else h key)"
  using assms(1) assms(2) [of k] assms(2) [of key]
  by (simp add: rate_db_increment_def update_conv' stored_snoc Let_def)

text \<open>The counter store counts exactly the increments of a key within the window, whatever other keys do.\<close>

lemma rate_db_counts:
  assumes "sorted (map fst evs @ [now])" "length evs < 2 ^ 64"
  shows "unat (rate_db_get_count now key
            (foldl (\<lambda>db (t, k). snd (rate_db_increment t k db)) (rate_db_with_window w) evs)) =
     length (filter (\<lambda>(t, k). k = key \<and> now - t < w) evs)"
proof -
  let ?h = "\<lambda>evs key. map fst (filter (\<lambda>(t, k). k = key) evs)"
  let ?db = "\<lambda>evs. foldl (\<lambda>db (t, k). snd (rate_db_increment t k db)) (rate_db_with_window w) evs"
  have "rd_window (?db evs) = w \<and>
      (\<forall>key. (case map_of (rd_counters (?db evs)) key of Some ts \<Rightarrow> ts | None \<Rightarrow> []) = stored_times w (?h evs key))"
  proof (induction evs rule: rev_induct)
    case Nil
    show ?case by (simp add: rate_db_with_window_def stored_times_def)
  next
    case (snoc e evs)
    then show ?case
      using rate_db_increment_stored [of "?db evs" w "?h evs" "fst e" "snd e"] by (cases e) auto
  qed
  moreover have "sorted (?h evs key @ [now])"
    using assms(1) by (auto simp: sorted_append intro: sorted_filter)
  moreover have "length (?h evs key) < 2 ^ 64"
    by (rule le_less_trans [OF _ assms(2)]) simp
  ultimately have "unat (rate_db_get_count now key (?db evs)) = length (filter (\<lambda>t. now - t < w) (?h evs key))"
    by (intro get_count_stored) auto
  then show ?thesis by (simp add: filter_map comp_def case_prod_unfold conj_commute)
qed

section \<open>Scores are percentages\<close>

lemma percentage_bounds: "0 \<le> spam_score_percentage m s \<and> spam_score_percentage m s \<le> 100"
  by (auto simp: spam_score_percentage_def divide_simps)

lemma percentage_mono: "s \<le> t \<Longrightarrow> spam_score_percentage m s \<le> spam_score_percentage m t"
  by (auto simp: spam_score_percentage_def intro!: divide_right_mono)

text \<open>The order of severity of the verdicts.\<close>

fun verdict_rank :: "spam_verdict \<Rightarrow> nat" where
  "verdict_rank Clean = 0"
| "verdict_rank Suspect = 1"
| "verdict_rank Spam = 2"

lemma verdict_mono:
  "s \<le> t \<Longrightarrow> verdict_rank (spam_score_verdict m a b s) \<le> verdict_rank (spam_score_verdict m a b t)"
  using percentage_mono [of s t m] by (auto simp: spam_score_verdict_def Let_def)

end
