(* ===== verification/Antispam_Predata.thy ===== *)
theory Antispam_Predata
  imports Antispam
begin

text \<open>
  The checks of the spam filter that run on the envelope (\<^verbatim>\<open>predata/*.rs\<close>).  Each is a record
  with the fields of the struct and a function for its \<^verbatim>\<open>check\<close>; the resolvers and regular
  expressions are the parameter \<open>mail_libs\<close>.  Only the rate limiter has a state, which its check
  returns.
\<close>

section \<open>Context and libraries\<close>

record envelope_context =
  ec_client_ip :: ip_addr
  ec_helo_domain :: str
  ec_mail_from :: str
  ec_rcpt_to :: "str list"
  ec_early_talker :: bool
  ec_connect_time :: int
  ec_banner_sent_time :: int
  ec_command_count :: u32
  ec_pipelining_detected :: bool
  ec_ja3_fingerprint :: "str option"

datatype spf_result = SpfPass | SpfFail | SpfSoftFail | SpfNeutral | SpfNone | SpfTempError | SpfPermError

datatype dkim_result = DkimPass | DkimFail | DkimNeutral | DkimNone | DkimPermError | DkimTempError

datatype dmarc_result = DmarcPass | DmarcFail | DmarcTempError | DmarcPermError | DmarcNone

text \<open>An attachment as the MIME parser presents it: name, content type and contents.\<close>

type_synonym mime_attachment = "str option \<times> str option \<times> str"

text \<open>Writing the message to a temporary file may fail at two points.\<close>

datatype temp_file = TempCreateFailed | TempWriteFailed | TempFile str

text \<open>What the checks use of other crates: DNS lookups (\<open>None\<close> is an error), the verifiers of
  \<^verbatim>\<open>mail_auth\<close> (for DMARC the DKIM result, the SPF result and whether the policy is reject), regular
  expressions given by their text (match, number of matches, first group of every match that has it and of
  the first match), the Unicode table of letters, digits and white space beyond ASCII, the MIME parser, the HTML scanner with the \<^verbatim>\<open>style\<close> attributes it visits and the number of
  \<^verbatim>\<open>img\<close> and \<^verbatim>\<open>form\<close> elements, the debug rendering of a hash set, and the execution of a scanner
  command on a message (temporary file, exit code, output).\<close>

record mail_libs =
  ml_reverse_lookup :: "ip_addr \<Rightarrow> str list option"
  ml_lookup_ip :: "str \<Rightarrow> ip_addr list option"
  ml_verify_spf :: "ip_addr \<Rightarrow> str \<Rightarrow> str \<Rightarrow> str \<Rightarrow> spf_result"
  ml_parse_auth :: "str \<Rightarrow> bool"
  ml_verify_dkim :: "str \<Rightarrow> dkim_result list"
  ml_verify_arc :: "str \<Rightarrow> dkim_result"
  ml_verify_dmarc :: "str \<Rightarrow> dkim_result list \<Rightarrow> str \<Rightarrow> spf_result \<Rightarrow> dmarc_result \<times> dmarc_result \<times> bool"
  ml_is_match :: "str \<Rightarrow> str \<Rightarrow> bool"
  ml_count :: "str \<Rightarrow> str \<Rightarrow> nat"
  ml_captures :: "str \<Rightarrow> str \<Rightarrow> str list"
  ml_first_capture :: "str \<Rightarrow> str \<Rightarrow> str option"
  ml_unicode_text :: "str \<Rightarrow> bool"
  ml_attachments :: "str \<Rightarrow> mime_attachment list option"
  ml_html :: "str \<Rightarrow> str list \<times> nat \<times> nat"
  ml_debug_set :: "str list \<Rightarrow> str"
  ml_temp_file :: "str \<Rightarrow> temp_file"
  ml_command :: "str \<Rightarrow> str list \<Rightarrow> str \<Rightarrow> (str, int option \<times> str) result"

type_synonym pre_result = "check_outcome \<times> score_contribution option"

text \<open>The contribution and the hit that the checks build.\<close>

definition contribution :: "str \<Rightarrow> check_category \<Rightarrow> real \<Rightarrow> str \<Rightarrow> score_contribution" where
  "contribution name category score description =
     \<lparr>sc_check_name = name, sc_category = category, sc_score = score, sc_description = description\<rparr>"

definition hit :: "str \<Rightarrow> check_category \<Rightarrow> real \<Rightarrow> str \<Rightarrow> str \<Rightarrow> pre_result" where
  "hit name category score detail description =
     (COHit score detail, Some (contribution name category score description))"

section \<open>DNS block lists\<close>

record dnsbl_zone =
  dz_zone :: str
  dz_weight_multiplier :: real
  dz_reject_on_hit :: bool

record dnsbl_check =
  db_zones :: "dnsbl_zone list"
  db_weight :: real

fun reverse_ip :: "ip_addr \<Rightarrow> str option" where
  "reverse_ip (V4 a b c d) = Some (show_v4 d c b a)"
| "reverse_ip (V6 _ _ _ _ _ _ _ _) = None"

definition query_zone :: "mail_libs \<Rightarrow> dnsbl_check \<Rightarrow> str \<Rightarrow> dnsbl_zone \<Rightarrow> (str \<times> real \<times> bool) option" where
  "query_zone ml c reversed z =
     (case ml_lookup_ip ml (reversed @ ''.'' @ dz_zone z) of
        Some (_ # _) \<Rightarrow> Some (dz_zone z, db_weight c * dz_weight_multiplier z, dz_reject_on_hit z)
      | _ \<Rightarrow> None)"

fun dnsbl_loop :: "ip_addr \<Rightarrow> real \<Rightarrow> str list \<Rightarrow> (str \<times> real \<times> bool) list \<Rightarrow> pre_result" where
  "dnsbl_loop ip total_severity listed_zones [] =
     (if listed_zones = [] then (COPass, None)
      else let detail = ''Listed in: '' @ join '', '' listed_zones
           in hit ''dnsbl'' Reputation total_severity detail detail)"
| "dnsbl_loop ip total_severity listed_zones ((zone, severity, reject) # rs) =
     (if reject
      then (COReject (''Listed in DNSBL '' @ zone),
            Some (contribution ''dnsbl'' Reputation severity
                    (''IP '' @ ip_to_string ip @ '' listed in '' @ zone)))
      else dnsbl_loop ip (total_severity + severity) (listed_zones @ [zone]) rs)"

definition dnsbl_check_check :: "mail_libs \<Rightarrow> dnsbl_check \<Rightarrow> envelope_context \<Rightarrow> pre_result" where
  "dnsbl_check_check ml c ctx =
     (case reverse_ip (ec_client_ip ctx) of
        None \<Rightarrow> (COSkip ''IPv6 not supported for DNSBL'', None)
      | Some reversed \<Rightarrow>
          dnsbl_loop (ec_client_ip ctx) 0 [] (List.map_filter (query_zone ml c reversed) (db_zones c)))"

section \<open>Reverse DNS\<close>

definition generic_ptr_re :: str where
  "generic_ptr_re = rx (''(?i)^(ip|host|pool|dynamic|dhcp|dsl|cable|ppp|dial|broadband|unknown|unresolved|'' @
     ''static|client|customer|user|adsl|mob|gprs)[~-~.]?~d'')"

definition no_ptr :: "real \<Rightarrow> ip_addr \<Rightarrow> pre_result" where
  "no_ptr weight ip =
     hit ''rdns'' Reputation (weight * 1) (''No PTR record for '' @ ip_to_string ip)
       (''No PTR record for '' @ ip_to_string ip)"

definition confirms :: "mail_libs \<Rightarrow> ip_addr \<Rightarrow> str \<Rightarrow> bool" where
  "confirms ml ip ptr_name =
     (case ml_lookup_ip ml ptr_name of Some addrs \<Rightarrow> ip \<in> set addrs | None \<Rightarrow> False)"

definition reverse_dns_check :: "mail_libs \<Rightarrow> real \<Rightarrow> envelope_context \<Rightarrow> pre_result" where
  "reverse_dns_check ml weight ctx =
     (let ip = ec_client_ip ctx in
      case ml_reverse_lookup ml ip of
        None \<Rightarrow> no_ptr weight ip
      | Some [] \<Rightarrow> no_ptr weight ip
      | Some (n # ns) \<Rightarrow>
          (let ptr_names = map (trim_end_char (CHR ''.'')) (n # ns) in
           case find (confirms ml ip) ptr_names of
             None \<Rightarrow> hit ''rdns'' Reputation (weight * (7 / 10))
                 (''FCrDNS mismatch for '' @ ip_to_string ip @ '' (PTR: '' @ hd ptr_names @ '')'')
                 (''FCrDNS mismatch for '' @ ip_to_string ip)
           | Some hostname \<Rightarrow>
               if ml_is_match ml generic_ptr_re hostname
               then hit ''rdns'' Reputation (weight * (4 / 10)) (''Generic PTR record: '' @ hostname)
                      (''Generic PTR: '' @ hostname)
               else (COPass, None)))"

section \<open>SPF\<close>

record spf_severity =
  sv_fail :: real
  sv_softfail :: real
  sv_neutral :: real
  sv_none :: real

definition spf_severity_default :: spf_severity where
  "spf_severity_default = \<lparr>sv_fail = 1, sv_softfail = 5 / 10, sv_neutral = 1 / 10, sv_none = 3 / 10\<rparr>"

record spf_check =
  sp_weight :: real
  sp_severity :: spf_severity

definition spf_check_check :: "mail_libs \<Rightarrow> spf_check \<Rightarrow> envelope_context \<Rightarrow> pre_result" where
  "spf_check_check ml c ctx =
     (case rsplit_once (CHR ''@'') (ec_mail_from ctx) of
        None \<Rightarrow> (COSkip ''no domain in MAIL FROM'', None)
      | Some (_, d) \<Rightarrow>
          (let domain = trim_end_char (CHR ''>'') d; ip = ec_client_ip ctx;
               w = sp_weight c; sv = sp_severity c
           in case ml_verify_spf ml ip (ec_helo_domain ctx) domain (ec_mail_from ctx) of
                SpfPass \<Rightarrow> (COPass, None)
              | SpfFail \<Rightarrow> hit ''spf'' Authentication (w * sv_fail sv)
                  (''SPF fail for '' @ domain @ '' from '' @ ip_to_string ip) (''SPF fail for '' @ domain)
              | SpfSoftFail \<Rightarrow> hit ''spf'' Authentication (w * sv_softfail sv)
                  (''SPF softfail for '' @ domain) (''SPF softfail for '' @ domain)
              | SpfNeutral \<Rightarrow> hit ''spf'' Authentication (w * sv_neutral sv)
                  (''SPF neutral for '' @ domain) (''SPF neutral for '' @ domain)
              | SpfNone \<Rightarrow> hit ''spf'' Authentication (w * sv_none sv)
                  (''No SPF record for '' @ domain) (''No SPF record for '' @ domain)
              | SpfTempError \<Rightarrow> (COSkip (''SPF lookup error for '' @ domain), None)
              | SpfPermError \<Rightarrow> (COSkip (''SPF lookup error for '' @ domain), None)))"

section \<open>Residential senders\<close>

definition RESIDENTIAL_PATTERN :: str where
  "RESIDENTIAL_PATTERN = rx (''(?i)(^|[.~-])(dynamic|dyn|dhcp|dsl|cable|adsl|broadband|ppp|pppoe|dial|mob|mobile|'' @
     ''gprs|lte|residential|home|fiber|fibre)[.~-]'')"

text \<open>The dash of two of the texts, in UTF-8.\<close>

definition EM_DASH :: str where
  "EM_DASH = [CHR 0xE2, CHR 0x80, CHR 0x94]"

record residential_sender_check =
  rs_weight :: real
  rs_reject :: bool
  rs_check_pbl :: bool
  rs_pbl_zone :: str
  rs_softfail_triggers :: bool
  rs_neutral_triggers :: bool

fun query_dnsbl :: "mail_libs \<Rightarrow> ip_addr \<Rightarrow> str \<Rightarrow> bool" where
  "query_dnsbl ml (V4 a b c d) zone = (ml_lookup_ip ml (show_v4 d c b a @ ''.'' @ zone) \<noteq> None)"
| "query_dnsbl ml (V6 _ _ _ _ _ _ _ _) zone = False"

definition reject_outcome :: "residential_sender_check \<Rightarrow> ip_addr \<Rightarrow> str \<Rightarrow> str \<Rightarrow> str \<Rightarrow> pre_result" where
  "reject_outcome c ip domain residential_reason spf_detail =
     (let reason = ''Residential sender ('' @ residential_reason @ '') with '' @ spf_detail @ '' for '' @ domain @
                   '' from '' @ ip_to_string ip
      in (if rs_reject c then COReject reason else COHit (rs_weight c) reason,
          Some (contribution ''residential_spf'' Reputation (rs_weight c) reason)))"

text \<open>The first stage: why the address counts as residential, if it does.\<close>

definition residential_reason :: "mail_libs \<Rightarrow> residential_sender_check \<Rightarrow> ip_addr \<Rightarrow> str option" where
  "residential_reason ml c ip =
     (let from_ptr =
        (case ml_reverse_lookup ml ip of
           None \<Rightarrow> Some ''no PTR record''
         | Some lookup \<Rightarrow>
             (let ptr_names = map (trim_end_char (CHR ''.'')) lookup in
              if ptr_names = [] then Some ''no PTR record''
              else map_option (\<lambda>name. ''residential PTR: '' @ name)
                     (find (ml_is_match ml RESIDENTIAL_PATTERN) ptr_names)))
      in case from_ptr of
           Some r \<Rightarrow> Some r
         | None \<Rightarrow>
             if rs_check_pbl c \<and> query_dnsbl ml ip (rs_pbl_zone c)
             then Some (''listed in '' @ rs_pbl_zone c) else None)"

definition residential_spf ::
  "residential_sender_check \<Rightarrow> ip_addr \<Rightarrow> str \<Rightarrow> str \<Rightarrow> spf_result \<Rightarrow> pre_result" where
  "residential_spf c ip domain reason r =
     (case r of
        SpfPass \<Rightarrow> (COSkip (''residential IP '' @ ip_to_string ip @ '' has valid SPF for '' @ domain @ '' '' @
                     EM_DASH @ '' allowed''), None)
      | SpfFail \<Rightarrow> reject_outcome c ip domain reason ''SPF fail''
      | SpfSoftFail \<Rightarrow>
          if rs_softfail_triggers c then reject_outcome c ip domain reason ''SPF softfail''
          else hit ''residential_spf'' Reputation (rs_weight c * (5 / 10))
                 (''Residential sender ('' @ reason @ '') with SPF softfail for '' @ domain)
                 (''Residential IP '' @ ip_to_string ip @ '' SPF softfail for '' @ domain)
      | SpfNeutral \<Rightarrow>
          if rs_neutral_triggers c then reject_outcome c ip domain reason ''SPF neutral''
          else hit ''residential_spf'' Reputation (rs_weight c * (3 / 10))
                 (''Residential sender ('' @ reason @ '') with SPF neutral for '' @ domain)
                 (''Residential IP '' @ ip_to_string ip @ '' SPF neutral for '' @ domain)
      | SpfNone \<Rightarrow> reject_outcome c ip domain reason ''no SPF record''
      | SpfTempError \<Rightarrow> (COTempFail (''Residential IP '' @ ip_to_string ip @ '' but SPF lookup failed for '' @
                          domain @ '' '' @ EM_DASH @ '' deferring''), None)
      | SpfPermError \<Rightarrow> (COSkip (''SPF PermError for '' @ domain @ '' '' @ EM_DASH @
                          '' skipping residential enforcement''), None))"

definition residential_sender_check_check ::
  "mail_libs \<Rightarrow> residential_sender_check \<Rightarrow> envelope_context \<Rightarrow> pre_result" where
  "residential_sender_check_check ml c ctx =
     (let mail_from = trim (ec_mail_from ctx); ip = ec_client_ip ctx in
      if mail_from = [] \<or> mail_from = ''<>'' then (COSkip ''null MAIL FROM (bounce)'', None)
      else case rsplit_once (CHR ''@'') mail_from of
             None \<Rightarrow> (COSkip ''no domain in MAIL FROM'', None)
           | Some (_, d) \<Rightarrow>
               (let domain = trim_end_char (CHR ''>'') d in
                case residential_reason ml c ip of
                  None \<Rightarrow> (COSkip ''non-residential IP'', None)
                | Some reason \<Rightarrow>
                    residential_spf c ip domain reason
                      (ml_verify_spf ml ip (ec_helo_domain ctx) domain mail_from)))"

section \<open>HELO\<close>

definition hostname_re :: str where
  "hostname_re = rx (''^[a-zA-Z0-9]([a-zA-Z0-9~-]*[a-zA-Z0-9])?'' @
     ''(~.[a-zA-Z0-9]([a-zA-Z0-9~-]*[a-zA-Z0-9])?)*$'')"

definition is_ip_literal :: "str \<Rightarrow> bool" where
  "is_ip_literal helo =
     (parse_ip (trim_end_char (CHR '']'') (trim_start_char (CHR ''['') helo)) \<noteq> None)"

definition helo_check :: "mail_libs \<Rightarrow> real \<Rightarrow> envelope_context \<Rightarrow> pre_result" where
  "helo_check ml weight ctx =
     (let helo = trim (ec_helo_domain ctx) in
      if helo = [] then hit ''helo'' Behavioral (weight * 1) ''Empty HELO/EHLO hostname'' ''Empty HELO hostname''
      else if is_ip_literal helo then
        hit ''helo'' Behavioral (weight * (3 / 10)) (''HELO is an IP literal: '' @ helo) (''HELO IP literal: '' @ helo)
      else if \<not> ml_is_match ml hostname_re helo then
        hit ''helo'' Behavioral (weight * (8 / 10)) (''Invalid HELO hostname format: '' @ helo)
          (''Invalid HELO hostname: '' @ helo)
      else if CHR ''.'' \<notin> set helo then
        hit ''helo'' Behavioral (weight * (5 / 10)) (''HELO hostname has no TLD: '' @ helo) (''HELO no TLD: '' @ helo)
      else case ml_reverse_lookup ml (ec_client_ip ctx) of
             None \<Rightarrow> (COPass, None)
           | Some ptr_lookup \<Rightarrow>
               (let ptr_names = map (\<lambda>n. to_lower (trim_end_char (CHR ''.'') n)) ptr_lookup in
                if to_lower helo \<notin> set ptr_names
                then hit ''helo'' Behavioral (weight * (2 / 10)) (''HELO '' @ helo @ '' does not match PTR'')
                       (''HELO/PTR mismatch: '' @ helo)
                else (COPass, None)))"

section \<open>Rate limits\<close>

record window_entry =
  we_timestamps :: "int list"

definition window_entry_new :: window_entry where
  "window_entry_new = \<lparr>we_timestamps = []\<rparr>"

definition window_entry_record :: "int \<Rightarrow> int \<Rightarrow> window_entry \<Rightarrow> window_entry" where
  "window_entry_record now window e = e\<lparr>we_timestamps := retain_window window now (we_timestamps e) @ [now]\<rparr>"

definition window_entry_count :: "int \<Rightarrow> int \<Rightarrow> window_entry \<Rightarrow> u64" where
  "window_entry_count now window e = of_nat (length (retain_window window now (we_timestamps e)))"

record smtp_rate_limit_check =
  rl_weight :: real
  rl_max_per_ip :: u64
  rl_max_per_domain :: u64
  rl_max_per_sender :: u64
  rl_window :: int
  rl_ip_map :: "(str \<times> window_entry) list"
  rl_domain_map :: "(str \<times> window_entry) list"
  rl_sender_map :: "(str \<times> window_entry) list"

definition smtp_rate_limit_check_new :: "real \<Rightarrow> u64 \<Rightarrow> u64 \<Rightarrow> u64 \<Rightarrow> int \<Rightarrow> smtp_rate_limit_check" where
  "smtp_rate_limit_check_new weight max_per_ip max_per_domain max_per_sender window =
     \<lparr>rl_weight = weight, rl_max_per_ip = max_per_ip, rl_max_per_domain = max_per_domain,
      rl_max_per_sender = max_per_sender, rl_window = window,
      rl_ip_map = [], rl_domain_map = [], rl_sender_map = []\<rparr>"

text \<open>The entry of a key, created when missing, records the event and counts.\<close>

definition record_count ::
  "int \<Rightarrow> int \<Rightarrow> str \<Rightarrow> (str \<times> window_entry) list \<Rightarrow> u64 \<times> (str \<times> window_entry) list" where
  "record_count now window key tab =
     (let e = window_entry_record now window
                (case map_of tab key of Some e \<Rightarrow> e | None \<Rightarrow> window_entry_new)
      in (window_entry_count now window e, AList.update key e tab))"

definition show_u64 :: "u64 \<Rightarrow> str" where
  "show_u64 n = show_nat (unat n)"

definition rate_limit_domain ::
  "int \<Rightarrow> envelope_context \<Rightarrow> smtp_rate_limit_check \<Rightarrow> pre_result \<times> smtp_rate_limit_check" where
  "rate_limit_domain now ctx c =
     (case rsplit_once (CHR ''@'') (ec_mail_from ctx) of
        None \<Rightarrow> ((COPass, None), c)
      | Some (_, domain) \<Rightarrow>
          (let domain_key = to_lower (trim_end_char (CHR ''>'') domain);
               (count, tab) = record_count now (rl_window c) domain_key (rl_domain_map c);
               c' = c\<lparr>rl_domain_map := tab\<rparr>
           in if rl_max_per_domain c < count
              then (hit ''rate_limit'' RateLimit (rl_weight c * (6 / 10))
                      (''Domain rate limit: '' @ domain_key @ '' ('' @ show_u64 count @ ''/'' @
                       show_u64 (rl_max_per_domain c) @ '')'')
                      (''Domain '' @ domain_key @ '' rate limit''), c')
              else ((COPass, None), c')))"

definition rate_limit_sender ::
  "int \<Rightarrow> envelope_context \<Rightarrow> smtp_rate_limit_check \<Rightarrow> pre_result \<times> smtp_rate_limit_check" where
  "rate_limit_sender now ctx c =
     (if ec_mail_from ctx = [] then rate_limit_domain now ctx c
      else let (count, tab) = record_count now (rl_window c) (to_lower (ec_mail_from ctx)) (rl_sender_map c);
               c' = c\<lparr>rl_sender_map := tab\<rparr>
           in if rl_max_per_sender c < count
              then (hit ''rate_limit'' RateLimit (rl_weight c * (8 / 10))
                      (''Sender rate limit: '' @ ec_mail_from ctx @ '' ('' @ show_u64 count @ ''/'' @
                       show_u64 (rl_max_per_sender c) @ '')'')
                      (''Sender '' @ ec_mail_from ctx @ '' rate limit''), c')
              else rate_limit_domain now ctx c')"

definition smtp_rate_limit_check_check ::
  "int \<Rightarrow> envelope_context \<Rightarrow> smtp_rate_limit_check \<Rightarrow> pre_result \<times> smtp_rate_limit_check" where
  "smtp_rate_limit_check_check now ctx c =
     (let ip = ip_to_string (ec_client_ip ctx);
          (count, tab) = record_count now (rl_window c) ip (rl_ip_map c);
          c' = c\<lparr>rl_ip_map := tab\<rparr>
      in if rl_max_per_ip c < count
         then ((COReject (''Rate limit exceeded for IP '' @ ip @ '' ('' @ show_u64 count @ ''/'' @
                  show_u64 (rl_max_per_ip c) @ '')''),
                Some (contribution ''rate_limit'' RateLimit (rl_weight c * 1)
                        (''IP '' @ ip @ '' rate limit exceeded''))), c')
         else rate_limit_sender now ctx c')"

section \<open>Early talkers and behaviour\<close>

definition early_talker_check :: "real \<Rightarrow> envelope_context \<Rightarrow> pre_result" where
  "early_talker_check weight ctx =
     (if ec_early_talker ctx
      then hit ''early_talker'' Behavioral (weight * 1)
             (''Client '' @ ip_to_string (ec_client_ip ctx) @ '' sent data before banner'')
             ''Client sent data before banner''
      else (COPass, None))"

definition RAPID_FIRE_THRESHOLD :: u32 where
  "RAPID_FIRE_THRESHOLD = 20"

definition behavior_check :: "real \<Rightarrow> int \<Rightarrow> envelope_context \<Rightarrow> pre_result" where
  "behavior_check weight now ctx =
     (let elapsed = duration_since now (ec_banner_sent_time ctx);
          pipelining = ec_pipelining_detected ctx;
          rapid = (RAPID_FIRE_THRESHOLD < ec_command_count ctx \<and> elapsed div 1000 < 5);
          total_severity = (if pipelining then weight * (6 / 10) else 0) + (if rapid then weight * (8 / 10) else 0);
          details = (if pipelining then [''pipelining abuse detected''] else []) @
                    (if rapid then [''rapid-fire commands: '' @ show_nat (unat (ec_command_count ctx)) @ '' in '' @
                                    show_f1 (real_of_int elapsed / 1000) @ ''s''] else [])
      in if details = [] then (COPass, None)
         else let detail = join ''; '' details in hit ''behavior'' Behavioral total_severity detail detail)"

section \<open>Any envelope check\<close>

datatype pre_check =
    DnsblCheck dnsbl_check
  | SpfCheck spf_check
  | ReverseDnsCheck real
  | ResidentialSenderCheck residential_sender_check
  | HeloCheck real
  | SmtpRateLimitCheck smtp_rate_limit_check
  | EarlyTalkerCheck real
  | BehaviorCheck real

fun pre_check_run :: "mail_libs \<Rightarrow> int \<Rightarrow> envelope_context \<Rightarrow> pre_check \<Rightarrow> pre_result \<times> pre_check" where
  "pre_check_run ml now ctx (DnsblCheck c) = (dnsbl_check_check ml c ctx, DnsblCheck c)"
| "pre_check_run ml now ctx (SpfCheck c) = (spf_check_check ml c ctx, SpfCheck c)"
| "pre_check_run ml now ctx (ReverseDnsCheck w) = (reverse_dns_check ml w ctx, ReverseDnsCheck w)"
| "pre_check_run ml now ctx (ResidentialSenderCheck c) =
     (residential_sender_check_check ml c ctx, ResidentialSenderCheck c)"
| "pre_check_run ml now ctx (HeloCheck w) = (helo_check ml w ctx, HeloCheck w)"
| "pre_check_run ml now ctx (SmtpRateLimitCheck c) =
     (let (r, c') = smtp_rate_limit_check_check now ctx c in (r, SmtpRateLimitCheck c'))"
| "pre_check_run ml now ctx (EarlyTalkerCheck w) = (early_talker_check w ctx, EarlyTalkerCheck w)"
| "pre_check_run ml now ctx (BehaviorCheck w) = (behavior_check w now ctx, BehaviorCheck w)"

section \<open>The contract of a check\<close>

text \<open>What the pipeline may rely on: a check that finds nothing contributes nothing, and the severity of
  a hit is the score it contributes.\<close>

fun pre_consistent :: "pre_result \<Rightarrow> bool" where
  "pre_consistent (COHit severity _, Some c) = (sc_score c = severity)"
| "pre_consistent (COHit _ _, None) = False"
| "pre_consistent (COReject _, c) = (c \<noteq> None)"
| "pre_consistent (_, c) = (c = None)"

lemma hit_consistent [simp]: "pre_consistent (hit n cat s d d')"
  by (simp add: hit_def contribution_def)

lemma dnsbl_loop_consistent: "pre_consistent (dnsbl_loop ip sev zs rs)"
  by (induction ip sev zs rs rule: dnsbl_loop.induct) (auto simp: Let_def)

lemma reject_outcome_consistent [simp]: "pre_consistent (reject_outcome c ip d r x)"
  by (simp add: reject_outcome_def contribution_def Let_def)

lemma rate_limit_consistent: "pre_consistent (fst (smtp_rate_limit_check_check now ctx c))"
  by (auto simp: smtp_rate_limit_check_check_def rate_limit_sender_def rate_limit_domain_def Let_def
      split: prod.split option.split)

lemma pre_check_consistent: "pre_consistent (fst (pre_check_run ml now ctx c))"
proof (cases c)
  case (DnsblCheck x)
  then show ?thesis by (simp add: dnsbl_check_check_def dnsbl_loop_consistent split: option.split)
next
  case (SpfCheck x)
  then show ?thesis by (auto simp: spf_check_check_def Let_def split: option.split spf_result.split)
next
  case (ReverseDnsCheck x)
  then show ?thesis
    by (auto simp: reverse_dns_check_def no_ptr_def Let_def split: option.split list.split)
next
  case (ResidentialSenderCheck x)
  then show ?thesis
    by (auto simp: residential_sender_check_check_def residential_spf_def Let_def
        split: option.split spf_result.split)
next
  case (HeloCheck x)
  then show ?thesis by (auto simp: helo_check_def Let_def split: option.split)
next
  case (SmtpRateLimitCheck x)
  then show ?thesis using rate_limit_consistent [of now ctx x] by (simp add: case_prod_unfold Let_def)
next
  case (EarlyTalkerCheck x)
  then show ?thesis by (simp add: early_talker_check_def)
next
  case (BehaviorCheck x)
  then show ?thesis by (auto simp: behavior_check_def Let_def)
qed

section \<open>The rate limit over a sequence of messages\<close>

definition tab_times :: "(str \<times> window_entry) list \<Rightarrow> str \<Rightarrow> int list" where
  "tab_times tab key = (case map_of tab key of Some e \<Rightarrow> we_timestamps e | None \<Rightarrow> [])"

lemma tab_times_record:
  "tab_times (snd (record_count now w key tab)) k =
     (if k = key then retain_window w now (tab_times tab key) @ [now] else tab_times tab k)"
  by (auto simp: record_count_def tab_times_def window_entry_record_def window_entry_new_def update_conv'
      Let_def split: option.split)

lemma rl_other [simp]:
  "rl_ip_map (snd (rate_limit_domain now ctx c)) = rl_ip_map c"
  "rl_ip_map (snd (rate_limit_sender now ctx c)) = rl_ip_map c"
  by (auto simp: rate_limit_domain_def rate_limit_sender_def Let_def case_prod_unfold split: option.split)

lemma rl_config [simp]:
  "rl_window (snd (rate_limit_domain now ctx c)) = rl_window c"
  "rl_max_per_ip (snd (rate_limit_domain now ctx c)) = rl_max_per_ip c"
  "rl_window (snd (rate_limit_sender now ctx c)) = rl_window c"
  "rl_max_per_ip (snd (rate_limit_sender now ctx c)) = rl_max_per_ip c"
  by (auto simp: rate_limit_domain_def rate_limit_sender_def Let_def case_prod_unfold split: option.split)

lemma rl_check_state [simp]:
  "rl_window (snd (smtp_rate_limit_check_check now ctx c)) = rl_window c"
  "rl_max_per_ip (snd (smtp_rate_limit_check_check now ctx c)) = rl_max_per_ip c"
  "rl_ip_map (snd (smtp_rate_limit_check_check now ctx c)) =
     snd (record_count now (rl_window c) (ip_to_string (ec_client_ip ctx)) (rl_ip_map c))"
  by (auto simp: smtp_rate_limit_check_check_def Let_def case_prod_unfold)

definition run_rate_limit ::
  "(int \<times> envelope_context) list \<Rightarrow> smtp_rate_limit_check \<Rightarrow> smtp_rate_limit_check" where
  "run_rate_limit reqs c = foldl (\<lambda>c (now, ctx). snd (smtp_rate_limit_check_check now ctx c)) c reqs"

definition attempts_of :: "ip_addr \<Rightarrow> (int \<times> envelope_context) list \<Rightarrow> int list" where
  "attempts_of ip reqs =
     map fst (filter (\<lambda>(_, ctx). ip_to_string (ec_client_ip ctx) = ip_to_string ip) reqs)"

lemma run_rate_limit_state:
  "rl_window (run_rate_limit reqs (smtp_rate_limit_check_new w mi md ms win)) = win \<and>
   rl_max_per_ip (run_rate_limit reqs (smtp_rate_limit_check_new w mi md ms win)) = mi \<and>
   tab_times (rl_ip_map (run_rate_limit reqs (smtp_rate_limit_check_new w mi md ms win))) (ip_to_string ip) =
     stored_times win (attempts_of ip reqs)"
proof (induction reqs rule: rev_induct)
  case Nil
  show ?case
    by (simp add: run_rate_limit_def smtp_rate_limit_check_new_def tab_times_def attempts_of_def stored_times_def)
next
  case (snoc r reqs)
  then show ?case
    by (cases r) (auto simp: run_rate_limit_def tab_times_record attempts_of_def stored_snoc)
qed

lemma record_count_count:
  "fst (record_count now w key tab) =
     of_nat (length (retain_window w now (retain_window w now (tab_times tab key) @ [now])))"
  by (simp add: record_count_def window_entry_count_def window_entry_record_def window_entry_new_def tab_times_def
      Let_def split: option.split)

lemma rate_limit_rejects_iff:
  "(\<exists>r. fst (fst (smtp_rate_limit_check_check now ctx c)) = COReject r) \<longleftrightarrow>
     rl_max_per_ip c < fst (record_count now (rl_window c) (ip_to_string (ec_client_ip ctx)) (rl_ip_map c))"
  by (auto simp: smtp_rate_limit_check_check_def rate_limit_sender_def rate_limit_domain_def hit_def Let_def
      case_prod_unfold split: option.split)

lemma sorted_attempts: "sorted (map fst reqs) \<Longrightarrow> sorted (attempts_of ip reqs)"
  by (induction reqs) (auto simp: attempts_of_def)

text \<open>The SMTP rate limiter counts exactly: over any sequence of messages from any clients, a message
  is rejected if and only if the messages of its client within one window before it, itself and the
  rejected ones included, are more than the limit.\<close>

theorem rate_limit_counts_window:
  assumes "sorted (map fst (reqs @ [(now, ctx)]))" "0 < window" "Suc (length reqs) < 2 ^ 64"
  shows "(\<exists>r. fst (fst (smtp_rate_limit_check_check now ctx
            (run_rate_limit reqs (smtp_rate_limit_check_new w max_ip md ms window)))) = COReject r) \<longleftrightarrow>
     unat max_ip < length (filter (\<lambda>t. now - t < window)
       (attempts_of (ec_client_ip ctx) (reqs @ [(now, ctx)])))"
proof -
  let ?h = "attempts_of (ec_client_ip ctx) reqs"
  have hist: "attempts_of (ec_client_ip ctx) (reqs @ [(now, ctx)]) = ?h @ [now]" by (simp add: attempts_of_def)
  then have sorted: "sorted (?h @ [now])" using sorted_attempts [OF assms(1)] by metis
  have twice: "retain_window window now (retain_window window now ts @ [now]) =
      retain_window window now ts @ [now]" for ts
    using assms(2) by (simp add: retain_window_def duration_since_def)
  have len: "length (filter (\<lambda>t. now - t < window) (?h @ [now])) < 2 ^ 64"
  proof -
    have "length (filter (\<lambda>t. now - t < window) (?h @ [now])) \<le> length (?h @ [now])" by (rule length_filter_le)
    also have "\<dots> \<le> Suc (length reqs)" by (simp add: attempts_of_def)
    finally show ?thesis using assms(3) by simp
  qed
  have cnt: "fst (record_count now window key tab) = of_nat (length (retain_window window now (tab_times tab key) @ [now]))"
    for key tab
    by (simp only: record_count_count twice)
  have "retain_window window now (stored_times window ?h) @ [now] = filter (\<lambda>t. now - t < window) (?h @ [now])"
    using assms(2) by (simp add: retain_stored [OF sorted])
  then have "fst (record_count now window (ip_to_string (ec_client_ip ctx))
      (rl_ip_map (run_rate_limit reqs (smtp_rate_limit_check_new w max_ip md ms window)))) =
      of_nat (length (filter (\<lambda>t. now - t < window) (?h @ [now])))"
    using run_rate_limit_state [of reqs w max_ip md ms window "ec_client_ip ctx"]
    by (simp only: cnt)
  moreover have "unat (of_nat n :: u64) = n" if "n < 2 ^ 64" for n
    using that by (simp add: unat_of_nat)
  ultimately show ?thesis
    unfolding rate_limit_rejects_iff hist word_less_nat_alt
    using run_rate_limit_state [of reqs w max_ip md ms window] len by (simp only:)
qed

definition demo_context :: envelope_context where
  "demo_context = \<lparr>ec_client_ip = V4 192 0 2 1, ec_helo_domain = ''mx.example'', ec_mail_from = ''a@b'',
     ec_rcpt_to = [''c@d''], ec_early_talker = False, ec_connect_time = 0, ec_banner_sent_time = 0,
     ec_command_count = 4, ec_pipelining_detected = False, ec_ja3_fingerprint = None\<rparr>"

theorem rate_limit_counts_window_witness:
  "(\<exists>r. fst (fst (smtp_rate_limit_check_check 7 demo_context
       (run_rate_limit [(1, demo_context), (5, demo_context)] (smtp_rate_limit_check_new 1 1 9 9 4)))) = COReject r) \<and>
   \<not> (\<exists>r. fst (fst (smtp_rate_limit_check_check 7 demo_context
       (run_rate_limit [(1, demo_context), (3, demo_context)] (smtp_rate_limit_check_new 1 1 9 9 4)))) = COReject r)"
  using rate_limit_counts_window [of "[(1, demo_context), (5, demo_context)]" 7 demo_context 4 1 1 9 9]
    rate_limit_counts_window [of "[(1, demo_context), (3, demo_context)]" 7 demo_context 4 1 1 9 9]
  by (simp add: attempts_of_def)

end
