(* ===== verification/Antispam_Postdata.thy ===== *)
theory Antispam_Postdata
  imports Antispam_Predata Utf8 "HOL-Library.Char_ord" "HOL-Library.List_Lexorder"
begin

text \<open>
  The checks of the spam filter that run on the whole message (\<^verbatim>\<open>postdata/*.rs\<close>), in the order of
  the code.  A check collects contributions in a tally with the running severity.
\<close>

section \<open>Context and tally\<close>

record message_context =
  mc_envelope :: envelope_context
  mc_raw_message :: str

type_synonym post_result = "check_outcome \<times> score_contribution list"
type_synonym tally = "real \<times> score_contribution list"

definition tally_empty :: tally where
  "tally_empty = (0, [])"

text \<open>\<^verbatim>\<open>total_severity += score; contributions.push(..)\<close>\<close>

definition push :: "str \<Rightarrow> check_category \<Rightarrow> real \<Rightarrow> str \<Rightarrow> tally \<Rightarrow> tally" where
  "push name category score description = (\<lambda>(total_severity, contributions).
     (total_severity + score, contributions @ [contribution name category score description]))"

definition push_if :: "bool \<Rightarrow> str \<Rightarrow> check_category \<Rightarrow> real \<Rightarrow> str \<Rightarrow> tally \<Rightarrow> tally" where
  "push_if b name category score description t = (if b then push name category score description t else t)"

text \<open>The end of most checks: nothing found, or a hit that counts the issues.\<close>

definition conclude :: "str \<Rightarrow> tally \<Rightarrow> post_result" where
  "conclude label = (\<lambda>(total_severity, contributions).
     if contributions = [] then (COPass, contributions)
     else (COHit total_severity (show_nat (length contributions) @ label), contributions))"

text \<open>The header section and what the checks take as the body: the first and the second piece between
  blank lines.\<close>

definition header_section :: "str \<Rightarrow> str" where
  "header_section raw = hd (split_str (CRLF @ CRLF) raw)"

definition body_section :: "str \<Rightarrow> str" where
  "body_section raw = (case split_str (CRLF @ CRLF) raw of _ # b # _ \<Rightarrow> b | _ \<Rightarrow> [])"

section \<open>Authentication\<close>

definition dkim_check :: "mail_libs \<Rightarrow> real \<Rightarrow> message_context \<Rightarrow> post_result" where
  "dkim_check ml weight ctx =
     (if \<not> ml_parse_auth ml (mc_raw_message ctx) then (COSkip ''Failed to parse message for DKIM'', [])
      else let result = ml_verify_dkim ml (mc_raw_message ctx);
               any_pass = (DkimPass \<in> set result); any_fail = (DkimFail \<in> set result)
           in if any_fail \<and> \<not> any_pass
              then (COHit (weight * 1) ''DKIM fail'',
                    [contribution ''dkim'' Authentication (weight * 1) ''DKIM signature verification failed''])
              else if \<not> any_pass \<and> \<not> any_fail
              then (COHit (weight * (2 / 10)) ''No DKIM signature'',
                    [contribution ''dkim'' Authentication (weight * (2 / 10)) ''No DKIM signature present''])
              else (COPass, []))"

definition arc_check :: "mail_libs \<Rightarrow> real \<Rightarrow> message_context \<Rightarrow> post_result" where
  "arc_check ml weight ctx =
     (if \<not> ml_parse_auth ml (mc_raw_message ctx) then (COSkip ''Failed to parse message for ARC'', [])
      else case ml_verify_arc ml (mc_raw_message ctx) of
             DkimFail \<Rightarrow> (COHit (weight * (5 / 10)) ''ARC fail'',
               [contribution ''arc'' Authentication (weight * (5 / 10)) ''ARC chain validation failed''])
           | _ \<Rightarrow> (COPass, []))"

record dmarc_check =
  dm_weight :: real
  dm_honor_reject_policy :: bool

definition dmarc_check_check :: "mail_libs \<Rightarrow> dmarc_check \<Rightarrow> message_context \<Rightarrow> post_result" where
  "dmarc_check_check ml c ctx =
     (let raw = mc_raw_message ctx; env = mc_envelope ctx in
      if \<not> ml_parse_auth ml raw then (COSkip ''Failed to parse message for DMARC'', [])
      else let domain = (case rsplit_once (CHR ''@'') (ec_mail_from env) of
                           Some (_, d) \<Rightarrow> trim_end_char (CHR ''>'') d | None \<Rightarrow> []);
               dkim_result = ml_verify_dkim ml raw;
               spf_result = ml_verify_spf ml (ec_client_ip env) (ec_helo_domain env) domain (ec_mail_from env);
               (dmarc_dkim, dmarc_spf, policy_is_reject) = ml_verify_dmarc ml raw dkim_result domain spf_result;
               none = (COHit (dm_weight c * (1 / 10)) (''No DMARC record for '' @ domain),
                       [contribution ''dmarc'' Authentication (dm_weight c * (1 / 10)) (''No DMARC record for '' @ domain)])
           in case dmarc_dkim of
                DmarcPass \<Rightarrow> (COPass, [])
              | DmarcFail \<Rightarrow>
                  if dm_honor_reject_policy c \<and> policy_is_reject
                  then (COReject (''DMARC policy reject for '' @ domain),
                        [contribution ''dmarc'' Authentication (dm_weight c)
                           (''DMARC fail with p=reject for '' @ domain)])
                  else (COHit (dm_weight c * (8 / 10)) (''DMARC fail for '' @ domain),
                        [contribution ''dmarc'' Authentication (dm_weight c * (8 / 10)) (''DMARC fail for '' @ domain)])
              | DmarcTempError \<Rightarrow> none
              | DmarcPermError \<Rightarrow> none
              | DmarcNone \<Rightarrow> none)"

section \<open>Content rules\<close>

record content_rule =
  cr_name :: str
  cr_pattern :: str
  cr_severity :: real
  cr_description :: str

record content_check =
  cc_weight :: real
  cc_rules :: "content_rule list"
  cc_subject_multiplier :: real

abbreviation content_rule_of :: "str \<Rightarrow> str \<Rightarrow> real \<Rightarrow> str \<Rightarrow> content_rule" where
  "content_rule_of n p s d \<equiv> \<lparr>cr_name = n, cr_pattern = rx p, cr_severity = s, cr_description = d\<rparr>"

definition default_content_rules :: "content_rule list" where
  "default_content_rules =
    [content_rule_of ''viagra'' ''(?i)~bviagra~b'' (8 / 10) ''Pharmaceutical spam keyword'',
     content_rule_of ''cialis'' ''(?i)~bcialis~b'' (8 / 10) ''Pharmaceutical spam keyword'',
     content_rule_of ''nigerian_prince'' ''(?i)nigerian?~s+(prince|minister|bank)'' 1 ''419 scam pattern'',
     content_rule_of ''million_dollars'' ''(?i)~bmillion~s+(dollars|usd|euro)~b'' (6 / 10) ''Financial scam keyword'',
     content_rule_of ''act_now'' ''(?i)~b(act~s+now|limited~s+time|urgent|expires?~s+today)~b'' (4 / 10)
       ''Urgency spam pattern'',
     content_rule_of ''free_offer'' ''(?i)~b(free~s+offer|congratulations|you~s+(have~s+)?won)~b'' (5 / 10)
       ''Free offer spam pattern'',
     content_rule_of ''click_here'' ''(?i)~bclick~s+here~b'' (3 / 10) ''Click-bait pattern'',
     content_rule_of ''unsubscribe_missing'' ''(?i)~b(buy~s+now|order~s+today|special~s+offer)~b'' (4 / 10)
       ''Commercial spam without opt-out'']"

definition content_check_new :: "real \<Rightarrow> content_check" where
  "content_check_new weight =
     \<lparr>cc_weight = weight, cc_rules = default_content_rules, cc_subject_multiplier = 15 / 10\<rparr>"

definition subject_of :: "str \<Rightarrow> str" where
  "subject_of body_text =
     (case find (\<lambda>l. starts_with (to_lower l) ''subject:'') (lines body_text) of
        Some l \<Rightarrow> trim (drop (length ''subject:'') l) | None \<Rightarrow> [])"

definition apply_content_rule :: "mail_libs \<Rightarrow> content_check \<Rightarrow> str \<Rightarrow> str \<Rightarrow> content_rule \<Rightarrow> tally \<Rightarrow> tally" where
  "apply_content_rule ml c subject body_text r t =
     (if subject \<noteq> [] \<and> ml_is_match ml (cr_pattern r) subject
      then push (''content/'' @ cr_name r) Content (cc_weight c * cr_severity r * cc_subject_multiplier c)
             (cr_description r @ '' (subject match, '' @ show_f1 (cc_subject_multiplier c) @ ''x)'') t
      else push_if (ml_is_match ml (cr_pattern r) body_text) (''content/'' @ cr_name r) Content
             (cc_weight c * cr_severity r) (cr_description r) t)"

definition content_check_check :: "mail_libs \<Rightarrow> content_check \<Rightarrow> message_context \<Rightarrow> post_result" where
  "content_check_check ml c ctx =
     (let body_text = from_utf8_lossy (mc_raw_message ctx)
      in conclude '' content rules matched''
           (fold (apply_content_rule ml c (subject_of body_text) body_text) (cc_rules c) tally_empty))"

section \<open>URLs\<close>

definition EXCESSIVE_URL_THRESHOLD :: nat where
  "EXCESSIVE_URL_THRESHOLD = 15"

definition url_re :: str where
  "url_re = rx ''https?://([a-zA-Z0-9~-~.]+~.[a-zA-Z]{2,})(?:[/~?~#]|$)''"

record url_analysis_check =
  ua_weight :: real
  ua_surbl_zones :: "str list"

definition extract_domains :: "mail_libs \<Rightarrow> str \<Rightarrow> str list" where
  "extract_domains ml s = remdups_adj (sort (map to_lower (ml_captures ml url_re s)))"

definition check_surbl :: "mail_libs \<Rightarrow> str \<Rightarrow> str \<Rightarrow> bool" where
  "check_surbl ml domain zone = (ml_lookup_ip ml (domain @ ''.'' @ zone) \<noteq> None)"

definition url_analysis_check_check :: "mail_libs \<Rightarrow> url_analysis_check \<Rightarrow> message_context \<Rightarrow> post_result" where
  "url_analysis_check_check ml c ctx =
     (let body_text = from_utf8_lossy (mc_raw_message ctx);
          domains = extract_domains ml body_text;
          url_count = ml_count ml url_re body_text;
          t = push_if (EXCESSIVE_URL_THRESHOLD < url_count) ''url_analysis/excessive'' Content (ua_weight c * (5 / 10))
                (''Excessive URLs: '' @ show_nat url_count @ '' found'') tally_empty
      in conclude '' URL issues found''
           (fold (\<lambda>(domain, zone). push_if (check_surbl ml domain zone) ''url_analysis/surbl'' Reputation
                (ua_weight c * 1) (''Domain '' @ domain @ '' listed in '' @ zone))
              (List.product domains (ua_surbl_zones c)) t))"

section \<open>Attachments\<close>

definition double_ext_re :: str where
  "double_ext_re = rx ''(?i)~.~w{2,4}~.(exe|scr|bat|cmd|ps1|vbs|js|msi|dll|hta|pif|com|cpl|wsf|wsh)$''"

record attachment_check =
  ac_weight :: real
  ac_dangerous_extensions :: "str list"

definition check_magic_bytes :: "str \<Rightarrow> str \<Rightarrow> bool" where
  "check_magic_bytes content_type data =
     (if length data < 4 then True
      else let mime_lower = to_lower content_type in
        if contains mime_lower ''pdf'' then starts_with data ''%PDF''
        else if contains mime_lower ''zip'' \<or> contains mime_lower ''x-zip'' then starts_with data ''PK''
        else if contains mime_lower ''png'' then starts_with data [CHR 0x89, CHR 0x50, CHR 0x4E, CHR 0x47]
        else if contains mime_lower ''jpeg'' \<or> contains mime_lower ''jpg''
          then starts_with data [CHR 0xFF, CHR 0xD8, CHR 0xFF]
        else if contains mime_lower ''gif'' then starts_with data ''GIF8''
        else \<not> (\<not> contains mime_lower ''executable'' \<and> \<not> contains mime_lower ''x-msdos'' \<and>
                \<not> contains mime_lower ''x-msdownload'' \<and> starts_with data ''MZ''))"

definition check_attachment :: "mail_libs \<Rightarrow> attachment_check \<Rightarrow> mime_attachment \<Rightarrow> tally \<Rightarrow> tally" where
  "check_attachment ml c = (\<lambda>(name, ctype, body) t.
     let filename = (case name of Some n \<Rightarrow> n | None \<Rightarrow> []);
         content_type_str = (case ctype of Some ct \<Rightarrow> ct | None \<Rightarrow> []);
         ext_lower = to_lower (rsplit_first (CHR ''.'') filename);
         t1 = push_if (ext_lower \<in> set (ac_dangerous_extensions c)) ''attachment/dangerous_ext'' Content
                (ac_weight c * 1) (''Dangerous extension: .'' @ ext_lower @ '' in '' @ filename) t;
         t2 = push_if (ml_is_match ml double_ext_re filename) ''attachment/double_ext'' Content
                (ac_weight c * (12 / 10)) (''Double extension: '' @ filename) t1
     in push_if (content_type_str \<noteq> [] \<and> \<not> check_magic_bytes content_type_str body)
          ''attachment/mime_mismatch'' Content (ac_weight c * (8 / 10))
          (''MIME type mismatch: '' @ filename @ '' declared as '' @ content_type_str) t2)"

definition attachment_check_check :: "mail_libs \<Rightarrow> attachment_check \<Rightarrow> message_context \<Rightarrow> post_result" where
  "attachment_check_check ml c ctx =
     (case ml_attachments ml (mc_raw_message ctx) of
        None \<Rightarrow> (COSkip ''Failed to parse MIME'', [])
      | Some attachments \<Rightarrow>
          conclude '' attachment issues'' (fold (check_attachment ml c) attachments tally_empty))"

section \<open>HTML\<close>

definition extract_html_part :: "str \<Rightarrow> str" where
  "extract_html_part raw =
     (let whole = (if contains raw ''<html'' \<or> contains raw ''<HTML'' then raw else [])
      in case find_sub (to_lower raw) ''content-type: text/html'' of
           None \<Rightarrow> whole
         | Some idx \<Rightarrow>
             (let rest = drop idx raw in
              case find_sub rest (CRLF @ CRLF) of
                None \<Rightarrow> whole
              | Some body_start \<Rightarrow>
                  (let body = drop (body_start + 4) rest in
                   case find_sub body (CRLF @ ''--'') of Some e \<Rightarrow> take e body | None \<Rightarrow> body)))"

definition hidden_style :: "str \<Rightarrow> bool" where
  "hidden_style style =
     list_ex (contains (to_lower style))
       [''display:none'', ''display: none'', ''visibility:hidden'', ''visibility: hidden'', ''font-size:0'', ''font-size: 0'']"

definition html_analysis_check :: "mail_libs \<Rightarrow> real \<Rightarrow> message_context \<Rightarrow> post_result" where
  "html_analysis_check ml weight ctx =
     (let body_text = from_utf8_lossy (mc_raw_message ctx) in
      if \<not> contains body_text ''<html'' \<and> \<not> contains body_text ''<HTML'' \<and> \<not> contains body_text ''text/html''
      then (COSkip ''No HTML content'', [])
      else let html_part = extract_html_part body_text in
        if html_part = [] then (COPass, [])
        else let (styles, imgs, forms) = ml_html ml html_part;
                 hidden = length (filter hidden_style styles);
                 t1 = push_if (0 < hidden) ''html/hidden_text'' Content (weight * (6 / 10))
                        (show_nat hidden @ '' hidden elements'') tally_empty;
                 t2 = push_if (3 < imgs) ''html/image_heavy'' Content (weight * (5 / 10))
                        (show_nat imgs @ '' images in HTML email'') t1
             in conclude '' HTML issues''
                  (push_if (0 < forms) ''html/form'' Content (weight * (8 / 10))
                     (show_nat forms @ '' form element(s) in email'') t2))"

section \<open>Headers\<close>

definition received_ip_re :: str where
  "received_ip_re = rx ''(?i)Received:~s+from~s+~S+~s+~(.*?~[(~d+~.~d+~.~d+~.~d+)~]''"

text \<open>The first private address after a public one, in the order of the header lines.\<close>

fun forged_received :: "bool \<Rightarrow> str list \<Rightarrow> str option" where
  "forged_received seen_public [] = None"
| "forged_received seen_public (ip_str # ips) =
     (case parse_ip ip_str of
        None \<Rightarrow> forged_received seen_public ips
      | Some ip \<Rightarrow>
          if is_private_or_loopback ip \<and> seen_public then Some ip_str
          else forged_received (seen_public \<or> \<not> is_private_or_loopback ip) ips)"

definition has_header :: "str \<Rightarrow> str \<Rightarrow> bool" where
  "has_header header_lower name = (contains header_lower (LF # name) \<or> starts_with header_lower name)"

definition header_analysis_check :: "mail_libs \<Rightarrow> real \<Rightarrow> message_context \<Rightarrow> post_result" where
  "header_analysis_check ml weight ctx =
     (let header = header_section (from_utf8_lossy (mc_raw_message ctx));
          header_lower = to_lower header;
          from_count = length (filter (\<lambda>l. starts_with l ''from:'') (lines header_lower));
          received_ips = ml_captures ml received_ip_re header;
          t1 = push_if (\<not> has_header header_lower ''message-id:'') ''header/missing_message_id'' Header
                 (weight * (5 / 10)) ''Missing Message-ID header'' tally_empty;
          t2 = push_if (\<not> has_header header_lower ''date:'') ''header/missing_date'' Header
                 (weight * (6 / 10)) ''Missing Date header'' t1;
          t3 = push_if (1 < from_count) ''header/multiple_from'' Header (weight * 1)
                 (''Multiple From headers ('' @ show_nat from_count @ '')'') t2;
          t4 = (if 1 < length received_ips
                then case forged_received False received_ips of
                       Some ip_str \<Rightarrow> push ''header/forged_received'' Header (weight * (4 / 10))
                         (''Suspicious Received chain: private IP '' @ ip_str @ '' after public'') t3
                     | None \<Rightarrow> t3
                else t3)
      in conclude '' header issues'' t4)"

section \<open>Character sets\<close>

definition zero_width_re :: str where
  "zero_width_re = rx ''[~x{200B}~x{200C}~x{200D}~x{FEFF}]''"

definition charset_of_line :: "str \<Rightarrow> str option" where
  "charset_of_line l =
     (if contains l ''charset=''
      then case split_str ''charset='' l of
             _ # s # _ \<Rightarrow> Some (takeWhile (\<lambda>c. c \<noteq> CHR '';'' \<and> c \<noteq> CHR 0x22 \<and> \<not> is_ws c) s)
           | _ \<Rightarrow> None
      else None)"

definition charset_check :: "mail_libs \<Rightarrow> real \<Rightarrow> message_context \<Rightarrow> post_result" where
  "charset_check ml weight ctx =
     (let raw = from_utf8_lossy (mc_raw_message ctx);
          header_lower = to_lower (header_section raw);
          charsets = filter (\<lambda>s. s \<noteq> []) (List.map_filter charset_of_line (lines header_lower));
          unique_charsets = remdups charsets;
          t1 = push_if (1 < length unique_charsets) ''charset/mixed'' Content (weight * (5 / 10))
                 (''Mixed charsets: '' @ ml_debug_set ml unique_charsets) tally_empty;
          body = body_section raw;
          zw_count = ml_count ml zero_width_re body;
          t2 = push_if (3 < zw_count) ''charset/zero_width'' Content (weight * (7 / 10))
                 (show_nat zw_count @ '' zero-width characters found'') t1
      in conclude '' charset issues''
           (push_if (contains header_lower ''content-transfer-encoding: base64'' \<and>
                     list_all (\<lambda>b. byte b < 128) body \<and> 100 < length body)
              ''charset/unnecessary_b64'' Content (weight * (3 / 10))
              ''Unnecessary Base64 encoding of ASCII text'' t2))"

section \<open>Bulk mail\<close>

definition bulk_precedence :: "str \<Rightarrow> bool" where
  "bulk_precedence header_lower =
     list_ex (\<lambda>l. starts_with l ''precedence:'' \<and> (contains l ''bulk'' \<or> contains l ''junk'' \<or> contains l ''list''))
       (lines header_lower)"

definition bulk_detection_check :: "real \<Rightarrow> message_context \<Rightarrow> post_result" where
  "bulk_detection_check weight ctx =
     (let header_lower = to_lower (header_section (from_utf8_lossy (mc_raw_message ctx)));
          is_bulk_precedence = bulk_precedence header_lower;
          has_list_unsub = contains header_lower ''list-unsubscribe:'';
          has_list_id = contains header_lower ''list-id:'';
          t1 = (if is_bulk_precedence \<and> \<not> has_list_unsub
                then push ''bulk/no_unsubscribe'' Content (weight * (6 / 10))
                       ''Bulk Precedence header without List-Unsubscribe'' tally_empty
                else push_if is_bulk_precedence ''bulk/precedence'' Content (weight * (1 / 10))
                       ''Bulk Precedence header present'' tally_empty)
      in conclude '' bulk indicators''
           (push_if (has_list_unsub \<and> \<not> has_list_id) ''bulk/no_list_id'' Content (weight * (2 / 10))
              ''List-Unsubscribe without List-ID'' t1))"

section \<open>Ratios\<close>

definition link_re :: str where "link_re = rx ''(?i)<a~s''"
definition img_tag_re :: str where "img_tag_re = rx ''(?i)<img~s''"

text \<open>The number of letters, digits and white space among the characters of valid text.\<close>

function text_chars :: "mail_libs \<Rightarrow> str \<Rightarrow> nat" where
  "text_chars ml [] = 0"
| "text_chars ml (c # s) =
     (let ch = fst (next_char (c # s)) in
      (if (if byte c < 128 then is_ascii_alphanumeric c \<or> is_ws c else ml_unicode_text ml ch) then 1 else 0) +
      text_chars ml (snd (next_char (c # s))))"
  by pat_completeness auto
termination
  by (relation "measure (\<lambda>(_, s). length s)") (auto simp: less_Suc_eq_le length_dropWhile_le)

definition ratio_analysis_check :: "mail_libs \<Rightarrow> real \<Rightarrow> message_context \<Rightarrow> post_result" where
  "ratio_analysis_check ml weight ctx =
     (let body = body_section (from_utf8_lossy (mc_raw_message ctx));
          text_len = text_chars ml body;
          link_count = ml_count ml link_re body;
          link_density = real link_count / (real text_len / 100);
          img_count = ml_count ml img_tag_re body;
          html_tag_count = count_list body (CHR ''<'');
          tag_ratio = real html_tag_count / real text_len;
          t1 = push_if (0 < text_len \<and> 0 < link_count \<and> 5 < link_density) ''ratio/link_density'' Content
                 (weight * (5 / 10)) (''High link density: '' @ show_f1 link_density @ '' links per 100 chars'') tally_empty;
          t2 = push_if (0 < img_count \<and> text_len < 50) ''ratio/image_heavy'' Content (weight * (6 / 10))
                 (show_nat img_count @ '' images with only '' @ show_nat text_len @ '' chars of text'') t1
      in conclude '' ratio issues''
           (push_if (0 < text_len \<and> 1 < tag_ratio \<and> 20 < html_tag_count) ''ratio/html_heavy'' Content
              (weight * (3 / 10)) (''High HTML-to-text ratio: '' @ show_f1 tag_ratio) t2))"

section \<open>Virus scanners\<close>

record scanner_def =
  sd_name :: str
  sd_command :: str
  sd_clean_exit_codes :: "int list"
  sd_virus_exit_codes :: "int list"
  sd_virus_name_pattern :: "str option"

record antivirus_check =
  av_weight :: real
  av_reject_on_virus :: bool
  av_scanners :: "scanner_def list"

datatype scan_result = ScanClean | ScanVirus str | ScanError str

definition run_scanner :: "mail_libs \<Rightarrow> str \<Rightarrow> str \<Rightarrow> scanner_def \<Rightarrow> scan_result" where
  "run_scanner ml raw file_str scanner =
     (case split_whitespace (replace (sd_command scanner) ''{file}'' file_str) of
        [] \<Rightarrow> ScanError ''empty scanner command''
      | program # args \<Rightarrow>
          (case ml_command ml program args raw of
             Inl e \<Rightarrow> ScanError (''failed to run scanner: '' @ e)
           | Inr (code, output) \<Rightarrow>
               (let exit_code = (case code of Some c \<Rightarrow> c | None \<Rightarrow> - 1) in
                if exit_code \<in> set (sd_clean_exit_codes scanner) then ScanClean
                else if exit_code \<in> set (sd_virus_exit_codes scanner)
                then let stdout = from_utf8_lossy output
                     in ScanVirus
                          (case sd_virus_name_pattern scanner of
                             Some pattern \<Rightarrow> (case ml_first_capture ml pattern stdout of Some v \<Rightarrow> v | None \<Rightarrow> ''unknown'')
                           | None \<Rightarrow> (case lines stdout of l # _ \<Rightarrow> l | [] \<Rightarrow> ''unknown''))
                else ScanError (''scanner exited with code '' @ show_int exit_code))))"

definition antivirus_check_check :: "mail_libs \<Rightarrow> antivirus_check \<Rightarrow> message_context \<Rightarrow> post_result" where
  "antivirus_check_check ml c ctx =
     (if av_scanners c = [] then (COSkip ''No AV scanners configured'', [])
      else case ml_temp_file ml (mc_raw_message ctx) of
             TempCreateFailed \<Rightarrow> (COSkip ''temp file creation failed'', [])
           | TempWriteFailed \<Rightarrow> (COSkip ''temp file write failed'', [])
           | TempFile tmp_path \<Rightarrow>
               (let results = map (run_scanner ml (mc_raw_message ctx) tmp_path) (av_scanners c);
                    virus_found = list_ex (\<lambda>r. case r of ScanVirus _ \<Rightarrow> True | _ \<Rightarrow> False) results;
                    (total_severity, contributions) =
                      fold (\<lambda>r. push_if (case r of ScanVirus _ \<Rightarrow> True | _ \<Rightarrow> False) ''antivirus'' Content
                              (av_weight c * 1) ''Virus detected'') results tally_empty
                in if virus_found \<and> av_reject_on_virus c then (COReject ''Message rejected'', contributions)
                   else if contributions = [] then (COPass, contributions)
                   else (COHit total_severity ''Content rejected'', contributions)))"

section \<open>Any message check\<close>

datatype post_check =
    DkimCheck real
  | ArcCheck real
  | DmarcCheck dmarc_check
  | ContentCheck content_check
  | UrlAnalysisCheck url_analysis_check
  | AttachmentCheck attachment_check
  | HtmlAnalysisCheck real
  | HeaderAnalysisCheck real
  | CharsetCheck real
  | BulkDetectionCheck real
  | RatioAnalysisCheck real
  | AntivirusCheck antivirus_check

fun post_check_run :: "mail_libs \<Rightarrow> message_context \<Rightarrow> post_check \<Rightarrow> post_result" where
  "post_check_run ml ctx (DkimCheck w) = dkim_check ml w ctx"
| "post_check_run ml ctx (ArcCheck w) = arc_check ml w ctx"
| "post_check_run ml ctx (DmarcCheck c) = dmarc_check_check ml c ctx"
| "post_check_run ml ctx (ContentCheck c) = content_check_check ml c ctx"
| "post_check_run ml ctx (UrlAnalysisCheck c) = url_analysis_check_check ml c ctx"
| "post_check_run ml ctx (AttachmentCheck c) = attachment_check_check ml c ctx"
| "post_check_run ml ctx (HtmlAnalysisCheck w) = html_analysis_check ml w ctx"
| "post_check_run ml ctx (HeaderAnalysisCheck w) = header_analysis_check ml w ctx"
| "post_check_run ml ctx (CharsetCheck w) = charset_check ml w ctx"
| "post_check_run ml ctx (BulkDetectionCheck w) = bulk_detection_check w ctx"
| "post_check_run ml ctx (RatioAnalysisCheck w) = ratio_analysis_check ml w ctx"
| "post_check_run ml ctx (AntivirusCheck c) = antivirus_check_check ml c ctx"

section \<open>The contract of a message check\<close>

fun post_consistent :: "post_result \<Rightarrow> bool" where
  "post_consistent (COHit severity _, cs) = (cs \<noteq> [] \<and> severity = sum_list (map sc_score cs))"
| "post_consistent (COReject _, cs) = (cs \<noteq> [])"
| "post_consistent (COTempFail _, cs) = False"
| "post_consistent (_, cs) = (cs = [])"

definition tally_ok :: "tally \<Rightarrow> bool" where
  "tally_ok t = (fst t = sum_list (map sc_score (snd t)))"

lemma tally_ok_empty [simp]: "tally_ok tally_empty"
  by (simp add: tally_ok_def tally_empty_def)

lemma tally_ok_push [simp]: "tally_ok t \<Longrightarrow> tally_ok (push n cat s d t)"
  by (simp add: tally_ok_def push_def contribution_def case_prod_unfold)

lemma tally_ok_push_if [simp]: "tally_ok t \<Longrightarrow> tally_ok (push_if b n cat s d t)"
  by (simp add: push_if_def)

lemma tally_ok_fold: "(\<And>x t. tally_ok t \<Longrightarrow> tally_ok (f x t)) \<Longrightarrow> tally_ok t \<Longrightarrow> tally_ok (fold f xs t)"
  by (induction xs arbitrary: t) auto

lemma conclude_consistent: "tally_ok t \<Longrightarrow> post_consistent (conclude label t)"
  by (simp add: tally_ok_def conclude_def case_prod_unfold)

lemma tally_ok_content_rule: "tally_ok t \<Longrightarrow> tally_ok (apply_content_rule ml c s b r t)"
  by (simp add: apply_content_rule_def)

lemma tally_ok_attachment: "tally_ok t \<Longrightarrow> tally_ok (check_attachment ml c a t)"
  by (simp add: check_attachment_def case_prod_unfold Let_def)

lemma push_nonempty: "snd (push n cat s d t) \<noteq> []"
  by (simp add: push_def case_prod_unfold)

lemma fold_push_nonempty:
  "snd t \<noteq> [] \<or> list_ex b rs \<Longrightarrow> snd (fold (\<lambda>r. push_if (b r) n cat s d) rs t) \<noteq> []"
proof (induction rs arbitrary: t)
  case Nil
  then show ?case by simp
next
  case (Cons r rs)
  have "snd (push_if (b r) n cat s d t) \<noteq> [] \<or> list_ex b rs"
    using Cons.prems by (auto simp: push_if_def push_nonempty)
  then show ?case using Cons.IH by simp
qed

lemma antivirus_consistent: "post_consistent (antivirus_check_check ml c ctx)"
proof (cases "ml_temp_file ml (mc_raw_message ctx)")
  case (TempFile p)
  let ?found = "\<lambda>r. case r of ScanVirus _ \<Rightarrow> True | _ \<Rightarrow> False"
  let ?rs = "map (run_scanner ml (mc_raw_message ctx) p) (av_scanners c)"
  let ?t = "fold (\<lambda>r. push_if (?found r) ''antivirus'' Content (av_weight c * 1) ''Virus detected'') ?rs tally_empty"
  have "tally_ok ?t" by (intro tally_ok_fold) simp_all
  moreover have "list_ex ?found ?rs \<Longrightarrow> snd ?t \<noteq> []" by (intro fold_push_nonempty) blast
  ultimately show ?thesis
    using TempFile by (simp add: antivirus_check_check_def Let_def tally_ok_def case_prod_unfold)
qed (simp_all add: antivirus_check_check_def)

lemma post_check_consistent: "post_consistent (post_check_run ml ctx c)"
proof (cases c)
  case (DkimCheck w)
  then show ?thesis by (simp add: dkim_check_def contribution_def Let_def)
next
  case (ArcCheck w)
  then show ?thesis by (simp add: arc_check_def contribution_def split: dkim_result.split)
next
  case (DmarcCheck x)
  then show ?thesis
    by (simp add: dmarc_check_check_def contribution_def Let_def case_prod_unfold split: dmarc_result.split)
next
  case (ContentCheck x)
  then show ?thesis
    by (simp add: content_check_check_def Let_def conclude_consistent tally_ok_fold tally_ok_content_rule)
next
  case (UrlAnalysisCheck x)
  then show ?thesis
    by (simp add: url_analysis_check_check_def Let_def case_prod_unfold conclude_consistent tally_ok_fold)
next
  case (AttachmentCheck x)
  then show ?thesis
    by (simp add: attachment_check_check_def conclude_consistent tally_ok_fold tally_ok_attachment
        split: option.split)
next
  case (HtmlAnalysisCheck w)
  then show ?thesis by (simp add: html_analysis_check_def Let_def case_prod_unfold conclude_consistent)
next
  case (HeaderAnalysisCheck w)
  then show ?thesis by (simp add: header_analysis_check_def Let_def conclude_consistent split: option.split)
next
  case (CharsetCheck w)
  then show ?thesis by (simp add: charset_check_def Let_def conclude_consistent)
next
  case (BulkDetectionCheck w)
  then show ?thesis by (simp add: bulk_detection_check_def Let_def conclude_consistent)
next
  case (RatioAnalysisCheck w)
  then show ?thesis by (simp add: ratio_analysis_check_def Let_def conclude_consistent)
next
  case (AntivirusCheck x)
  then show ?thesis by (simp add: antivirus_consistent)
qed

end
