(* ===== verification/Antispam_Pipeline.thy ===== *)
theory Antispam_Pipeline
  imports Antispam_Postdata "HOL-Library.Multiset"
begin

text \<open>
  The spam filter as a whole: its configuration (\<^verbatim>\<open>AntispamConfig\<close> of \<^verbatim>\<open>schema.rs\<close>), the
  pipeline of checks (\<^verbatim>\<open>pipeline.rs\<close>) and its construction in \<^verbatim>\<open>server.rs\<close>.  The lemmas show that
  the score of a message is the sum of the severities of all hits and that the verdict does not
  depend on the order of the message checks.
\<close>

section \<open>Configuration\<close>

record antispam_list_config =
  alc_ips :: "str list"
  alc_sender_domains :: "str list"
  alc_senders :: "str list"
  alc_recipients :: "str list"

record check_weight_config =
  cw_enabled :: bool
  cw_weight :: real

record residential_sender_config =
  rsc_enabled :: bool
  rsc_reject :: bool
  rsc_weight :: real
  rsc_check_pbl :: bool
  rsc_pbl_zone :: str
  rsc_softfail_triggers :: bool
  rsc_neutral_triggers :: bool

record dnsbl_config =
  dc_enabled :: bool
  dc_weight :: real
  dc_timeout :: str
  dc_lists :: "dnsbl_zone list"

record spf_config =
  sfc_enabled :: bool
  sfc_weight :: real
  sfc_severity :: spf_severity

record smtp_rate_rule =
  srr_max :: u64
  srr_window :: str

record smtp_rate_limit_config =
  srl_enabled :: bool
  srl_weight :: real
  srl_per_ip :: smtp_rate_rule
  srl_per_domain :: smtp_rate_rule
  srl_per_sender :: smtp_rate_rule

record dmarc_config =
  dmc_enabled :: bool
  dmc_weight :: real
  dmc_honor_reject_policy :: bool

record content_check_config =
  ccc_enabled :: bool
  ccc_weight :: real
  ccc_rules_file :: "str option"

record url_analysis_config =
  uac_enabled :: bool
  uac_weight :: real
  uac_surbl_zones :: "str list"

record attachment_config =
  atc_enabled :: bool
  atc_weight :: real
  atc_dangerous_extensions :: "str list"

record scanner_config =
  scc_name :: str
  scc_command :: str
  scc_clean_exit_codes :: "int list"
  scc_virus_exit_codes :: "int list"
  scc_error_exit_codes :: "int list"
  scc_timeout :: str
  scc_virus_name_pattern :: "str option"

record antivirus_config =
  avc_enabled :: bool
  avc_weight :: real
  avc_reject_on_virus :: bool
  avc_scanners :: "scanner_config list"
  avc_on_scanner_error :: str
  avc_on_scanner_timeout :: str

record domain_override =
  do_domain :: str
  do_possible_spam_threshold :: "u8 option"
  do_definite_spam_threshold :: "u8 option"
  do_disabled_checks :: "str list"

record antispam_config =
  asc_enabled :: bool
  asc_possible_spam_threshold :: u8
  asc_definite_spam_threshold :: u8
  asc_max_check_duration :: str
  asc_allow :: antispam_list_config
  asc_block :: antispam_list_config
  asc_dnsbl :: dnsbl_config
  asc_spf :: spf_config
  asc_rdns :: check_weight_config
  asc_residential_spf :: residential_sender_config
  asc_helo :: check_weight_config
  asc_rate_limit :: smtp_rate_limit_config
  asc_early_talker :: check_weight_config
  asc_dkim :: check_weight_config
  asc_dmarc :: dmarc_config
  asc_content :: content_check_config
  asc_url_analysis :: url_analysis_config
  asc_attachment :: attachment_config
  asc_html :: check_weight_config
  asc_header_analysis :: check_weight_config
  asc_charset :: check_weight_config
  asc_bulk :: check_weight_config
  asc_ratio :: check_weight_config
  asc_antivirus :: antivirus_config
  asc_domain_overrides :: "domain_override list"

text \<open>The \<^verbatim>\<open>Default\<close> instances, hand-written or derived as in the source; a derived one takes the default
  of each field's type, not the one a missing field of a configuration file gets.\<close>

definition antispam_list_config_default :: antispam_list_config where
  "antispam_list_config_default = \<lparr>alc_ips = [], alc_sender_domains = [], alc_senders = [], alc_recipients = []\<rparr>"

definition check_weight_config_default :: check_weight_config where
  "check_weight_config_default = \<lparr>cw_enabled = True, cw_weight = 3\<rparr>"

definition residential_sender_config_default :: residential_sender_config where
  "residential_sender_config_default =
     \<lparr>rsc_enabled = True, rsc_reject = True, rsc_weight = 10, rsc_check_pbl = True,
      rsc_pbl_zone = ''pbl.spamhaus.org'', rsc_softfail_triggers = True, rsc_neutral_triggers = False\<rparr>"

definition default_dnsbl_lists :: "dnsbl_zone list" where
  "default_dnsbl_lists =
     [\<lparr>dz_zone = ''zen.spamhaus.org'', dz_weight_multiplier = 2, dz_reject_on_hit = True\<rparr>,
      \<lparr>dz_zone = ''bl.spamcop.net'', dz_weight_multiplier = 1, dz_reject_on_hit = False\<rparr>,
      \<lparr>dz_zone = ''b.barracudacentral.org'', dz_weight_multiplier = 1, dz_reject_on_hit = False\<rparr>,
      \<lparr>dz_zone = ''psbl.surriel.com'', dz_weight_multiplier = 8 / 10, dz_reject_on_hit = False\<rparr>,
      \<lparr>dz_zone = ''dnsbl.sorbs.net'', dz_weight_multiplier = 8 / 10, dz_reject_on_hit = False\<rparr>]"

definition dnsbl_config_default :: dnsbl_config where
  "dnsbl_config_default =
     \<lparr>dc_enabled = True, dc_weight = 8, dc_timeout = ''5s'', dc_lists = default_dnsbl_lists\<rparr>"

definition spf_config_default :: spf_config where
  "spf_config_default = \<lparr>sfc_enabled = True, sfc_weight = 6, sfc_severity = spf_severity_default\<rparr>"

definition smtp_rate_rule_default :: smtp_rate_rule where
  "smtp_rate_rule_default = \<lparr>srr_max = 100, srr_window = ''1h''\<rparr>"

definition smtp_rate_limit_config_default :: smtp_rate_limit_config where
  "smtp_rate_limit_config_default =
     \<lparr>srl_enabled = False, srl_weight = 0, srl_per_ip = smtp_rate_rule_default,
      srl_per_domain = smtp_rate_rule_default, srl_per_sender = smtp_rate_rule_default\<rparr>"

definition dmarc_config_default :: dmarc_config where
  "dmarc_config_default = \<lparr>dmc_enabled = True, dmc_weight = 7, dmc_honor_reject_policy = True\<rparr>"

definition content_check_config_default :: content_check_config where
  "content_check_config_default = \<lparr>ccc_enabled = True, ccc_weight = 5, ccc_rules_file = None\<rparr>"

definition url_analysis_config_default :: url_analysis_config where
  "url_analysis_config_default = \<lparr>uac_enabled = True, uac_weight = 5, uac_surbl_zones = []\<rparr>"

definition default_dangerous_extensions :: "str list" where
  "default_dangerous_extensions =
     [''exe'', ''scr'', ''bat'', ''cmd'', ''ps1'', ''vbs'', ''js'', ''msi'', ''dll'', ''hta'']"

definition attachment_config_default :: attachment_config where
  "attachment_config_default =
     \<lparr>atc_enabled = True, atc_weight = 6, atc_dangerous_extensions = default_dangerous_extensions\<rparr>"

definition antivirus_config_default :: antivirus_config where
  "antivirus_config_default =
     \<lparr>avc_enabled = False, avc_weight = 0, avc_reject_on_virus = False, avc_scanners = [],
      avc_on_scanner_error = [], avc_on_scanner_timeout = []\<rparr>"

definition antispam_config_default :: antispam_config where
  "antispam_config_default =
     \<lparr>asc_enabled = False, asc_possible_spam_threshold = 0, asc_definite_spam_threshold = 0,
      asc_max_check_duration = [],
      asc_allow = antispam_list_config_default, asc_block = antispam_list_config_default,
      asc_dnsbl = dnsbl_config_default, asc_spf = spf_config_default, asc_rdns = check_weight_config_default,
      asc_residential_spf = residential_sender_config_default, asc_helo = check_weight_config_default,
      asc_rate_limit = smtp_rate_limit_config_default, asc_early_talker = check_weight_config_default,
      asc_dkim = check_weight_config_default, asc_dmarc = dmarc_config_default,
      asc_content = content_check_config_default, asc_url_analysis = url_analysis_config_default,
      asc_attachment = attachment_config_default, asc_html = check_weight_config_default,
      asc_header_analysis = check_weight_config_default, asc_charset = check_weight_config_default,
      asc_bulk = check_weight_config_default, asc_ratio = check_weight_config_default,
      asc_antivirus = antivirus_config_default, asc_domain_overrides = []\<rparr>"

record security_profile_antispam =
  spa_enabled :: bool
  spa_possible_spam_threshold :: "u8 option"
  spa_definite_spam_threshold :: "u8 option"
  spa_antivirus :: antivirus_config

text \<open>A security profile by its name and its spam section.\<close>

definition resolve_antispam_for_profile ::
  "antispam_config \<Rightarrow> str option \<Rightarrow> (str \<times> security_profile_antispam option) list \<Rightarrow> antispam_config" where
  "resolve_antispam_for_profile global profile_name profiles =
     (case profile_name of
        None \<Rightarrow> global
      | Some pname \<Rightarrow>
          (case find (\<lambda>p. fst p = pname) profiles of
             Some (_, Some pa) \<Rightarrow>
               global\<lparr>asc_enabled := spa_enabled pa,
                 asc_possible_spam_threshold :=
                   (case spa_possible_spam_threshold pa of Some t \<Rightarrow> t | None \<Rightarrow> asc_possible_spam_threshold global),
                 asc_definite_spam_threshold :=
                   (case spa_definite_spam_threshold pa of Some t \<Rightarrow> t | None \<Rightarrow> asc_definite_spam_threshold global),
                 asc_antivirus := spa_antivirus pa\<rparr>
           | _ \<Rightarrow> global))"

section \<open>The pipeline\<close>

datatype pipeline_decision = PContinue | PAccept | PReject u16 str | PTempFail str

definition DEFAULT_MAX_SCORE :: real where
  "DEFAULT_MAX_SCORE = 50"

record antispam_pipeline =
  ap_config :: antispam_config
  ap_pre_data_checks :: "pre_check list"
  ap_post_data_checks :: "post_check list"

definition antispam_pipeline_empty :: antispam_pipeline where
  "antispam_pipeline_empty =
     \<lparr>ap_config = antispam_config_default, ap_pre_data_checks = [], ap_post_data_checks = []\<rparr>"

text \<open>The loop over the envelope checks: check number \<open>i\<close> reads the clock at \<open>clock i\<close>, and the checks
  are returned with their state.\<close>

fun pre_data_loop ::
  "mail_libs \<Rightarrow> (nat \<Rightarrow> int) \<Rightarrow> nat \<Rightarrow> envelope_context \<Rightarrow> pre_check list \<Rightarrow> spam_score \<Rightarrow> score_contribution list \<Rightarrow>
     (pipeline_decision \<times> spam_score \<times> score_contribution list) \<times> pre_check list" where
  "pre_data_loop ml clock i ctx [] score contributions = ((PContinue, score, contributions), [])"
| "pre_data_loop ml clock i ctx (c # cs) score contributions =
     (let ((outcome, contribution), c') = pre_check_run ml (clock i) ctx c in
      case outcome of
        COReject reason \<Rightarrow> ((PReject 550 reason, score, contributions), c' # cs)
      | COTempFail reason \<Rightarrow> ((PTempFail reason, score, contributions), c' # cs)
      | _ \<Rightarrow>
          (let (r, cs') =
             (case contribution of
                Some x \<Rightarrow> pre_data_loop ml clock (Suc i) ctx cs (spam_score_add 1 (sc_score x) score) (contributions @ [x])
              | None \<Rightarrow> pre_data_loop ml clock (Suc i) ctx cs score contributions)
           in (r, c' # cs')))"

definition run_pre_data ::
  "mail_libs \<Rightarrow> (nat \<Rightarrow> int) \<Rightarrow> envelope_context \<Rightarrow> antispam_pipeline \<Rightarrow>
     (pipeline_decision \<times> spam_score \<times> score_contribution list) \<times> antispam_pipeline" where
  "run_pre_data ml clock ctx p =
     (let (r, cs) = pre_data_loop ml clock 0 ctx (ap_pre_data_checks p) 0 []
      in (r, p\<lparr>ap_pre_data_checks := cs\<rparr>))"

text \<open>The loop over the results of the message checks.\<close>

fun post_data_loop ::
  "post_result list \<Rightarrow> spam_score \<Rightarrow> score_contribution list \<Rightarrow>
     (pipeline_decision, spam_score \<times> score_contribution list) result" where
  "post_data_loop [] score contributions = Inr (score, contributions)"
| "post_data_loop ((outcome, contribs) # rs) score contributions =
     (case outcome of
        COReject reason \<Rightarrow> Inl (PReject 550 reason)
      | COTempFail reason \<Rightarrow> Inl (PTempFail reason)
      | _ \<Rightarrow> post_data_loop rs (fold (\<lambda>c. spam_score_add 1 (sc_score c)) contribs score) (contributions @ contribs))"

text \<open>The thresholds of a sender: the first override of its domain, if it sets them.\<close>

definition find_override :: "antispam_config \<Rightarrow> str \<Rightarrow> domain_override option" where
  "find_override cfg mail_from =
     find (\<lambda>ov. to_lower (do_domain ov) = to_lower (rsplit_first (CHR ''@'') mail_from)) (asc_domain_overrides cfg)"

definition suspect_threshold :: "antispam_config \<Rightarrow> str \<Rightarrow> real" where
  "suspect_threshold cfg mail_from =
     real (unat (case Option.bind (find_override cfg mail_from) do_possible_spam_threshold of
       Some t \<Rightarrow> t | None \<Rightarrow> asc_possible_spam_threshold cfg))"

definition spam_threshold :: "antispam_config \<Rightarrow> str \<Rightarrow> real" where
  "spam_threshold cfg mail_from =
     real (unat (case Option.bind (find_override cfg mail_from) do_definite_spam_threshold of
       Some t \<Rightarrow> t | None \<Rightarrow> asc_definite_spam_threshold cfg))"

definition run_post_data ::
  "mail_libs \<Rightarrow> message_context \<Rightarrow> spam_score \<Rightarrow> score_contribution list \<Rightarrow> authentication_results \<Rightarrow>
     antispam_pipeline \<Rightarrow> (pipeline_decision, spam_report) result" where
  "run_post_data ml ctx pre_score pre_contributions auth_results p =
     (case post_data_loop (map (post_check_run ml ctx) (ap_post_data_checks p)) pre_score pre_contributions of
        Inl d \<Rightarrow> Inl d
      | Inr (score, contributions) \<Rightarrow>
          (let mail_from = ec_mail_from (mc_envelope ctx)
           in Inr \<lparr>sr_score = score,
                sr_verdict = spam_score_verdict DEFAULT_MAX_SCORE (suspect_threshold (ap_config p) mail_from)
                  (spam_threshold (ap_config p) mail_from) score,
                sr_contributions = contributions, sr_auth_results = auth_results\<rparr>))"

section \<open>Construction\<close>

text \<open>Seconds of a duration; the products wrap at 64 bits, as in an optimised build.\<close>

definition smtp_duration_unit :: "str \<Rightarrow> u64 \<Rightarrow> str \<Rightarrow> u64 option" where
  "smtp_duration_unit unit factor s =
     (case strip_suffix s unit of
        Some n \<Rightarrow> map_option (\<lambda>v. of_nat v * factor) (parse_uint 64 n) | None \<Rightarrow> None)"

definition parse_smtp_duration :: "str \<Rightarrow> u64" where
  "parse_smtp_duration s0 =
     (let s = trim s0 in
      case find_map (\<lambda>(unit, factor). smtp_duration_unit unit factor s)
             [(''s'', 1), (''m'', 60), (''h'', 3600), (''d'', 86400)] of
        Some secs \<Rightarrow> secs | None \<Rightarrow> 3600)"

abbreviation when_enabled :: "bool \<Rightarrow> 'a \<Rightarrow> 'a list" where
  "when_enabled b x \<equiv> (if b then [x] else [])"

definition build_pre_checks :: "antispam_config \<Rightarrow> pre_check list" where
  "build_pre_checks config =
     when_enabled (dc_enabled (asc_dnsbl config) \<and> dc_lists (asc_dnsbl config) \<noteq> [])
       (DnsblCheck \<lparr>db_zones = dc_lists (asc_dnsbl config), db_weight = dc_weight (asc_dnsbl config)\<rparr>) @
     when_enabled (sfc_enabled (asc_spf config))
       (SpfCheck \<lparr>sp_weight = sfc_weight (asc_spf config), sp_severity = sfc_severity (asc_spf config)\<rparr>) @
     when_enabled (cw_enabled (asc_rdns config)) (ReverseDnsCheck (cw_weight (asc_rdns config))) @
     (let c = asc_residential_spf config in
      when_enabled (rsc_enabled c)
        (ResidentialSenderCheck \<lparr>rs_weight = rsc_weight c, rs_reject = rsc_reject c, rs_check_pbl = rsc_check_pbl c,
           rs_pbl_zone = rsc_pbl_zone c, rs_softfail_triggers = rsc_softfail_triggers c,
           rs_neutral_triggers = rsc_neutral_triggers c\<rparr>)) @
     when_enabled (cw_enabled (asc_helo config)) (HeloCheck (cw_weight (asc_helo config))) @
     (let c = asc_rate_limit config in
      when_enabled (srl_enabled c)
        (SmtpRateLimitCheck (smtp_rate_limit_check_new (srl_weight c) (srr_max (srl_per_ip c)) (srr_max (srl_per_domain c))
           (srr_max (srl_per_sender c)) (1000 * uint (parse_smtp_duration (srr_window (srl_per_ip c))))))) @
     when_enabled (cw_enabled (asc_early_talker config)) (EarlyTalkerCheck (cw_weight (asc_early_talker config))) @
     [BehaviorCheck (5 / 10)]"

text \<open>A scanner pattern that does not compile is dropped; the parameter says which compile.\<close>

definition build_scanner :: "(str \<Rightarrow> bool) \<Rightarrow> scanner_config \<Rightarrow> scanner_def" where
  "build_scanner compiles s =
     \<lparr>sd_name = scc_name s, sd_command = scc_command s, sd_clean_exit_codes = scc_clean_exit_codes s,
      sd_virus_exit_codes = scc_virus_exit_codes s,
      sd_virus_name_pattern =
        (case scc_virus_name_pattern s of Some p \<Rightarrow> if compiles p then Some p else None | None \<Rightarrow> None)\<rparr>"

definition build_post_checks :: "(str \<Rightarrow> bool) \<Rightarrow> antispam_config \<Rightarrow> post_check list" where
  "build_post_checks compiles config =
     when_enabled (cw_enabled (asc_dkim config)) (DkimCheck (cw_weight (asc_dkim config))) @
     [ArcCheck (5 / 10)] @
     when_enabled (dmc_enabled (asc_dmarc config))
       (DmarcCheck \<lparr>dm_weight = dmc_weight (asc_dmarc config),
          dm_honor_reject_policy = dmc_honor_reject_policy (asc_dmarc config)\<rparr>) @
     when_enabled (ccc_enabled (asc_content config)) (ContentCheck (content_check_new (ccc_weight (asc_content config)))) @
     when_enabled (uac_enabled (asc_url_analysis config))
       (UrlAnalysisCheck \<lparr>ua_weight = uac_weight (asc_url_analysis config),
          ua_surbl_zones = uac_surbl_zones (asc_url_analysis config)\<rparr>) @
     when_enabled (atc_enabled (asc_attachment config))
       (AttachmentCheck \<lparr>ac_weight = atc_weight (asc_attachment config),
          ac_dangerous_extensions = atc_dangerous_extensions (asc_attachment config)\<rparr>) @
     when_enabled (cw_enabled (asc_html config)) (HtmlAnalysisCheck (cw_weight (asc_html config))) @
     when_enabled (cw_enabled (asc_header_analysis config)) (HeaderAnalysisCheck (cw_weight (asc_header_analysis config))) @
     when_enabled (cw_enabled (asc_charset config)) (CharsetCheck (cw_weight (asc_charset config))) @
     when_enabled (cw_enabled (asc_bulk config)) (BulkDetectionCheck (cw_weight (asc_bulk config))) @
     when_enabled (cw_enabled (asc_ratio config)) (RatioAnalysisCheck (cw_weight (asc_ratio config))) @
     (let c = asc_antivirus config in
      when_enabled (avc_enabled c \<and> avc_scanners c \<noteq> [])
        (AntivirusCheck \<lparr>av_weight = avc_weight c, av_reject_on_virus = avc_reject_on_virus c,
           av_scanners = map (build_scanner compiles) (avc_scanners c)\<rparr>))"

definition build_antispam_pipeline :: "(str \<Rightarrow> bool) \<Rightarrow> antispam_config \<Rightarrow> antispam_pipeline" where
  "build_antispam_pipeline compiles config =
     (if \<not> asc_enabled config then antispam_pipeline_empty
      else \<lparr>ap_config = config, ap_pre_data_checks = build_pre_checks config,
            ap_post_data_checks = build_post_checks compiles config\<rparr>)"

definition build_allow_list :: "antispam_config \<Rightarrow> mail_allow_list" where
  "build_allow_list config =
     mail_allow_list_from_config (alc_ips (asc_allow config)) (alc_senders (asc_allow config))
       (alc_sender_domains (asc_allow config))"

definition build_block_list :: "antispam_config \<Rightarrow> mail_block_list" where
  "build_block_list config =
     mail_block_list_from_config (alc_ips (asc_block config)) (alc_senders (asc_block config))
       (alc_sender_domains (asc_block config)) (alc_recipients (asc_block config))"

section \<open>What the pipeline computes\<close>

text \<open>The decision with which a check ends the run, and the severity it reports.\<close>

fun halts :: "check_outcome \<Rightarrow> pipeline_decision option" where
  "halts (COReject reason) = Some (PReject 550 reason)"
| "halts (COTempFail reason) = Some (PTempFail reason)"
| "halts _ = None"

fun hit_severity :: "check_outcome \<Rightarrow> real" where
  "hit_severity (COHit s _) = s"
| "hit_severity _ = 0"

fun pre_outcomes :: "mail_libs \<Rightarrow> (nat \<Rightarrow> int) \<Rightarrow> envelope_context \<Rightarrow> nat \<Rightarrow> pre_check list \<Rightarrow> check_outcome list" where
  "pre_outcomes ml clock ctx i [] = []"
| "pre_outcomes ml clock ctx i (c # cs) =
     fst (fst (pre_check_run ml (clock i) ctx c)) # pre_outcomes ml clock ctx (Suc i) cs"

lemma pre_data_loop_spec:
  "fst (pre_data_loop ml clock i ctx cs score contributions) = (d, s, xs) \<Longrightarrow>
     d = (case find_map halts (pre_outcomes ml clock ctx i cs) of Some d \<Rightarrow> d | None \<Rightarrow> PContinue) \<and>
     s - sum_list (map sc_score xs) = score - sum_list (map sc_score contributions) \<and>
     (d = PContinue \<longrightarrow> s = score + sum_list (map hit_severity (pre_outcomes ml clock ctx i cs)))"
proof (induction cs arbitrary: i score contributions)
  case Nil
  then show ?case by simp
next
  case (Cons c cs)
  obtain out con c' where run: "pre_check_run ml (clock i) ctx c = ((out, con), c')" by (metis prod.collapse)
  have ok: "pre_consistent (out, con)" using pre_check_consistent [of ml "clock i" ctx c] run by simp
  show ?case
  proof (cases out)
    case (COHit sev detail)
    then obtain x where x: "con = Some x" "sc_score x = sev" using ok by (cases con) auto
    then have "fst (pre_data_loop ml clock (Suc i) ctx cs (spam_score_add 1 (sc_score x) score) (contributions @ [x])) = (d, s, xs)"
      using Cons.prems run COHit by (simp add: case_prod_unfold Let_def)
    from Cons.IH [OF this] show ?thesis using run COHit x by (simp add: spam_score_add_def)
  next
    case COPass
    then have "con = None" using ok by (cases con) auto
    then have "fst (pre_data_loop ml clock (Suc i) ctx cs score contributions) = (d, s, xs)"
      using Cons.prems run COPass by (simp add: case_prod_unfold Let_def)
    from Cons.IH [OF this] show ?thesis using run COPass by simp
  next
    case (COSkip r)
    then have "con = None" using ok by (cases con) auto
    then have "fst (pre_data_loop ml clock (Suc i) ctx cs score contributions) = (d, s, xs)"
      using Cons.prems run COSkip by (simp add: case_prod_unfold Let_def)
    from Cons.IH [OF this] show ?thesis using run COSkip by simp
  next
    case (COReject r)
    then show ?thesis using Cons.prems run by auto
  next
    case (COTempFail r)
    then show ?thesis using Cons.prems run by auto
  qed
qed

lemma fold_score: "fold (\<lambda>c. spam_score_add 1 (sc_score c)) cs s = s + sum_list (map sc_score cs)"
  by (induction cs arbitrary: s) (simp_all add: spam_score_add_def)

lemma post_data_loop_spec:
  assumes "\<forall>r \<in> set rs. post_consistent r"
  shows "post_data_loop rs score contributions =
     (case find_map (\<lambda>r. halts (fst r)) rs of
        Some d \<Rightarrow> Inl d
      | None \<Rightarrow> Inr (score + sum_list (map (\<lambda>r. hit_severity (fst r)) rs), contributions @ concat (map snd rs)))"
  using assms
proof (induction rs arbitrary: score contributions)
  case (Cons r rs)
  obtain out cs where r: "r = (out, cs)" by (cases r)
  have ok: "post_consistent (out, cs)" using Cons.prems r by simp
  have IH: "post_data_loop rs a b = (case find_map (\<lambda>r. halts (fst r)) rs of
        Some d \<Rightarrow> Inl d
      | None \<Rightarrow> Inr (a + sum_list (map (\<lambda>r. hit_severity (fst r)) rs), b @ concat (map snd rs)))" for a b
    using Cons by simp
  show ?case using ok by (cases out) (simp_all add: r IH fold_score add.assoc split: option.split)
qed simp

definition post_outcomes :: "mail_libs \<Rightarrow> message_context \<Rightarrow> post_check list \<Rightarrow> check_outcome list" where
  "post_outcomes ml ctx cs = map (\<lambda>c. fst (post_check_run ml ctx c)) cs"

lemma find_map_map: "find_map f (map g xs) = find_map (f \<circ> g) xs"
  by (induction xs) (auto split: option.split)

lemma run_post_data_spec:
  "run_post_data ml ctx s xs auth p =
     (case find_map halts (post_outcomes ml ctx (ap_post_data_checks p)) of
        Some d \<Rightarrow> Inl d
      | None \<Rightarrow>
          let score = s + sum_list (map hit_severity (post_outcomes ml ctx (ap_post_data_checks p)));
              mail_from = ec_mail_from (mc_envelope ctx)
          in Inr \<lparr>sr_score = score,
               sr_verdict = spam_score_verdict DEFAULT_MAX_SCORE (suspect_threshold (ap_config p) mail_from)
                 (spam_threshold (ap_config p) mail_from) score,
               sr_contributions = xs @ concat (map (\<lambda>c. snd (post_check_run ml ctx c)) (ap_post_data_checks p)),
               sr_auth_results = auth\<rparr>)"
proof -
  have "\<forall>r \<in> set (map (post_check_run ml ctx) (ap_post_data_checks p)). post_consistent r"
    by (simp add: post_check_consistent)
  from post_data_loop_spec [OF this] show ?thesis
    by (simp add: run_post_data_def post_outcomes_def find_map_map comp_def Let_def split: option.split)
qed

lemma post_contributions_score:
  assumes "find_map halts (post_outcomes ml ctx cs) = None"
  shows "sum_list (map sc_score (concat (map (\<lambda>c. snd (post_check_run ml ctx c)) cs))) =
     sum_list (map hit_severity (post_outcomes ml ctx cs))"
  using assms
proof (induction cs)
  case (Cons c cs)
  then have rest: "sum_list (map sc_score (concat (map (\<lambda>c. snd (post_check_run ml ctx c)) cs))) =
     sum_list (map hit_severity (post_outcomes ml ctx cs))"
    and halt: "halts (fst (post_check_run ml ctx c)) = None"
    by (simp_all add: post_outcomes_def split: option.splits)
  obtain out xs where r: "post_check_run ml ctx c = (out, xs)" by (cases "post_check_run ml ctx c")
  have "post_consistent (out, xs)" using post_check_consistent [of ml ctx c] r by simp
  then have "sum_list (map sc_score xs) = hit_severity out" using halt r by (cases out) auto
  then show ?case using rest r by (simp add: post_outcomes_def)
qed (simp add: post_outcomes_def)

text \<open>C33. Every check of the filter keeps the contract of its result, whatever the message, the libraries and
  the clock: a check that passes or is skipped contributes nothing, the severity of a hit is the sum of
  the scores it contributes, a rejection names at least one contribution, and only an envelope check
  asks for a retry.\<close>

theorem checks_respect_contract:
  "pre_consistent (fst (pre_check_run ml now env c)) \<and> post_consistent (post_check_run ml ctx d)"
  by (simp add: pre_check_consistent post_check_consistent)


text \<open>Libraries that find nothing but a broken ARC chain, for concrete runs.\<close>

definition demo_libs :: mail_libs where
  "demo_libs = \<lparr>ml_reverse_lookup = (\<lambda>_. Some [''mx.example.'']), ml_lookup_ip = (\<lambda>_. None),
     ml_verify_spf = (\<lambda>_ _ _ _. SpfPass), ml_parse_auth = (\<lambda>_. True), ml_verify_dkim = (\<lambda>_. [DkimPass]),
     ml_verify_arc = (\<lambda>_. DkimFail), ml_verify_dmarc = (\<lambda>_ _ _ _. (DmarcPass, DmarcPass, False)),
     ml_is_match = (\<lambda>_ _. False), ml_count = (\<lambda>_ _. 0), ml_captures = (\<lambda>_ _. []),
     ml_first_capture = (\<lambda>_ _. None), ml_unicode_text = (\<lambda>_. False), ml_attachments = (\<lambda>_. Some []),
     ml_html = (\<lambda>_. ([], 0, 0)), ml_debug_set = (\<lambda>_. []), ml_temp_file = (\<lambda>_. TempCreateFailed),
     ml_command = (\<lambda>_ _ _. Inl [])\<rparr>"

definition demo_filter :: antispam_pipeline where
  "demo_filter =
     \<lparr>ap_config = antispam_config_default\<lparr>asc_possible_spam_threshold := 5, asc_definite_spam_threshold := 80\<rparr>,
      ap_pre_data_checks = [EarlyTalkerCheck 3], ap_post_data_checks = [ArcCheck 4]\<rparr>"

abbreviation demo_talker :: envelope_context where
  "demo_talker \<equiv> demo_context\<lparr>ec_early_talker := True\<rparr>"


section \<open>The order of the message checks\<close>

lemma find_map_None_mset: "mset xs = mset ys \<Longrightarrow> (find_map f xs = None) = (find_map f ys = None)"
  using mset_eq_setD [of xs ys] by (simp add: find_map_None_iff)

lemma sum_list_mset: "mset xs = mset ys \<Longrightarrow> sum_list (map f xs) = (sum_list (map f ys) :: 'b :: comm_monoid_add)"
  using sum_mset_sum_list [of "map f xs"] sum_mset_sum_list [of "map f ys"] by simp

text \<open>The order in which the message checks are listed does not matter: pipelines with the same
  configuration and the same checks in any order both refuse a message, or give it the same score
  and the same verdict.\<close>

theorem check_order_irrelevant:
  assumes "mset (ap_post_data_checks p) = mset (ap_post_data_checks q)" "ap_config p = ap_config q"
  shows "(case run_post_data ml ctx s xs auth p of
       Inl _ \<Rightarrow> \<exists>d. run_post_data ml ctx s xs auth q = Inl d
     | Inr r \<Rightarrow> \<exists>r'. run_post_data ml ctx s xs auth q = Inr r' \<and>
         sr_score r' = sr_score r \<and> sr_verdict r' = sr_verdict r \<and>
         mset (sr_contributions r') = mset (sr_contributions r))"
proof -
  let ?o = "\<lambda>p. post_outcomes ml ctx (ap_post_data_checks p)"
  have o: "mset (?o p) = mset (?o q)" using assms(1) by (simp add: post_outcomes_def)
  have "mset (concat (map f (ap_post_data_checks p))) = mset (concat (map f (ap_post_data_checks q)))"
    for f :: "post_check \<Rightarrow> score_contribution list"
    using sum_list_mset [OF assms(1), of "\<lambda>c. mset (f c)"] by (simp add: mset_concat comp_def)
  then show ?thesis
    using find_map_None_mset [OF o, of halts] sum_list_mset [OF o, of hit_severity] assms(2)
    by (auto simp: run_post_data_spec Let_def split: option.splits)
qed

theorem check_order_irrelevant_witness:
  "case run_post_data demo_libs \<lparr>mc_envelope = demo_context, mc_raw_message = ''hi''\<rparr> 0 []
      authentication_results_default (demo_filter\<lparr>ap_post_data_checks := [ArcCheck 4, DkimCheck 1]\<rparr>) of
     Inl _ \<Rightarrow> False
   | Inr r \<Rightarrow> \<exists>r'. run_post_data demo_libs \<lparr>mc_envelope = demo_context, mc_raw_message = ''hi''\<rparr> 0 []
        authentication_results_default (demo_filter\<lparr>ap_post_data_checks := [DkimCheck 1, ArcCheck 4]\<rparr>) = Inr r' \<and>
      sr_verdict r' = sr_verdict r"
  using check_order_irrelevant [of "demo_filter\<lparr>ap_post_data_checks := [ArcCheck 4, DkimCheck 1]\<rparr>"
      "demo_filter\<lparr>ap_post_data_checks := [DkimCheck 1, ArcCheck 4]\<rparr>" demo_libs
      "\<lparr>mc_envelope = demo_context, mc_raw_message = ''hi''\<rparr>" 0 "[]" authentication_results_default]
  by (auto simp: run_post_data_def demo_libs_def arc_check_def dkim_check_def Let_def)

section \<open>The filter switched off\<close>

text \<open>A filter that is not enabled marks every message as spam: its pipeline has no checks but also the
  derived default thresholds, which are zero, and a score of zero reaches them.\<close>

lemma disabled_filter_is_spam:
  assumes "\<not> asc_enabled cfg"
  shows "run_pre_data ml clock env (build_antispam_pipeline compiles cfg) =
      ((PContinue, 0, []), build_antispam_pipeline compiles cfg) \<and>
    (\<exists>report. run_post_data ml ctx 0 [] auth (build_antispam_pipeline compiles cfg) = Inr report \<and>
       sr_score report = 0 \<and> sr_verdict report = Spam)"
  using assms
  by (simp add: build_antispam_pipeline_def antispam_pipeline_empty_def run_pre_data_def run_post_data_def
      spam_score_verdict_def spam_score_percentage_def DEFAULT_MAX_SCORE_def spam_threshold_def find_override_def
      antispam_config_default_def)

end
