(* ===== verification/Line_Session.thy ===== *)
theory Line_Session
  imports Prelude
begin

text \<open>
  The interface of a server loop over the input of one connection: every turn that leaves the session
  open has consumed input, and the loop repeats turns while the session is open.  The loop then ends
  after at most one turn per byte and one more.  The relay's receiver and the SMTP proxy interpret it.
\<close>

locale line_session =
  fixes is_open :: "'s \<Rightarrow> bool" and input :: "'s \<Rightarrow> str"
    and step :: "'s \<Rightarrow> 'w \<Rightarrow> 's \<times> 'w" and run :: "'s \<Rightarrow> 'w \<Rightarrow> 's \<times> 'w" and turn :: "'s \<times> 'w \<Rightarrow> 's \<times> 'w"
  assumes step_consumes: "step s w = (s', w') \<Longrightarrow> is_open s' \<Longrightarrow> length (input s') < length (input s)"
    and run_unfold: "run s w = (if \<not> is_open s then (s, w) else run (fst (step s w)) (snd (step s w)))"
    and turn_eq: "turn x = (if is_open (fst x) then step (fst x) (snd x) else x)"
begin

lemma turns_closed: "\<not> is_open (fst x) \<Longrightarrow> (turn ^^ n) x = x"
  by (induction n) (simp_all add: turn_eq)

lemma turns_run:
  "(if is_open s then Suc (length (input s)) else 0) \<le> n \<Longrightarrow>
   (turn ^^ n) (s, w) = run s w \<and> \<not> is_open (fst (run s w))"
proof (induction n arbitrary: s w)
  case 0
  then show ?case by (auto simp: run_unfold [of s w] split: if_splits)
next
  case (Suc n)
  show ?case
  proof (cases "is_open s")
    case False
    then show ?thesis using turns_closed [of "(s, w)" "Suc n"] run_unfold [of s w] by simp
  next
    case True
    obtain s' w' where st: "step s w = (s', w')" by (cases "step s w")
    have "(if is_open s' then Suc (length (input s')) else 0) \<le> n"
      using step_consumes [OF st] Suc.prems True by auto
    from Suc.IH [OF this, of w'] show ?thesis
      using True st by (simp add: run_unfold [of s w] funpow_Suc_right turn_eq del: funpow.simps)
  qed
qed

text \<open>Whatever the turns preserve holds when the loop has ended.\<close>

lemma run_invariant:
  assumes "P (s, w)" "\<And>s w. P (s, w) \<Longrightarrow> is_open s \<Longrightarrow> P (step s w)"
  shows "P (run s w)"
proof -
  have "P ((turn ^^ n) (s, w))" for n
  proof (induction n)
    case 0
    show ?case using assms(1) by simp
  next
    case (Suc n)
    then show ?case using assms(2) by (cases "(turn ^^ n) (s, w)") (simp add: turn_eq)
  qed
  then show ?thesis using turns_run [of s "Suc (length (input s))" w] by (metis le_SucI order_refl zero_le)
qed

end

end
