(* ===== verification/Frontend_Config.thy ===== *)
theory Frontend_Config
  imports Access_Control Balancer
begin

text \<open>
  The configuration of a frontend and of the HTTP security settings
  (\<^verbatim>\<open>serverwall-core/src/config/schema.rs\<close>), with the defaults that the schema gives them.
\<close>

section \<open>Enumerations\<close>

datatype protocol_type = PT_Https | PT_Smtps | PT_SmtpStarttls | PT_Imaps | PT_Tcp | PT_Stratum

datatype balance_method = BM_RoundRobin | BM_LeastConnections | BM_IpHash | BM_StickySession

datatype log_format = LF_ApacheCombined | LF_ApacheCustom | LF_Postfix | LF_Protocol | LF_Json

section \<open>Frontends\<close>

record custom_header =
  ch_name :: str
  ch_value :: str

record frontend_headers_config =
  fhc_x_forwarded_for :: bool
  fhc_x_real_ip :: bool
  fhc_x_forwarded_proto :: bool
  fhc_x_forwarded_host :: bool
  fhc_x_forwarded_port :: bool
  fhc_x_request_id :: bool
  fhc_custom :: "custom_header list"

text \<open>The derived \<^verbatim>\<open>Default\<close>, which is what a frontend without a header section gets.\<close>

definition frontend_headers_config_default :: frontend_headers_config where
  "frontend_headers_config_default =
     \<lparr>fhc_x_forwarded_for = False, fhc_x_real_ip = False, fhc_x_forwarded_proto = False,
      fhc_x_forwarded_host = False, fhc_x_forwarded_port = False, fhc_x_request_id = False,
      fhc_custom = []\<rparr>"

record smtp_headers_config =
  shc_add_received :: bool
  shc_x_forwarded_for :: bool

record frontend_config =
  fc_name :: str
  fc_protocol :: protocol_type
  fc_listen :: "str list"
  fc_backend_pool :: str
  fc_tls_cert :: "str option"
  fc_tls_chain :: "str option"
  fc_tls_key :: "str option"
  fc_tls_key_password :: "str option"
  fc_tls_pfx :: "str option"
  fc_tls_pfx_password :: "str option"
  fc_tls_min_version :: str
  fc_tls_ciphers :: "str list"
  fc_balancer :: balance_method
  fc_waf_enabled :: bool
  fc_waf_ruleset :: "str option"
  fc_security_profile :: "str option"
  fc_log_file :: "str option"
  fc_log_format :: log_format
  fc_access_log :: bool
  fc_log_profile :: "str option"
  fc_headers :: frontend_headers_config
  fc_smtp_headers :: smtp_headers_config
  fc_acl :: frontend_acl_config
  fc_max_connections :: "nat option"
  fc_session_cookie :: str

text \<open>A frontend section with only the required keys.\<close>

definition frontend_config_minimal :: "str \<Rightarrow> protocol_type \<Rightarrow> str list \<Rightarrow> str \<Rightarrow> frontend_config" where
  "frontend_config_minimal name protocol listen pool =
     \<lparr>fc_name = name, fc_protocol = protocol, fc_listen = listen, fc_backend_pool = pool,
      fc_tls_cert = None, fc_tls_chain = None, fc_tls_key = None, fc_tls_key_password = None,
      fc_tls_pfx = None, fc_tls_pfx_password = None, fc_tls_min_version = ''1.2'', fc_tls_ciphers = [],
      fc_balancer = BM_RoundRobin, fc_waf_enabled = False, fc_waf_ruleset = None,
      fc_security_profile = None, fc_log_file = None, fc_log_format = LF_ApacheCombined,
      fc_access_log = True, fc_log_profile = None, fc_headers = frontend_headers_config_default,
      fc_smtp_headers = \<lparr>shc_add_received = False, shc_x_forwarded_for = False\<rparr>,
      fc_acl = \<lparr>fac_allow_list = [], fac_block_list = [], fac_default_action = Default_Allow\<rparr>,
      fc_max_connections = None, fc_session_cookie = ''_s''\<rparr>"

section \<open>Security settings\<close>

record bot_detection_config =
  bd_enabled :: bool
  bd_ja3_fingerprint_block_list :: "str list"
  bd_challenge_suspicious :: bool
  bd_known_good_bots :: "str list"
  bd_verify_good_bots :: bool

record cookie_security_config =
  csc_enforce_secure_flag :: bool
  csc_enforce_httponly_flag :: bool
  csc_enforce_samesite :: "str option"
  csc_max_cookie_size :: nat

record security_headers_config =
  shd_add_x_content_type_options :: bool
  shd_add_x_frame_options :: "str option"
  shd_add_referrer_policy :: "str option"
  shd_add_content_security_policy :: "str option"
  shd_remove_server_header :: bool
  shd_remove_x_powered_by :: bool
  shd_compress_responses :: bool
  shd_compress_min_size :: nat
  shd_compress_types :: "str list"

definition default_compress_types :: "str list" where
  "default_compress_types =
     [''text/html'', ''text/css'', ''text/javascript'', ''text/plain'', ''text/xml'',
      ''application/javascript'', ''application/json'', ''application/xml'', ''image/svg+xml'']"

definition security_headers_config_default :: security_headers_config where
  "security_headers_config_default =
     \<lparr>shd_add_x_content_type_options = False, shd_add_x_frame_options = None,
      shd_add_referrer_policy = None, shd_add_content_security_policy = None,
      shd_remove_server_header = True, shd_remove_x_powered_by = True,
      shd_compress_responses = False, shd_compress_min_size = 1024,
      shd_compress_types = default_compress_types\<rparr>"

definition bot_detection_config_default :: bot_detection_config where
  "bot_detection_config_default =
     \<lparr>bd_enabled = False, bd_ja3_fingerprint_block_list = [], bd_challenge_suspicious = False,
      bd_known_good_bots = [], bd_verify_good_bots = False\<rparr>"

definition cookie_security_config_default :: cookie_security_config where
  "cookie_security_config_default =
     \<lparr>csc_enforce_secure_flag = False, csc_enforce_httponly_flag = False, csc_enforce_samesite = None,
      csc_max_cookie_size = 0\<rparr>"

end
