(* ===== verification/Smtp_Proxy.thy ===== *)
theory Smtp_Proxy
  imports Antispam_Pipeline Protocols Line_Session Frontend_Config
begin

text \<open>
  The SMTP proxy (\<^verbatim>\<open>proxy/smtp_proxy.rs\<close>) in front of a mail server: a session is a state machine over
  the bytes of the client, which runs the spam filter on every message and forwards what passes over a
  new connection to the backend.  A backend is the bytes it will send.  Writes succeed; a line that is
  not UTF-8 is a read error.  The pipeline, whose rate limiter has a state, is shared by all sessions.
\<close>

section \<open>State\<close>

datatype smtp_state =
    StConnected | StBannerSent | StHeloReceived | StMailFrom | StRcptTo | StData | StProxying | StQuit

text \<open>The fields of \<^verbatim>\<open>SmtpProxy\<close> that do not change, and what a session uses of its surroundings: the
  libraries of the filter, the times of the checks and the date of the \<open>k\<close>-th evaluation, and the bytes
  the backend sends on the connection made then (\<open>None\<close> when it cannot be reached).\<close>

record smtp_proxy =
  sx_backend_addr :: socket_addr
  sx_backend_tag :: str
  sx_allow_list :: mail_allow_list
  sx_block_list :: mail_block_list
  sx_hostname :: str
  sx_ja3_fingerprint :: "str option"
  sx_smtp_headers :: smtp_headers_config
  sx_libs :: mail_libs
  sx_clock :: "nat \<Rightarrow> nat \<Rightarrow> int"
  sx_date :: "nat \<Rightarrow> str"
  sx_backend :: "nat \<Rightarrow> str option"

record proxy_session =
  px_peer :: ip_addr
  px_state :: smtp_state
  px_input :: str
  px_output :: str
  px_mail_from :: str
  px_rcpt_to :: "str list"
  px_helo_domain :: str
  px_early_talker :: bool
  px_connect_time :: int
  px_banner_sent_time :: int
  px_command_count :: u32
  px_allowed :: bool
  px_bytes_from_client :: u64
  px_bytes_from_backend :: u64
  px_open :: bool
  px_error :: bool

text \<open>What is logged of a transaction, apart from time, process and a random identifier.\<close>

record smtp_log_entry =
  le_hostname :: str
  le_sender :: str
  le_recipient :: str
  le_relay :: str
  le_spam_score :: real
  le_status :: str
  le_detail :: str

text \<open>A message that was handed to the backend, with the context it was judged in and the bytes that
  were written.\<close>

record forwarded_message =
  fw_envelope :: envelope_context
  fw_message :: str
  fw_report :: spam_report
  fw_allowed :: bool
  fw_eval :: nat
  fw_pipeline :: antispam_pipeline
  fw_written :: str

record proxy_world =
  pw_pipeline :: antispam_pipeline
  pw_evaluated :: nat
  pw_forwarded :: "forwarded_message list"
  pw_log :: "smtp_log_entry list"

section \<open>Forwarding\<close>

record backend_conn =
  bc_in :: str
  bc_out :: str
  bc_bytes :: u64

type_synonym 'a backend_io = "backend_conn \<Rightarrow> 'a option \<times> backend_conn"

definition bk_bind :: "'a backend_io \<Rightarrow> ('a \<Rightarrow> 'b backend_io) \<Rightarrow> 'b backend_io" where
  "bk_bind m f c = (case m c of (None, c') \<Rightarrow> (None, c') | (Some a, c') \<Rightarrow> f a c')"

definition bk_return :: "'a \<Rightarrow> 'a backend_io" where
  "bk_return a c = (Some a, c)"

definition bk_write :: "str \<Rightarrow> unit backend_io" where
  "bk_write bytes c = (Some (), c\<lparr>bc_out := bc_out c @ bytes\<rparr>)"

definition bk_read :: "str backend_io" where
  "bk_read c =
     (case read_line (bc_in c) of
        (l, r) \<Rightarrow> if \<not> utf8_valid l then (None, c\<lparr>bc_in := r\<rparr>)
                  else (Some l, c\<lparr>bc_in := r, bc_bytes := bc_bytes c + of_nat (length l)\<rparr>))"

text \<open>The lines of the EHLO reply, up to the end of the stream or a line with a blank as fourth byte.\<close>

function read_ehlo :: "unit backend_io" where
  "read_ehlo c =
     (case bk_read c of
        (None, c') \<Rightarrow> (None, c')
      | (Some resp, c') \<Rightarrow>
          if bc_in c = [] \<or> (4 \<le> length resp \<and> resp ! 3 = CHR '' '') then (Some (), c') else read_ehlo c')"
  by pat_completeness auto
termination
  by (relation "measure (length \<circ> bc_in)")
    (auto simp: bk_read_def split: prod.splits if_splits dest: read_line_shrinks)

declare read_ehlo.simps [simp del]

primrec forward_rcpts :: "str list \<Rightarrow> unit backend_io" where
  "forward_rcpts [] = bk_return ()"
| "forward_rcpts (rcpt # rcpts) =
     bk_bind (bk_write (''RCPT TO:<'' @ rcpt @ ''>'' @ CRLF)) (\<lambda>_.
     bk_bind bk_read (\<lambda>_. forward_rcpts rcpts))"

definition injected_headers :: "smtp_proxy \<Rightarrow> str \<Rightarrow> spam_report \<Rightarrow> ip_addr \<Rightarrow> (str \<times> str) list" where
  "injected_headers sx date report client_ip =
     (if shc_add_received (sx_smtp_headers sx)
      then [(''Received'', ''Received: from unknown by '' @ sx_hostname sx @ '' (id='' @ sx_backend_tag sx @ ''); '' @ date)]
      else []) @
     (if shc_x_forwarded_for (sx_smtp_headers sx) then [(''X-Forwarded-For'', ip_to_string client_ip)] else []) @
     (case sr_verdict report of
        Suspect \<Rightarrow> build_headers report (sx_hostname sx)
      | Clean \<Rightarrow> [(''Authentication-Results'', auth_results_value (sx_hostname sx) (sr_auth_results report))]
      | Spam \<Rightarrow> [])"

definition header_bytes :: "(str \<times> str) list \<Rightarrow> str" where
  "header_bytes hs = concat (map (\<lambda>(name, value). name @ '': '' @ value @ CRLF) hs)"

definition forward_conversation ::
  "smtp_proxy \<Rightarrow> str \<Rightarrow> str \<Rightarrow> str \<Rightarrow> str list \<Rightarrow> spam_report \<Rightarrow> ip_addr \<Rightarrow> str backend_io" where
  "forward_conversation sx date message_data mail_from rcpt_to report client_ip =
     bk_bind bk_read (\<lambda>_.
     bk_bind (bk_write (''EHLO '' @ sx_hostname sx @ CRLF)) (\<lambda>_.
     bk_bind read_ehlo (\<lambda>_.
     bk_bind (bk_write (''MAIL FROM:<'' @ mail_from @ ''>'' @ CRLF)) (\<lambda>_.
     bk_bind bk_read (\<lambda>_.
     bk_bind (forward_rcpts rcpt_to) (\<lambda>_.
     bk_bind (bk_write (''DATA'' @ CRLF)) (\<lambda>_.
     bk_bind bk_read (\<lambda>_.
     bk_bind (bk_write (header_bytes (injected_headers sx date report client_ip))) (\<lambda>_.
     bk_bind (bk_write message_data) (\<lambda>_.
     bk_bind (bk_write (CRLF @ ''.'' @ CRLF)) (\<lambda>_.
     bk_bind bk_read (\<lambda>resp.
     bk_bind (bk_write (''QUIT'' @ CRLF)) (\<lambda>_. bk_return resp)))))))))))))"

text \<open>The reply of the backend with the number of bytes it sent, or an error; and the bytes written to it.\<close>

definition forward_to_backend ::
  "smtp_proxy \<Rightarrow> nat \<Rightarrow> str \<Rightarrow> str \<Rightarrow> str list \<Rightarrow> spam_report \<Rightarrow> ip_addr \<Rightarrow> (str \<times> u64) option \<times> str" where
  "forward_to_backend sx k message_data mail_from rcpt_to report client_ip =
     (case sx_backend sx k of
        None \<Rightarrow> (None, [])
      | Some bytes \<Rightarrow>
          (case forward_conversation sx (sx_date sx k) message_data mail_from rcpt_to report client_ip
                  \<lparr>bc_in = bytes, bc_out = [], bc_bytes = 0\<rparr> of
             (None, c) \<Rightarrow> (None, bc_out c)
           | (Some resp, c) \<Rightarrow> (Some (resp, bc_bytes c), bc_out c)))"

section \<open>Commands\<close>

definition respond :: "str \<Rightarrow> proxy_session \<Rightarrow> proxy_session" where
  "respond resp s =
     s\<lparr>px_output := px_output s @ resp, px_bytes_from_backend := px_bytes_from_backend s + of_nat (length resp)\<rparr>"

abbreviation answer :: "str \<Rightarrow> proxy_session \<Rightarrow> proxy_session" where
  "answer text \<equiv> respond (text @ CRLF)"

text \<open>The client connects.  \<^verbatim>\<open>fill_buf\<close> returns when the client has sent something or has closed its side,
  so the flag says whether it ever sends anything.\<close>

definition proxy_open :: "smtp_proxy \<Rightarrow> ip_addr \<Rightarrow> int \<Rightarrow> str \<Rightarrow> proxy_session" where
  "proxy_open sx peer now input =
     (respond (''220 '' @ sx_hostname sx @ '' ESMTP'' @ CRLF)
       \<lparr>px_peer = peer, px_state = StConnected, px_input = input, px_output = [], px_mail_from = [], px_rcpt_to = [],
        px_helo_domain = [], px_early_talker = (input \<noteq> []), px_connect_time = now, px_banner_sent_time = now,
        px_command_count = 0, px_allowed = False, px_bytes_from_client = 0, px_bytes_from_backend = 0,
        px_open = True, px_error = False\<rparr>)\<lparr>px_state := StBannerSent\<rparr>"

definition trim_angles :: "str \<Rightarrow> str" where
  "trim_angles s =
     (let angle = (\<lambda>c. c = CHR ''<'' \<or> c = CHR ''>'') in rev (dropWhile angle (rev (dropWhile angle s))))"

definition proxy_ehlo :: "smtp_proxy \<Rightarrow> str \<Rightarrow> proxy_session \<Rightarrow> proxy_session" where
  "proxy_ehlo sx domain s =
     respond (''250-'' @ sx_hostname sx @ CRLF @ ''250-PIPELINING'' @ CRLF @ ''250-SIZE 26214400'' @ CRLF @
        ''250-ENHANCEDSTATUSCODES'' @ CRLF @ ''250 8BITMIME'' @ CRLF)
       (s\<lparr>px_helo_domain := domain, px_state := StHeloReceived\<rparr>)"

definition proxy_mail_from :: "smtp_proxy \<Rightarrow> str \<Rightarrow> proxy_session \<Rightarrow> proxy_session" where
  "proxy_mail_from sx sender s =
     (let s1 = s\<lparr>px_mail_from := trim_angles sender\<rparr> in
      if mail_block_list_matches (sx_block_list sx) (px_peer s) (trim_angles sender)
      then (answer ''550 5.7.1 Sender blocked'' s1)\<lparr>px_state := StQuit, px_open := False\<rparr>
      else answer ''250 2.1.0 Ok'' (s1\<lparr>px_state := StMailFrom\<rparr>))"

definition proxy_rcpt_to :: "smtp_proxy \<Rightarrow> str \<Rightarrow> proxy_session \<Rightarrow> proxy_session" where
  "proxy_rcpt_to sx recipient s =
     (let addr = trim_angles recipient in
      if mail_block_list_contains_recipient (sx_block_list sx) addr then answer ''550 5.7.1 Recipient blocked'' s
      else answer ''250 2.1.5 Ok''
        (s\<lparr>px_rcpt_to := px_rcpt_to s @ [addr],
           px_allowed := (px_allowed s \<or> mail_allow_list_matches (sx_allow_list sx) (px_peer s) (px_mail_from s)),
           px_state := StRcptTo\<rparr>))"

text \<open>The DATA loop: the message with dot-stuffing removed, the bytes after it and the number of bytes
  read; \<open>None\<close> is a read error.\<close>

function proxy_read_data :: "str \<Rightarrow> u64 \<Rightarrow> str \<Rightarrow> (str \<times> str \<times> u64) option" where
  "proxy_read_data data_buffer n input =
     (if input = [] then Some (data_buffer, [], n)
      else let data_line = fst (read_line input); rest = snd (read_line input);
               n' = n + of_nat (length data_line)
           in if \<not> utf8_valid data_line then None
              else if data_line = ''.'' @ CRLF \<or> data_line = ''.'' @ [LF] then Some (data_buffer, rest, n')
              else proxy_read_data
                     (data_buffer @ (if starts_with data_line ''..'' then drop 1 data_line else data_line)) n' rest)"
  by pat_completeness auto
termination
  by (relation "measure (\<lambda>(_, _, input). length input)") (auto simp: read_line_shrinks)

declare proxy_read_data.simps [simp del]

definition session_envelope :: "smtp_proxy \<Rightarrow> proxy_session \<Rightarrow> envelope_context" where
  "session_envelope sx s =
     \<lparr>ec_client_ip = px_peer s, ec_helo_domain = px_helo_domain s, ec_mail_from = px_mail_from s,
      ec_rcpt_to = px_rcpt_to s, ec_early_talker = px_early_talker s, ec_connect_time = px_connect_time s,
      ec_banner_sent_time = px_banner_sent_time s, ec_command_count = px_command_count s,
      ec_pipelining_detected = False, ec_ja3_fingerprint = sx_ja3_fingerprint sx\<rparr>"

definition log_smtp_session :: "smtp_proxy \<Rightarrow> proxy_session \<Rightarrow> real \<Rightarrow> str \<Rightarrow> str \<Rightarrow> proxy_world \<Rightarrow> proxy_world" where
  "log_smtp_session sx s spam_score status detail w =
     w\<lparr>pw_log := pw_log w @
        [\<lparr>le_hostname = sx_hostname sx, le_sender = px_mail_from s,
          le_recipient = (case px_rcpt_to s of r # _ \<Rightarrow> r | [] \<Rightarrow> ''<>''),
          le_relay = socket_addr_to_string (sx_backend_addr sx), le_spam_score = spam_score,
          le_status = status, le_detail = detail\<rparr>]\<rparr>"

text \<open>The reset that every outcome of DATA shares.\<close>

definition end_transaction :: "proxy_session \<Rightarrow> proxy_session" where
  "end_transaction s = s\<lparr>px_mail_from := [], px_rcpt_to := [], px_state := StHeloReceived\<rparr>"

text \<open>Hand a message to the backend and pass its reply on.\<close>

definition proxy_forward ::
  "smtp_proxy \<Rightarrow> nat \<Rightarrow> str \<Rightarrow> spam_report \<Rightarrow> bool \<Rightarrow> antispam_pipeline \<Rightarrow> proxy_session \<Rightarrow> proxy_world \<Rightarrow>
     bool \<times> proxy_session \<times> proxy_world" where
  "proxy_forward sx k m report allowed p s w =
     (let s1 = s\<lparr>px_state := StProxying\<rparr>;
          (r, written) = forward_to_backend sx k m (px_mail_from s) (px_rcpt_to s) report (px_peer s);
          w1 = w\<lparr>pw_forwarded := pw_forwarded w @
                  [\<lparr>fw_envelope = session_envelope sx s, fw_message = m, fw_report = report, fw_allowed = allowed,
                    fw_eval = k, fw_pipeline = p, fw_written = written\<rparr>]\<rparr>
      in case r of
           Some (resp_text, b2c) \<Rightarrow>
             (True, respond resp_text (s1\<lparr>px_bytes_from_backend := px_bytes_from_backend s1 + b2c\<rparr>), w1)
         | None \<Rightarrow> (False, answer ''451 4.3.0 Backend unavailable'' s1, w1))"

definition clean_report :: spam_report where
  "clean_report = \<lparr>sr_score = 0, sr_verdict = Clean, sr_contributions = [],
     sr_auth_results = authentication_results_default\<rparr>"

text \<open>The message checks and what follows from their report.\<close>

definition proxy_post_data ::
  "smtp_proxy \<Rightarrow> nat \<Rightarrow> str \<Rightarrow> spam_score \<Rightarrow> score_contribution list \<Rightarrow> antispam_pipeline \<Rightarrow> proxy_session \<Rightarrow> proxy_world \<Rightarrow>
     proxy_session \<times> proxy_world" where
  "proxy_post_data sx k m pre_score pre_contribs p s w =
     (case run_post_data (sx_libs sx) \<lparr>mc_envelope = session_envelope sx s, mc_raw_message = m\<rparr> pre_score pre_contribs
             authentication_results_default (pw_pipeline w) of
        Inl (PReject code reason) \<Rightarrow>
          (answer (show_nat (unat code) @ '' 5.7.1 '' @ reason) s, log_smtp_session sx s 0 ''rejected'' reason w)
      | Inl (PTempFail reason) \<Rightarrow> (answer (''451 4.7.1 '' @ reason) s, w)
      | Inl _ \<Rightarrow> (s, w)
      | Inr report \<Rightarrow>
          (if sr_verdict report = Spam
           then (answer ''550 5.7.1 Message rejected as spam'' s,
                 log_smtp_session sx s (sr_score report) ''rejected'' ''spam'' w)
           else let (delivered, s', w') = proxy_forward sx k m report False p s w
                in (s', if delivered
                        then log_smtp_session sx s (sr_score report)
                               (if sr_verdict report = Suspect then ''suspect'' else ''sent'') ''delivered'' w'
                        else w')))"

text \<open>The evaluation of a complete message.\<close>

definition proxy_message :: "smtp_proxy \<Rightarrow> str \<Rightarrow> proxy_session \<Rightarrow> proxy_world \<Rightarrow> proxy_session \<times> proxy_world" where
  "proxy_message sx m s w =
     (let k = pw_evaluated w;
          ((pre_decision, pre_score, pre_contribs), p') =
            run_pre_data (sx_libs sx) (sx_clock sx k) (session_envelope sx s) (pw_pipeline w);
          w1 = w\<lparr>pw_pipeline := p', pw_evaluated := Suc k\<rparr>
      in case pre_decision of
           PReject code reason \<Rightarrow>
             (end_transaction (answer (show_nat (unat code) @ '' 5.7.1 '' @ reason) s),
              log_smtp_session sx s pre_score ''rejected'' reason w1)
         | PTempFail reason \<Rightarrow> (end_transaction (answer (''451 4.7.1 '' @ reason) s), w1)
         | _ \<Rightarrow>
             if px_allowed s
             then let (_, s', w') = proxy_forward sx k m clean_report True (pw_pipeline w) s w1
                  in (end_transaction s', w')
             else let (s', w') = proxy_post_data sx k m pre_score pre_contribs (pw_pipeline w) s w1
                  in ((end_transaction s')\<lparr>px_allowed := False\<rparr>, w'))"

definition proxy_data :: "smtp_proxy \<Rightarrow> proxy_session \<Rightarrow> proxy_world \<Rightarrow> proxy_session \<times> proxy_world" where
  "proxy_data sx s w =
     (if px_state s \<noteq> StRcptTo \<and> px_state s \<noteq> StMailFrom
      then (answer ''503 5.5.1 Bad sequence of commands'' s, w)
      else let s1 = answer ''354 End data with <CR><LF>.<CR><LF>'' (s\<lparr>px_state := StData\<rparr>) in
        case proxy_read_data [] 0 (px_input s) of
          None \<Rightarrow> (s1\<lparr>px_input := [], px_open := False, px_error := True\<rparr>, w)
        | Some (m, rest, n) \<Rightarrow>
            proxy_message sx m (s1\<lparr>px_input := rest, px_bytes_from_client := px_bytes_from_client s1 + n\<rparr>) w)"

definition proxy_rset :: "proxy_session \<Rightarrow> proxy_session" where
  "proxy_rset s =
     answer ''250 2.0.0 Ok''
       (s\<lparr>px_mail_from := [], px_rcpt_to := [], px_allowed := False,
          px_state := (if px_state s \<noteq> StBannerSent \<and> px_state s \<noteq> StConnected then StHeloReceived else px_state s)\<rparr>)"

definition proxy_command ::
  "smtp_proxy \<Rightarrow> smtp_command \<Rightarrow> proxy_session \<Rightarrow> proxy_world \<Rightarrow> proxy_session \<times> proxy_world" where
  "proxy_command sx cmd s w =
     (case cmd of
        Ehlo domain \<Rightarrow> (proxy_ehlo sx domain s, w)
      | Helo domain \<Rightarrow> (proxy_ehlo sx domain s, w)
      | StartTls \<Rightarrow> (answer ''454 4.7.0 TLS not available'' s, w)
      | MailFrom sender \<Rightarrow> (proxy_mail_from sx sender s, w)
      | RcptTo recipient \<Rightarrow> (proxy_rcpt_to sx recipient s, w)
      | Data \<Rightarrow> proxy_data sx s w
      | Rset \<Rightarrow> (proxy_rset s, w)
      | Noop \<Rightarrow> (answer ''250 2.0.0 Ok'' s, w)
      | Quit \<Rightarrow> ((answer ''221 2.0.0 Bye'' s)\<lparr>px_state := StQuit, px_open := False\<rparr>, w)
      | _ \<Rightarrow> (answer ''502 5.5.2 Command not recognized'' s, w))"

definition proxy_turn :: "smtp_proxy \<Rightarrow> proxy_session \<Rightarrow> proxy_world \<Rightarrow> proxy_session \<times> proxy_world" where
  "proxy_turn sx s w =
     (if px_input s = [] then (s\<lparr>px_open := False\<rparr>, w)
      else case read_line (px_input s) of
             (line, rest) \<Rightarrow>
               if \<not> utf8_valid line then (s\<lparr>px_input := [], px_open := False, px_error := True\<rparr>, w)
               else proxy_command sx (parse_command line)
                      (s\<lparr>px_input := rest, px_bytes_from_client := px_bytes_from_client s + of_nat (length line),
                         px_command_count := px_command_count s + 1\<rparr>) w)"

section \<open>The command loop\<close>

lemma respond_simps [simp]:
  "px_peer (respond r s) = px_peer s" "px_state (respond r s) = px_state s" "px_input (respond r s) = px_input s"
  "px_mail_from (respond r s) = px_mail_from s" "px_rcpt_to (respond r s) = px_rcpt_to s"
  "px_early_talker (respond r s) = px_early_talker s" "px_allowed (respond r s) = px_allowed s"
  "px_open (respond r s) = px_open s"
  by (simp_all add: respond_def)

lemma end_transaction_simps [simp]:
  "px_peer (end_transaction s) = px_peer s" "px_input (end_transaction s) = px_input s"
  "px_mail_from (end_transaction s) = []" "px_rcpt_to (end_transaction s) = []"
  "px_early_talker (end_transaction s) = px_early_talker s" "px_allowed (end_transaction s) = px_allowed s"
  "px_open (end_transaction s) = px_open s" "px_state (end_transaction s) = StHeloReceived"
  by (simp_all add: end_transaction_def)

text \<open>What no step of a transaction changes.\<close>

definition same_client :: "proxy_session \<Rightarrow> proxy_session \<Rightarrow> bool" where
  "same_client s s' \<longleftrightarrow> px_peer s' = px_peer s \<and> px_input s' = px_input s \<and>
     px_early_talker s' = px_early_talker s \<and> px_allowed s' = px_allowed s \<and> px_open s' = px_open s"

lemma proxy_forward_same: "proxy_forward sx k m r a p s w = (b, s', w') \<Longrightarrow> same_client s s'"
  by (auto simp: proxy_forward_def same_client_def Let_def split: prod.splits option.splits)

lemma proxy_post_data_same: "proxy_post_data sx k m sc xs p s w = (s', w') \<Longrightarrow> same_client s s'"
  by (auto simp: proxy_post_data_def Let_def same_client_def
      split: sum.splits pipeline_decision.splits if_splits prod.splits
      dest: proxy_forward_same [unfolded same_client_def])

lemma proxy_message_session:
  assumes "proxy_message sx m s w = (s', w')"
  shows "px_peer s' = px_peer s \<and> px_input s' = px_input s \<and> px_early_talker s' = px_early_talker s \<and>
    px_mail_from s' = [] \<and> px_rcpt_to s' = [] \<and> px_open s' = px_open s \<and> (px_allowed s' \<longrightarrow> px_allowed s)"
  using assms
  by (auto simp: proxy_message_def Let_def
      split: prod.splits pipeline_decision.splits if_splits
      dest: proxy_forward_same [unfolded same_client_def] proxy_post_data_same [unfolded same_client_def])

lemma proxy_read_data_rest: "proxy_read_data acc n input = Some (m, r, n') \<Longrightarrow> length r \<le> length input"
proof (induction acc n input rule: proxy_read_data.induct)
  case (1 acc n input)
  show ?case
  proof (cases "input = []")
    case True
    then show ?thesis using 1(2) by (simp add: proxy_read_data.simps)
  next
    case False
    have "length (snd (read_line input)) < length input" using False by (rule read_line_shrinks)
    with 1 False show ?thesis
      by (subst (asm) (2) proxy_read_data.simps) (fastforce simp: Let_def split: if_splits)
  qed
qed

lemma proxy_command_session:
  assumes "proxy_command sx cmd s w = (s', w')"
  shows "length (px_input s') \<le> length (px_input s) \<and> px_peer s' = px_peer s \<and>
    px_early_talker s' = px_early_talker s \<and> (px_open s' \<longrightarrow> px_open s)"
proof (cases "cmd = Data")
  case False
  with assms show ?thesis
    by (auto simp: proxy_command_def proxy_ehlo_def proxy_mail_from_def proxy_rcpt_to_def proxy_rset_def Let_def
        split: smtp_command.splits if_splits)
next
  case True
  with assms have "proxy_data sx s w = (s', w')" by (simp add: proxy_command_def)
  then show ?thesis
    by (fastforce simp: proxy_data_def Let_def dest: proxy_read_data_rest proxy_message_session
        split: if_splits option.splits)
qed

lemma proxy_turn_session:
  assumes "proxy_turn sx s w = (s', w')"
  shows "px_open s' \<Longrightarrow> length (px_input s') < length (px_input s) \<and> px_open s"
    and "px_peer s' = px_peer s" "px_early_talker s' = px_early_talker s"
proof -
  let ?line = "fst (read_line (px_input s))"
  let ?s = "s\<lparr>px_input := snd (read_line (px_input s)),
      px_bytes_from_client := px_bytes_from_client s + of_nat (length ?line), px_command_count := px_command_count s + 1\<rparr>"
  consider "px_input s = []" | "px_input s \<noteq> []" "\<not> utf8_valid ?line"
    | "px_input s \<noteq> []" "proxy_command sx (parse_command ?line) ?s w = (s', w')"
    using assms by (fastforce simp: proxy_turn_def split: prod.splits if_splits)
  then have "(px_open s' \<longrightarrow> length (px_input s') < length (px_input s) \<and> px_open s) \<and>
      px_peer s' = px_peer s \<and> px_early_talker s' = px_early_talker s"
  proof cases
    case 3
    from proxy_command_session [OF 3(2)] read_line_shrinks [OF 3(1)] show ?thesis by simp
  qed (use assms in \<open>auto simp: proxy_turn_def split: prod.splits\<close>)
  then show "px_open s' \<Longrightarrow> length (px_input s') < length (px_input s) \<and> px_open s"
    and "px_peer s' = px_peer s" "px_early_talker s' = px_early_talker s" by simp_all
qed

function proxy_run :: "smtp_proxy \<Rightarrow> proxy_session \<Rightarrow> proxy_world \<Rightarrow> proxy_session \<times> proxy_world" where
  "proxy_run sx s w =
     (if \<not> px_open s then (s, w) else proxy_run sx (fst (proxy_turn sx s w)) (snd (proxy_turn sx s w)))"
  by pat_completeness auto
termination
proof (relation "measure (\<lambda>(sx, s, w). if px_open s then Suc (length (px_input s)) else 0)", goal_cases)
  case 1
  show ?case by simp
next
  case (2 sx s w)
  then show ?case using proxy_turn_session(1) [of sx s w] by (cases "proxy_turn sx s w") auto
qed

declare proxy_run.simps [simp del]

definition proxy_loop :: "smtp_proxy \<Rightarrow> proxy_session \<times> proxy_world \<Rightarrow> proxy_session \<times> proxy_world" where
  "proxy_loop sx x = (if px_open (fst x) then proxy_turn sx (fst x) (snd x) else x)"

interpretation smtp_loop: line_session px_open px_input "proxy_turn sx" "proxy_run sx" "proxy_loop sx" for sx
  by (unfold_locales, erule (1) proxy_turn_session(1) [THEN conjunct1]) (rule proxy_run.simps proxy_loop_def)+

section \<open>All sessions of a frontend\<close>

text \<open>A connection is accepted, with its own backend and fingerprint, or an open session handles its next
  command.\<close>

inductive proxy_step ::
  "smtp_proxy \<Rightarrow> (smtp_proxy \<times> proxy_session) list \<times> proxy_world \<Rightarrow> (smtp_proxy \<times> proxy_session) list \<times> proxy_world \<Rightarrow> bool"
  for sx where
  Accept: "sx' = sx\<lparr>sx_backend_addr := a, sx_backend_tag := t, sx_ja3_fingerprint := j\<rparr> \<Longrightarrow>
    proxy_step sx (ss, w) (ss @ [(sx', proxy_open sx' peer now input)], w)"
| Command: "i < length ss \<Longrightarrow> ss ! i = (sx', s) \<Longrightarrow> px_open s \<Longrightarrow> proxy_turn sx' s w = (s', w') \<Longrightarrow>
    proxy_step sx (ss, w) (ss[i := (sx', s')], w')"

inductive_cases proxy_stepE: "proxy_step sx st st'"

definition proxy_world_init :: "antispam_pipeline \<Rightarrow> proxy_world" where
  "proxy_world_init p = \<lparr>pw_pipeline = p, pw_evaluated = 0, pw_forwarded = [], pw_log = []\<rparr>"

section \<open>What the proxy forwards\<close>

definition forward_ok :: "smtp_proxy \<Rightarrow> forwarded_message \<Rightarrow> bool" where
  "forward_ok sx f =
     (let env = fw_envelope f in
      (\<forall>r \<in> set (ec_rcpt_to env). \<not> mail_block_list_contains_recipient (sx_block_list sx) r) \<and>
      (ec_mail_from env = [] \<or> \<not> mail_block_list_matches (sx_block_list sx) (ec_client_ip env) (ec_mail_from env)) \<and>
      ec_early_talker env \<and>
      (\<exists>s xs p'. run_pre_data (sx_libs sx) (sx_clock sx (fw_eval f)) env (fw_pipeline f) = ((PContinue, s, xs), p') \<and>
         (if fw_allowed f
          then fw_report f = clean_report \<and> (\<exists>sender. mail_allow_list_matches (sx_allow_list sx) (ec_client_ip env) sender)
          else run_post_data (sx_libs sx) \<lparr>mc_envelope = env, mc_raw_message = fw_message f\<rparr> s xs
                 authentication_results_default p' = Inr (fw_report f) \<and> sr_verdict (fw_report f) \<noteq> Spam)))"

definition session_ok :: "smtp_proxy \<Rightarrow> proxy_session \<Rightarrow> bool" where
  "session_ok sx s \<longleftrightarrow>
     (\<forall>r \<in> set (px_rcpt_to s). \<not> mail_block_list_contains_recipient (sx_block_list sx) r) \<and>
     (px_mail_from s = [] \<or> \<not> mail_block_list_matches (sx_block_list sx) (px_peer s) (px_mail_from s)) \<and>
     (px_allowed s \<longrightarrow> (\<exists>sender. mail_allow_list_matches (sx_allow_list sx) (px_peer s) sender))"

definition forwards_ok :: "smtp_proxy \<Rightarrow> proxy_world \<Rightarrow> bool" where
  "forwards_ok sx w \<longleftrightarrow> (\<forall>f \<in> set (pw_forwarded w). forward_ok sx f)"

lemma log_forwarded [simp]: "pw_forwarded (log_smtp_session sx s sc st d w) = pw_forwarded w"
  by (simp add: log_smtp_session_def)

lemma proxy_forward_forwarded:
  "proxy_forward sx k m r a p s w = (b, s', w') \<Longrightarrow> \<exists>written.
     pw_forwarded w' = pw_forwarded w @
       [\<lparr>fw_envelope = session_envelope sx s, fw_message = m, fw_report = r, fw_allowed = a, fw_eval = k,
         fw_pipeline = p, fw_written = written\<rparr>]"
  by (auto simp: proxy_forward_def Let_def split: prod.splits option.splits)

lemma halts_not_accept: "find_map halts xs \<noteq> Some PAccept"
proof
  assume "find_map halts xs = Some PAccept"
  then obtain x where "halts x = Some PAccept" using find_map_SomeD [of halts xs] by blast
  then show False by (cases x) auto
qed

lemma run_pre_data_not_accept: "run_pre_data ml clock ctx p \<noteq> ((PAccept, s, xs), p')"
proof
  assume "run_pre_data ml clock ctx p = ((PAccept, s, xs), p')"
  then have "fst (pre_data_loop ml clock 0 ctx (ap_pre_data_checks p) 0 []) = (PAccept, s, xs)"
    by (simp add: run_pre_data_def Let_def case_prod_unfold)
  from pre_data_loop_spec [OF this] show False
    using halts_not_accept [of "pre_outcomes ml clock ctx 0 (ap_pre_data_checks p)"]
    by (auto split: option.splits)
qed

lemma session_forward_ok:
  assumes "session_ok sx s" "px_early_talker s"
    and "run_pre_data (sx_libs sx) (sx_clock sx k) (session_envelope sx s) p = ((PContinue, sc, xs), p')"
    and "if a then r = clean_report \<and> px_allowed s
      else run_post_data (sx_libs sx) \<lparr>mc_envelope = session_envelope sx s, mc_raw_message = m\<rparr> sc xs
             authentication_results_default p' = Inr r \<and> sr_verdict r \<noteq> Spam"
  shows "forward_ok sx \<lparr>fw_envelope = session_envelope sx s, fw_message = m, fw_report = r, fw_allowed = a,
    fw_eval = k, fw_pipeline = p, fw_written = x\<rparr>"
  using assms by (auto simp: forward_ok_def session_ok_def session_envelope_def Let_def split: if_splits)

lemma proxy_message_forwards:
  assumes "proxy_message sx m s w = (s', w')" "session_ok sx s" "px_early_talker s" "forwards_ok sx w"
  shows "forwards_ok sx w'"
proof -
  let ?k = "pw_evaluated w"
  obtain d sc xs p' where pre: "run_pre_data (sx_libs sx) (sx_clock sx ?k) (session_envelope sx s) (pw_pipeline w) =
      ((d, sc, xs), p')" by (metis prod.collapse)
  let ?w = "w\<lparr>pw_pipeline := p', pw_evaluated := Suc ?k\<rparr>"
  show ?thesis
  proof (cases d)
    case PContinue
    note pre = pre [unfolded PContinue]
    show ?thesis
    proof (cases "px_allowed s")
      case True
      obtain b s1 where fwd: "proxy_forward sx ?k m clean_report True (pw_pipeline w) s ?w = (b, s1, w')"
        using assms(1) pre True by (auto simp: proxy_message_def Let_def split: prod.splits)
      from session_forward_ok [OF assms(2,3) pre, of True clean_report] True assms(4)
        proxy_forward_forwarded [OF fwd] show ?thesis by (fastforce simp: forwards_ok_def)
    next
      case False
      obtain s1 where post: "proxy_post_data sx ?k m sc xs (pw_pipeline w) s ?w = (s1, w')"
        using assms(1) pre False by (auto simp: proxy_message_def Let_def split: prod.splits)
      show ?thesis
      proof (cases "run_post_data (sx_libs sx) \<lparr>mc_envelope = session_envelope sx s, mc_raw_message = m\<rparr> sc xs
             authentication_results_default p'")
        case (Inl e)
        then have "pw_forwarded w' = pw_forwarded w"
          using post by (auto simp: proxy_post_data_def split: pipeline_decision.splits)
        then show ?thesis using assms(4) by (simp add: forwards_ok_def)
      next
        case (Inr r)
        show ?thesis
        proof (cases "sr_verdict r = Spam")
          case True
          then have "pw_forwarded w' = pw_forwarded w" using post Inr by (auto simp: proxy_post_data_def)
          then show ?thesis using assms(4) by (simp add: forwards_ok_def)
        next
          case notspam: False
          obtain b s2 w2 where fwd: "proxy_forward sx ?k m r False (pw_pipeline w) s ?w = (b, s2, w2)"
            by (metis prod.collapse)
          then have "pw_forwarded w' = pw_forwarded w2"
            using post Inr notspam by (auto simp: proxy_post_data_def Let_def split: if_splits)
          with session_forward_ok [OF assms(2,3) pre, of False r m] Inr notspam assms(4)
            proxy_forward_forwarded [OF fwd] show ?thesis by (fastforce simp: forwards_ok_def)
        qed
      qed
    qed
  next
    case PAccept
    then show ?thesis using pre run_pre_data_not_accept by metis
  qed (use assms(1,4) pre in \<open>auto simp: proxy_message_def forwards_ok_def\<close>)
qed

lemma session_ok_simps [simp]:
  "session_ok sx (respond r s) = session_ok sx s"
  "session_ok sx (s\<lparr>px_state := st\<rparr>) = session_ok sx s"
  "session_ok sx (s\<lparr>px_input := i\<rparr>) = session_ok sx s"
  "session_ok sx (s\<lparr>px_helo_domain := h\<rparr>) = session_ok sx s"
  "session_ok sx (s\<lparr>px_open := b\<rparr>) = session_ok sx s"
  "session_ok sx (s\<lparr>px_error := b\<rparr>) = session_ok sx s"
  "session_ok sx (s\<lparr>px_bytes_from_client := n\<rparr>) = session_ok sx s"
  "session_ok sx (s\<lparr>px_command_count := c\<rparr>) = session_ok sx s"
  by (simp_all add: session_ok_def)

lemma proxy_data_ok:
  assumes "proxy_data sx s w = (s', w')" "session_ok sx s" "px_early_talker s" "forwards_ok sx w"
  shows "session_ok sx s' \<and> forwards_ok sx w'"
proof (cases "(px_state s \<noteq> StRcptTo \<and> px_state s \<noteq> StMailFrom) \<or> proxy_read_data [] 0 (px_input s) = None")
  case True
  then show ?thesis using assms by (auto simp: proxy_data_def Let_def split: if_splits)
next
  case False
  then obtain m r n where "proxy_read_data [] 0 (px_input s) = Some (m, r, n)" by auto
  then obtain s1 where s1: "session_ok sx s1" "px_early_talker s1" "proxy_message sx m s1 w = (s', w')"
    using False assms(1-3) by (fastforce simp: proxy_data_def Let_def)
  from proxy_message_session [OF s1(3)] s1(1) have "session_ok sx s'" by (auto simp: session_ok_def)
  with proxy_message_forwards [OF s1(3,1,2) assms(4)] show ?thesis by simp
qed

lemma proxy_command_ok:
  assumes "proxy_command sx cmd s w = (s', w')" "session_ok sx s" "px_early_talker s" "forwards_ok sx w"
  shows "(px_open s' \<longrightarrow> session_ok sx s') \<and> forwards_ok sx w'"
proof (cases "cmd = Data")
  case True
  then show ?thesis using assms proxy_data_ok [of sx s w s' w'] by (simp add: proxy_command_def)
next
  case False
  then have "w' = w" using assms(1) by (auto simp: proxy_command_def split: smtp_command.splits)
  moreover have "px_open s' \<longrightarrow> session_ok sx s'"
    using assms(1,2) False
    by (auto simp: proxy_command_def proxy_ehlo_def proxy_mail_from_def proxy_rcpt_to_def proxy_rset_def
        session_ok_def Let_def split: smtp_command.splits if_splits)
  ultimately show ?thesis using assms(4) by simp
qed

text \<open>The invariant of a frontend: its sessions use its lists and libraries, and what they know of their
  client is right.\<close>

definition serves :: "smtp_proxy \<Rightarrow> smtp_proxy \<Rightarrow> bool" where
  "serves sx sx' \<longleftrightarrow> sx_allow_list sx' = sx_allow_list sx \<and> sx_block_list sx' = sx_block_list sx \<and>
     sx_libs sx' = sx_libs sx \<and> sx_clock sx' = sx_clock sx"

lemma serves_ok: "serves sx sx' \<Longrightarrow> forwards_ok sx' w = forwards_ok sx w"
  by (simp add: serves_def forwards_ok_def forward_ok_def)

definition proxy_inv :: "smtp_proxy \<Rightarrow> (smtp_proxy \<times> proxy_session) list \<times> proxy_world \<Rightarrow> bool" where
  "proxy_inv sx st \<longleftrightarrow> forwards_ok sx (snd st) \<and>
     (\<forall>(sx', s) \<in> set (fst st). serves sx sx' \<and>
        (px_open s \<longrightarrow> session_ok sx' s \<and> (px_input s = [] \<or> px_early_talker s)))"

lemma proxy_turn_ok:
  assumes "proxy_turn sx s w = (s', w')" "session_ok sx s" "px_input s = [] \<or> px_early_talker s" "forwards_ok sx w"
  shows "(px_open s' \<longrightarrow> session_ok sx s') \<and> forwards_ok sx w'"
proof -
  let ?line = "fst (read_line (px_input s))"
  let ?s = "s\<lparr>px_input := snd (read_line (px_input s)),
      px_bytes_from_client := px_bytes_from_client s + of_nat (length ?line), px_command_count := px_command_count s + 1\<rparr>"
  consider "px_input s = []" | "px_input s \<noteq> []" "\<not> utf8_valid ?line"
    | "px_input s \<noteq> []" "proxy_command sx (parse_command ?line) ?s w = (s', w')"
    using assms(1) by (fastforce simp: proxy_turn_def split: prod.splits if_splits)
  then show ?thesis
  proof cases
    case 3
    then show ?thesis using proxy_command_ok [OF 3(2)] assms(2-4) by simp
  qed (use assms in \<open>auto simp: proxy_turn_def split: prod.splits\<close>)
qed

lemma proxy_inv_step:
  assumes "proxy_step sx st st'" "proxy_inv sx st"
  shows "proxy_inv sx st'"
  using assms(1)
proof cases
  case (Accept sx' a t j ss w peer now input)
  then show ?thesis
    using assms(2) by (auto simp: proxy_inv_def serves_def proxy_open_def session_ok_def respond_def)
next
  case (Command i ss sx' s w s' w')
  have "(sx', s) \<in> set ss" using Command by (metis nth_mem)
  then have inv: "serves sx sx'" "session_ok sx' s" "px_input s = [] \<or> px_early_talker s"
    using assms(2) Command by (auto simp: proxy_inv_def)
  have "forwards_ok sx' w" using assms(2) Command inv(1) by (simp add: proxy_inv_def serves_ok)
  from proxy_turn_ok [OF Command(6) inv(2,3) this]
  have "px_open s' \<longrightarrow> session_ok sx' s'" "forwards_ok sx w'" using inv(1) by (simp_all add: serves_ok)
  moreover have "px_open s' \<longrightarrow> px_early_talker s'"
    using proxy_turn_session [OF Command(6)] inv(3) by auto
  ultimately show ?thesis
    using assms(2) Command inv(1) set_update_subset_insert [of ss i "(sx', s')"]
    by (fastforce simp: proxy_inv_def)
qed

lemma proxy_reachable_inv:
  assumes "(proxy_step sx)\<^sup>*\<^sup>* ([], proxy_world_init p) st"
  shows "proxy_inv sx st"
  using assms
proof induction
  case base
  show ?case by (simp add: proxy_inv_def proxy_world_init_def forwards_ok_def)
next
  case (step st st')
  then show ?case by (blast intro: proxy_inv_step)
qed


text \<open>Every client whose message is judged counts as an early talker: the banner is sent only once the
  client has sent something.\<close>

theorem every_client_talks_early:
  assumes "(proxy_step sx)\<^sup>*\<^sup>* ([], proxy_world_init p) (ss, w)" "f \<in> set (pw_forwarded w)"
  shows "ec_early_talker (fw_envelope f)"
  using proxy_reachable_inv [OF assms(1)] assms(2)
  by (simp add: proxy_inv_def forwards_ok_def forward_ok_def Let_def)

end
