(* ===== verification/Relay_Policy.thy ===== *)
theory Relay_Policy
  imports External_Libs Utf8 Sliding_Window "HOL-Library.AList"
begin

text \<open>
  Who may relay and what they may send: the trusted hosts (\<^verbatim>\<open>trusted_hosts.rs\<close>), the outbound
  policy (\<^verbatim>\<open>outbound_policy/*.rs\<close>) and the store of signing keys
  (\<^verbatim>\<open>dkim/key_store.rs\<close>) of the relay.  A check returns \<open>Inl\<close> the reason of its refusal.
  The rate limiter is the only check with a state; its clock is an argument.
\<close>

section \<open>Trusted hosts\<close>

record trusted_hosts_config =
  thc_hosts :: "str list"
  thc_require_tls :: bool

record 'net trusted_hosts =
  th_networks :: "'net list"
  th_single_ips :: "ip_addr list"
  th_require_tls :: bool

definition add_trusted_host :: "'net cidr_lib \<Rightarrow> 'net trusted_hosts \<Rightarrow> str \<Rightarrow> 'net trusted_hosts" where
  "add_trusted_host lib th e =
     (let trimmed = trim e in
      case net_parse lib trimmed of
        Some network \<Rightarrow> th\<lparr>th_networks := th_networks th @ [network]\<rparr>
      | None \<Rightarrow>
          (case parse_ip trimmed of
             Some ip \<Rightarrow> th\<lparr>th_single_ips := th_single_ips th @ [ip]\<rparr>
           | None \<Rightarrow> th))"

definition trusted_hosts_new :: "'net cidr_lib \<Rightarrow> trusted_hosts_config \<Rightarrow> 'net trusted_hosts" where
  "trusted_hosts_new lib cfg =
     foldl (add_trusted_host lib)
       \<lparr>th_networks = [], th_single_ips = [], th_require_tls = thc_require_tls cfg\<rparr> (thc_hosts cfg)"

definition is_trusted :: "'net cidr_lib \<Rightarrow> 'net trusted_hosts \<Rightarrow> ip_addr \<Rightarrow> bool" where
  "is_trusted lib th ip =
     (if ip \<in> set (th_single_ips th) then True
      else list_ex (\<lambda>network. net_contains lib network ip) (th_networks th))"

section \<open>Outbound policy\<close>

record outbound_policy_config =
  opc_enabled :: bool
  opc_max_message_size :: nat
  opc_max_recipients_per_message :: nat
  opc_allowed_sender_domains :: "str list"
  opc_max_messages_per_domain_per_hour :: u64
  opc_block_dangerous_attachments :: bool
  opc_check_urls :: bool

text \<open>Two defaults: the derived \<^verbatim>\<open>Default\<close>, for a configuration without the section, and the
  per-field defaults of the deserializer, for a section without the fields.\<close>

definition default_max_message_size :: nat where "default_max_message_size = 26214400"
definition default_max_recipients :: nat where "default_max_recipients = 100"
definition default_domain_rate :: u64 where "default_domain_rate = 500"

definition outbound_policy_config_default :: outbound_policy_config where
  "outbound_policy_config_default =
     \<lparr>opc_enabled = False, opc_max_message_size = 0, opc_max_recipients_per_message = 0,
      opc_allowed_sender_domains = [], opc_max_messages_per_domain_per_hour = 0,
      opc_block_dangerous_attachments = False, opc_check_urls = False\<rparr>"

definition outbound_policy_config_empty_section :: outbound_policy_config where
  "outbound_policy_config_empty_section =
     \<lparr>opc_enabled = True, opc_max_message_size = default_max_message_size,
      opc_max_recipients_per_message = default_max_recipients, opc_allowed_sender_domains = [],
      opc_max_messages_per_domain_per_hour = default_domain_rate,
      opc_block_dangerous_attachments = True, opc_check_urls = False\<rparr>"

subsection \<open>Sender domains\<close>

record spf_alignment_check =
  sac_allowed_domains :: "str list"

definition spf_alignment_check_new :: "str list \<Rightarrow> spf_alignment_check" where
  "spf_alignment_check_new allowed_domains = \<lparr>sac_allowed_domains = map to_lower allowed_domains\<rparr>"

definition spf_alignment_check_check :: "spf_alignment_check \<Rightarrow> str \<Rightarrow> (str, unit) result" where
  "spf_alignment_check_check c sender_domain =
     (if sac_allowed_domains c = [] then Inr ()
      else if to_lower sender_domain \<in> set (sac_allowed_domains c) then Inr ()
      else Inl (''sender domain '' @ [CHR 39] @ sender_domain @ [CHR 39] @
                '' is not in allowed_sender_domains''))"

subsection \<open>Number of recipients\<close>

record recipient_limit =
  rl_max_recipients :: nat

definition recipient_limit_new :: "nat \<Rightarrow> recipient_limit" where
  "recipient_limit_new m = \<lparr>rl_max_recipients = m\<rparr>"

definition recipient_limit_check :: "recipient_limit \<Rightarrow> nat \<Rightarrow> (str, unit) result" where
  "recipient_limit_check l n =
     (if rl_max_recipients l < n
      then Inl (''too many recipients: '' @ show_nat n @ '' exceeds limit of '' @
                show_nat (rl_max_recipients l))
      else Inr ())"

subsection \<open>Messages per sender domain and hour\<close>

record outbound_rate_limit =
  orl_max_per_hour :: u64
  orl_counters :: "(str \<times> int list) list"

definition outbound_rate_limit_new :: "u64 \<Rightarrow> outbound_rate_limit" where
  "outbound_rate_limit_new m = \<lparr>orl_max_per_hour = m, orl_counters = []\<rparr>"

definition ONE_HOUR :: int where "ONE_HOUR = 3600 * 1000"

definition retain_last_hour :: "int \<Rightarrow> int list \<Rightarrow> int list" where
  "retain_last_hour now es = (let one_hour_ago = now - ONE_HOUR in filter (\<lambda>ts. one_hour_ago < ts) es)"

definition outbound_rate_limit_check ::
  "int \<Rightarrow> str \<Rightarrow> outbound_rate_limit \<Rightarrow> (str, unit) result \<times> outbound_rate_limit" where
  "outbound_rate_limit_check now sender_domain rl =
     (let key = to_lower sender_domain;
          es = retain_last_hour now (case map_of (orl_counters rl) key of Some e \<Rightarrow> e | None \<Rightarrow> [])
      in if unat (orl_max_per_hour rl) \<le> length es
         then (Inl (''rate limit exceeded for domain '' @ sender_domain @ '': '' @ show_nat (length es) @
                    ''/'' @ show_nat (unat (orl_max_per_hour rl)) @ '' per hour''),
               rl\<lparr>orl_counters := AList.update key es (orl_counters rl)\<rparr>)
         else (Inr (), rl\<lparr>orl_counters := AList.update key (es @ [now]) (orl_counters rl)\<rparr>))"

subsection \<open>Message content\<close>

record outbound_content_policy =
  ocp_dangerous_extensions :: "str list"
  ocp_check_urls :: bool
  ocp_max_message_size :: nat

definition outbound_content_policy_new :: "outbound_policy_config \<Rightarrow> outbound_content_policy" where
  "outbound_content_policy_new cfg =
     \<lparr>ocp_dangerous_extensions =
        (if opc_block_dangerous_attachments cfg
         then [''exe'', ''scr'', ''bat'', ''cmd'', ''ps1'', ''vbs'', ''js'', ''msi'', ''dll'', ''hta'',
               ''pif'', ''com'', ''cpl'', ''wsf'', ''wsh'']
         else []),
      ocp_check_urls = opc_check_urls cfg,
      ocp_max_message_size = opc_max_message_size cfg\<rparr>"

definition dangerous_extension_in :: "str list \<Rightarrow> str \<Rightarrow> str option" where
  "dangerous_extension_in exts line =
     (let lower = to_lower line in
      if contains lower ''filename='' \<or> contains lower ''name=''
      then find (\<lambda>e. contains lower (''.'' @ e)) exts else None)"

definition suspicious_patterns :: "str list" where
  "suspicious_patterns = [''data:text/html'', ''javascript:'', ''.tk/'', ''.ml/'', ''bit.ly/'']"

definition outbound_content_policy_check :: "outbound_content_policy \<Rightarrow> str \<Rightarrow> (str, unit) result" where
  "outbound_content_policy_check p message =
     (if ocp_max_message_size p < length message
      then Inl (''message size '' @ show_nat (length message) @ '' exceeds limit '' @
                show_nat (ocp_max_message_size p))
      else let msg_str = from_utf8_lossy message in
        case (if ocp_dangerous_extensions p \<noteq> []
              then find_map (dangerous_extension_in (ocp_dangerous_extensions p)) (lines msg_str)
              else None) of
          Some e \<Rightarrow> Inl (''dangerous attachment type blocked: .'' @ e)
        | None \<Rightarrow>
            (case (if ocp_check_urls p then find (contains msg_str) suspicious_patterns else None) of
               Some pat \<Rightarrow> Inl (''suspicious URL pattern detected: '' @ pat)
             | None \<Rightarrow> Inr ()))"

subsection \<open>The combined checker\<close>

record outbound_policy_checker =
  pc_rate_limit :: outbound_rate_limit
  pc_content_policy :: outbound_content_policy
  pc_spf_alignment :: spf_alignment_check
  pc_recipient_limit :: recipient_limit

definition outbound_policy_checker_check ::
  "int \<Rightarrow> str \<Rightarrow> nat \<Rightarrow> str \<Rightarrow> outbound_policy_checker \<Rightarrow>
   (str, unit) result \<times> outbound_policy_checker" where
  "outbound_policy_checker_check now sender_domain recipient_count message pc =
     (case spf_alignment_check_check (pc_spf_alignment pc) sender_domain of
        Inl reason \<Rightarrow> (Inl reason, pc)
      | Inr _ \<Rightarrow>
          (case recipient_limit_check (pc_recipient_limit pc) recipient_count of
             Inl reason \<Rightarrow> (Inl reason, pc)
           | Inr _ \<Rightarrow>
               (case outbound_rate_limit_check now sender_domain (pc_rate_limit pc) of
                  (Inl reason, rl) \<Rightarrow> (Inl reason, pc\<lparr>pc_rate_limit := rl\<rparr>)
                | (Inr _, rl) \<Rightarrow>
                    (outbound_content_policy_check (pc_content_policy pc) message,
                     pc\<lparr>pc_rate_limit := rl\<rparr>))))"

text \<open>The checker that \<^verbatim>\<open>build_relay\<close> makes of the configuration.\<close>

definition build_policy :: "outbound_policy_config \<Rightarrow> outbound_policy_checker" where
  "build_policy cfg =
     \<lparr>pc_rate_limit = outbound_rate_limit_new (opc_max_messages_per_domain_per_hour cfg),
      pc_content_policy = outbound_content_policy_new cfg,
      pc_spf_alignment = spf_alignment_check_new (opc_allowed_sender_domains cfg),
      pc_recipient_limit = recipient_limit_new (opc_max_recipients_per_message cfg)\<rparr>"

section \<open>Signing keys\<close>

record dkim_domain_entry =
  dk_domain :: str
  dk_selector :: str
  dk_key_file :: str
  dk_algorithm :: str

definition dkim_key_store_new :: "dkim_domain_entry list \<Rightarrow> (str \<times> dkim_domain_entry) list" where
  "dkim_key_store_new configs =
     foldl (\<lambda>domains cfg. AList.update (to_lower (dk_domain cfg)) cfg domains) [] configs"

definition dkim_lookup :: "(str \<times> dkim_domain_entry) list \<Rightarrow> str \<Rightarrow> dkim_domain_entry option" where
  "dkim_lookup domains domain = map_of domains (to_lower domain)"

section \<open>Which hosts are trusted\<close>

text \<open>An entry of the list trusts an address when it is a network that contains it, or no network and
  the address itself.\<close>

definition entry_trusts :: "'net cidr_lib \<Rightarrow> ip_addr \<Rightarrow> str \<Rightarrow> bool" where
  "entry_trusts lib ip e =
     (case net_parse lib (trim e) of
        Some network \<Rightarrow> net_contains lib network ip
      | None \<Rightarrow> parse_ip (trim e) = Some ip)"

lemma is_trusted_add:
  "is_trusted lib (add_trusted_host lib th e) ip \<longleftrightarrow> is_trusted lib th ip \<or> entry_trusts lib ip e"
  by (auto simp: is_trusted_def add_trusted_host_def entry_trusts_def Let_def
      split: option.split)

lemma is_trusted_new:
  "is_trusted lib (trusted_hosts_new lib cfg) ip \<longleftrightarrow> list_ex (entry_trusts lib ip) (thc_hosts cfg)"
proof -
  have "is_trusted lib (foldl (add_trusted_host lib) th es) ip \<longleftrightarrow>
      is_trusted lib th ip \<or> list_ex (entry_trusts lib ip) es" for th es
    by (induction es arbitrary: th) (auto simp: is_trusted_add)
  then show ?thesis
    by (simp add: trusted_hosts_new_def is_trusted_def)
qed

lemma require_tls_new: "th_require_tls (trusted_hosts_new lib cfg) = thc_require_tls cfg"
proof -
  have "th_require_tls (foldl (add_trusted_host lib) th es) = th_require_tls th" for th es
    by (induction es arbitrary: th) (auto simp: add_trusted_host_def Let_def split: option.split)
  then show ?thesis by (simp add: trusted_hosts_new_def)
qed

section \<open>The hourly limit\<close>

interpretation hour: sliding_window ONE_HOUR retain_last_hour
  by unfold_locales (auto simp: retain_last_hour_def Let_def intro: filter_cong)

text \<open>A sequence of checks, and the accepted ones with the domain they count for.\<close>

fun run_rate_checks ::
  "outbound_rate_limit \<Rightarrow> (int \<times> str) list \<Rightarrow> (int \<times> str) list \<times> outbound_rate_limit" where
  "run_rate_checks rl [] = ([], rl)"
| "run_rate_checks rl ((now, dmn) # reqs) =
     (case outbound_rate_limit_check now dmn rl of
        (Inr _, rl1) \<Rightarrow> (case run_rate_checks rl1 reqs of (acc, rl2) \<Rightarrow> ((now, to_lower dmn) # acc, rl2))
      | (Inl _, rl1) \<Rightarrow> run_rate_checks rl1 reqs)"

abbreviation sent_by :: "str \<Rightarrow> (int \<times> str) list \<Rightarrow> int list" where
  "sent_by d acc \<equiv> map fst (filter (\<lambda>x. snd x = d) acc)"

definition stored :: "outbound_rate_limit \<Rightarrow> str \<Rightarrow> int list" where
  "stored rl d = (case map_of (orl_counters rl) d of Some e \<Rightarrow> e | None \<Rightarrow> [])"

text \<open>The invariant: the stored times of every domain are those accepted in its last hour, and no
  hour holds more than the limit.\<close>

definition rate_inv :: "int \<Rightarrow> (int \<times> str) list \<Rightarrow> outbound_rate_limit \<Rightarrow> bool" where
  "rate_inv s acc rl \<longleftrightarrow>
     (\<forall>d. hour.tracks s (sent_by d acc) (stored rl d) \<and>
          hour.bounded (unat (orl_max_per_hour rl)) (sent_by d acc))"

lemma rate_inv_new: "rate_inv s [] (outbound_rate_limit_new m)"
  by (simp add: rate_inv_def outbound_rate_limit_new_def stored_def hour.tracks_empty hour.bounded_empty)

lemma rate_inv_check [inv_intros]:
  assumes inv: "rate_inv s acc rl" and le: "s \<le> now"
    and chk: "outbound_rate_limit_check now dmn rl = (r, rl')"
  shows "rate_inv now (case r of Inr _ \<Rightarrow> acc @ [(now, to_lower dmn)] | Inl _ \<Rightarrow> acc) rl'"
    and "orl_max_per_hour rl' = orl_max_per_hour rl"
proof -
  let ?k = "to_lower dmn" and ?m = "unat (orl_max_per_hour rl)"
  let ?es = "retain_last_hour now (stored rl ?k)"
  have tr: "hour.tracks now (sent_by d acc) (stored rl d)" for d
    using inv le by (auto simp: rate_inv_def intro: hour.tracks_later)
  have bd: "hour.bounded ?m (sent_by d acc)" for d
    using inv by (simp add: rate_inv_def)
  have pr: "hour.tracks now (sent_by ?k acc) ?es" by (rule hour.tracks_prune [OF tr order_refl])
  show "orl_max_per_hour rl' = orl_max_per_hour rl"
    using chk by (auto simp: outbound_rate_limit_check_def Let_def split: if_splits)
  show "rate_inv now (case r of Inr _ \<Rightarrow> acc @ [(now, ?k)] | Inl _ \<Rightarrow> acc) rl'"
  proof (cases "?m \<le> length ?es")
    case True
    then have "rl' = rl\<lparr>orl_counters := AList.update ?k ?es (orl_counters rl)\<rparr>" "\<exists>e. r = Inl e"
      using chk by (auto simp: outbound_rate_limit_check_def Let_def stored_def)
    then show ?thesis
      using tr bd pr by (auto simp: rate_inv_def stored_def update_conv)
  next
    case False
    then have rl': "rl' = rl\<lparr>orl_counters := AList.update ?k (?es @ [now]) (orl_counters rl)\<rparr>" "r = Inr ()"
      using chk by (auto simp: outbound_rate_limit_check_def Let_def stored_def)
    have "hour.tracks now (sent_by ?k acc @ [now]) (?es @ [now])" by (rule hour.tracks_push [OF pr])
    moreover have "hour.bounded ?m (sent_by ?k acc @ [now])"
      using hour.bounded_push [OF tr bd] False by simp
    ultimately show ?thesis
      using rl' tr bd by (simp add: rate_inv_def stored_def update_conv)
  qed
qed

lemma run_rate_checks_inv:
  assumes "rate_inv s acc0 rl" "sorted (map fst reqs)" "\<forall>t \<in> set (map fst reqs). s \<le> t"
    and "run_rate_checks rl reqs = (acc, rl')"
  shows "\<exists>s'. rate_inv s' (acc0 @ acc) rl' \<and> orl_max_per_hour rl' = orl_max_per_hour rl"
  using assms
proof (induction reqs arbitrary: s acc0 rl acc)
  case Nil
  then show ?case by auto
next
  case (Cons req reqs)
  obtain now dmn where req: "req = (now, dmn)" by (cases req)
  obtain r rl1 where chk: "outbound_rate_limit_check now dmn rl = (r, rl1)"
    by (cases "outbound_rate_limit_check now dmn rl")
  have "s \<le> now" using Cons.prems(3) by (simp add: req)
  note inv = rate_inv_check [OF Cons.prems(1) this chk]
  have later: "sorted (map fst reqs)" "\<forall>t \<in> set (map fst reqs). now \<le> t"
    using Cons.prems(2) by (auto simp: req)
  show ?case
  proof (cases r)
    case (Inl e)
    then show ?thesis
      using Cons.IH [OF _ later, of acc0 rl1 acc] inv Cons.prems(4) chk by (simp add: req)
  next
    case (Inr u)
    then obtain acc1 where acc1: "run_rate_checks rl1 reqs = (acc1, rl')" "acc = (now, to_lower dmn) # acc1"
      using Cons.prems(4) chk by (auto simp: req split: prod.splits)
    then show ?thesis
      using Cons.IH [OF _ later acc1(1), of "acc0 @ [(now, to_lower dmn)]"] inv Inr by simp
  qed
qed

text \<open>The outbound limit holds over every interleaving of sender domains: of the messages a fresh
  limiter accepts for one domain, whatever its letter case, at most the configured number fall into
  any one hour.\<close>

theorem outbound_rate_bound:
  assumes "sorted (map fst reqs)"
  shows "length (filter (\<lambda>(t, d). d = to_lower dmn \<and> now - ONE_HOUR < t \<and> t \<le> now)
           (fst (run_rate_checks (outbound_rate_limit_new m) reqs))) \<le> unat m"
proof -
  let ?acc = "fst (run_rate_checks (outbound_rate_limit_new m) reqs)"
  define s where "s = Min (insert 0 (set (map fst reqs)))"
  have "\<forall>t \<in> set (map fst reqs). s \<le> t" unfolding s_def by (auto intro!: Min_le)
  then have "hour.bounded (unat m) (sent_by (to_lower dmn) ?acc)"
    using run_rate_checks_inv [OF rate_inv_new assms, of s m ?acc]
    by (cases "run_rate_checks (outbound_rate_limit_new m) reqs")
      (auto simp: rate_inv_def outbound_rate_limit_new_def)
  then have "length (filter (\<lambda>t. now - ONE_HOUR < t \<and> t \<le> now) (sent_by (to_lower dmn) ?acc)) \<le> unat m"
    by (simp add: hour.bounded_def)
  moreover have "length (filter (\<lambda>t. now - ONE_HOUR < t \<and> t \<le> now) (sent_by (to_lower dmn) acc)) =
      length (filter (\<lambda>(t, d). d = to_lower dmn \<and> now - ONE_HOUR < t \<and> t \<le> now) acc)" for acc
    by (induction acc) auto
  ultimately show ?thesis by simp
qed

theorem outbound_rate_bound_witness:
  "sorted (map fst [(0 :: int, ''A.b''), (5, ''a.b''), (9, ''c''), (ONE_HOUR, ''a.B'')]) \<and>
   length (filter (\<lambda>(t, d). d = to_lower ''a.b'' \<and> ONE_HOUR - ONE_HOUR < t \<and> t \<le> ONE_HOUR)
     (fst (run_rate_checks (outbound_rate_limit_new 1)
       [(0, ''A.b''), (5, ''a.b''), (9, ''c''), (ONE_HOUR, ''a.B'')]))) \<le> 1"
  using outbound_rate_bound [of "[(0 :: int, ''A.b''), (5, ''a.b''), (9, ''c''), (ONE_HOUR, ''a.B'')]"
      "''a.b''" ONE_HOUR 1]
  by (simp add: ONE_HOUR_def)

section \<open>The policy as a whole\<close>

text \<open>What the policy asks of a message that passes, apart from the hourly limit.\<close>

definition policy_admits :: "outbound_policy_config \<Rightarrow> str \<Rightarrow> nat \<Rightarrow> str \<Rightarrow> bool" where
  "policy_admits cfg sender_domain recipients message \<longleftrightarrow>
     (opc_allowed_sender_domains cfg = [] \<or>
        to_lower sender_domain \<in> set (map to_lower (opc_allowed_sender_domains cfg))) \<and>
     recipients \<le> opc_max_recipients_per_message cfg \<and>
     length message \<le> opc_max_message_size cfg \<and>
     (opc_block_dangerous_attachments cfg \<longrightarrow>
        (\<forall>l \<in> set (lines (from_utf8_lossy message)). contains (to_lower l) ''name='' \<longrightarrow>
           (\<forall>e \<in> {''exe'', ''scr'', ''bat'', ''cmd'', ''ps1'', ''vbs'', ''js'', ''msi'', ''dll'', ''hta'',
                    ''pif'', ''com'', ''cpl'', ''wsf'', ''wsh''}. \<not> contains (to_lower l) (CHR ''.'' # e)))) \<and>
     (opc_check_urls cfg \<longrightarrow>
        (\<forall>p \<in> set suspicious_patterns. \<not> contains (from_utf8_lossy message) p))"

lemma spf_alignment_ok_iff:
  "spf_alignment_check_check (spf_alignment_check_new ds) d = Inr () \<longleftrightarrow>
     ds = [] \<or> to_lower d \<in> set (map to_lower ds)"
  by (simp add: spf_alignment_check_check_def spf_alignment_check_new_def)

lemma contains_name: "contains s ''filename='' \<Longrightarrow> contains s ''name=''"
proof -
  have "sublist ''name='' ''filename=''" by (simp add: sublist_code)
  then show "contains s ''filename='' \<Longrightarrow> contains s ''name=''"
    unfolding contains_def by (rule sublist_order.order_trans)
qed

lemma dangerous_extension_in_None_iff:
  "dangerous_extension_in exts l = None \<longleftrightarrow>
     (contains (to_lower l) ''name='' \<longrightarrow> (\<forall>e \<in> set exts. \<not> contains (to_lower l) (CHR ''.'' # e)))"
  using contains_name [of "to_lower l"] by (auto simp: dangerous_extension_in_def Let_def find_None_iff)

lemma content_policy_ok_iff:
  "outbound_content_policy_check (outbound_content_policy_new cfg) m = Inr () \<longleftrightarrow>
     length m \<le> opc_max_message_size cfg \<and>
     (opc_block_dangerous_attachments cfg \<longrightarrow>
        find_map (dangerous_extension_in (ocp_dangerous_extensions (outbound_content_policy_new cfg)))
          (lines (from_utf8_lossy m)) = None) \<and>
     (opc_check_urls cfg \<longrightarrow> find (contains (from_utf8_lossy m)) suspicious_patterns = None)"
  by (auto simp: outbound_content_policy_check_def outbound_content_policy_new_def Let_def split: option.splits)

lemma policy_check_admits:
  assumes "outbound_policy_checker_check now d n m (build_policy cfg\<lparr>pc_rate_limit := rl\<rparr>) = (Inr (), pc')"
  shows "policy_admits cfg d n m"
    and "\<exists>rl'. outbound_rate_limit_check now d rl = (Inr (), rl') \<and> pc' = build_policy cfg\<lparr>pc_rate_limit := rl'\<rparr>"
proof -
  from assms have 1: "spf_alignment_check_check (spf_alignment_check_new (opc_allowed_sender_domains cfg)) d = Inr ()"
    and 2: "recipient_limit_check (recipient_limit_new (opc_max_recipients_per_message cfg)) n = Inr ()"
    and 3: "outbound_content_policy_check (outbound_content_policy_new cfg) m = Inr ()"
    and 4: "\<exists>rl'. outbound_rate_limit_check now d rl = (Inr (), rl') \<and> pc' = build_policy cfg\<lparr>pc_rate_limit := rl'\<rparr>"
    by (auto simp: outbound_policy_checker_check_def build_policy_def split: sum.splits prod.splits)
  from 4 show "\<exists>rl'. outbound_rate_limit_check now d rl = (Inr (), rl') \<and>
      pc' = build_policy cfg\<lparr>pc_rate_limit := rl'\<rparr>" .
  show "policy_admits cfg d n m"
    using 1 2 3
    unfolding policy_admits_def spf_alignment_ok_iff content_policy_ok_iff find_map_None_iff
      dangerous_extension_in_None_iff find_None_iff
    by (simp add: recipient_limit_check_def recipient_limit_new_def outbound_content_policy_new_def
        split: if_splits)
qed

lemma policy_check_keeps_config:
  assumes "outbound_policy_checker_check now d n m (build_policy cfg\<lparr>pc_rate_limit := rl\<rparr>) = (r, pc')"
  shows "\<exists>rl'. pc' = build_policy cfg\<lparr>pc_rate_limit := rl'\<rparr>"
  using assms by (auto simp: outbound_policy_checker_check_def split: sum.splits prod.splits)

text \<open>Without an outbound policy section the relay refuses every message, since the derived defaults
  set all limits to zero; with an empty section the documented limits hold and an ordinary message
  passes.\<close>

theorem default_policy_rejects:
  "(\<exists>e. fst (outbound_policy_checker_check now d n m (build_policy outbound_policy_config_default)) = Inl e) \<and>
   fst (outbound_policy_checker_check 0 ''b'' 1 ''hi'' (build_policy outbound_policy_config_empty_section)) = Inr ()"
proof
  show "\<exists>e. fst (outbound_policy_checker_check now d n m (build_policy outbound_policy_config_default)) = Inl e"
    by (simp add: outbound_policy_checker_check_def build_policy_def outbound_policy_config_default_def
        spf_alignment_check_check_def spf_alignment_check_new_def recipient_limit_check_def
        recipient_limit_new_def outbound_rate_limit_check_def outbound_rate_limit_new_def
        retain_last_hour_def)
  have l: "lines (from_utf8_lossy ''hi'') = [''hi'']"
    by (simp add: from_utf8_lossy_ascii byte_def lines_def LF_def strip_cr_def)
  have "outbound_content_policy_check (outbound_content_policy_new outbound_policy_config_empty_section) ''hi'' = Inr ()"
    unfolding content_policy_ok_iff l find_map_None_iff
    by (simp add: outbound_policy_config_empty_section_def default_max_message_size_def
        dangerous_extension_in_def contains_def sublist_code)
  then show "fst (outbound_policy_checker_check 0 ''b'' 1 ''hi''
      (build_policy outbound_policy_config_empty_section)) = Inr ()"
    by (simp add: outbound_policy_checker_check_def build_policy_def outbound_policy_config_empty_section_def
        spf_alignment_check_check_def spf_alignment_check_new_def recipient_limit_check_def
        recipient_limit_new_def outbound_rate_limit_check_def outbound_rate_limit_new_def
        retain_last_hour_def default_max_recipients_def default_domain_rate_def)
qed

end
