(* ===== verification/Relay_Queue.thy ===== *)
theory Relay_Queue
  imports Utf8 "HOL-Library.AList"
begin

text \<open>
  The outbound queue of the relay (\<^verbatim>\<open>serverwall-relay/src/queue\<close>): queued messages, the retry
  scheduler and the filesystem spool.  Times and time spans are integers in milliseconds.  The
  constructors of \<^verbatim>\<open>TimeDelta\<close> and the JSON codec of a queued message are arguments.  The spool
  is the list of the files of its directory by name; an environment says which of its reads,
  writes and removals fail.
\<close>

section \<open>Messages\<close>

record envelope =
  env_mail_from :: str
  env_rcpt_to :: "str list"

datatype queue_status = Pending | Active | Deferred | Held

record message_metadata =
  mm_created :: int
  mm_next_retry :: int
  mm_attempts :: u32
  mm_last_error :: "str option"
  mm_status :: queue_status
  mm_size :: nat

record queued_message =
  qm_id :: str
  qm_envelope :: envelope
  qm_metadata :: message_metadata

section \<open>Retry scheduling\<close>

record retry_config =
  rc_intervals :: "str list"
  rc_max_age :: str
  rc_max_attempts :: u32

text \<open>\<^verbatim>\<open>TimeDelta::try_seconds\<close> and its kin, in milliseconds.\<close>

record time_delta_lib =
  td_try_seconds :: "int \<Rightarrow> int option"
  td_try_minutes :: "int \<Rightarrow> int option"
  td_try_hours :: "int \<Rightarrow> int option"
  td_try_days :: "int \<Rightarrow> int option"

definition MS_PER_HOUR :: int where "MS_PER_HOUR = 3600000"
definition MS_PER_DAY :: int where "MS_PER_DAY = 86400000"

text \<open>\<^verbatim>\<open>split_at(s.len() - 1)\<close> panics when the last character takes more than one byte.\<close>

datatype panic = Panic

definition parse_duration :: "time_delta_lib \<Rightarrow> str \<Rightarrow> (panic, int option) result" where
  "parse_duration td s0 =
     (let s = trim s0 in
      if s = [] then Inr None
      else if is_cont (last s) then Inl Panic
      else let num_str = take (length s - 1) s; u = drop (length s - 1) s in
        case parse_i64 num_str of
          None \<Rightarrow> Inr None
        | Some value \<Rightarrow>
            Inr (if u = ''s'' then td_try_seconds td value
                 else if u = ''m'' then td_try_minutes td value
                 else if u = ''h'' then td_try_hours td value
                 else if u = ''d'' then td_try_days td value
                 else None))"

record retry_scheduler =
  rs_intervals :: "int list"
  rs_max_age :: int
  rs_max_attempts :: u32

definition retry_scheduler_new ::
  "time_delta_lib \<Rightarrow> retry_config \<Rightarrow> (panic, retry_scheduler) result" where
  "retry_scheduler_new td cfg =
     bind_result (map_result (parse_duration td) (rc_intervals cfg)) (\<lambda>ivs.
     bind_result (parse_duration td (rc_max_age cfg)) (\<lambda>age.
       Inr \<lparr>rs_intervals = List.map_filter id ivs,
            rs_max_age = (case age of Some a \<Rightarrow> a | None \<Rightarrow> 5 * MS_PER_DAY),
            rs_max_attempts = rc_max_attempts cfg\<rparr>))"

definition retry_delay :: "retry_scheduler \<Rightarrow> u32 \<Rightarrow> int" where
  "retry_delay sch attempt =
     (if unat attempt < length (rs_intervals sch) then rs_intervals sch ! unat attempt
      else if rs_intervals sch = [] then MS_PER_HOUR
      else last (rs_intervals sch))"

definition next_retry_time :: "retry_scheduler \<Rightarrow> int \<Rightarrow> u32 \<Rightarrow> int option" where
  "next_retry_time sch now attempt =
     (if rs_max_attempts sch \<le> attempt then None else Some (now + retry_delay sch attempt))"

definition is_expired :: "retry_scheduler \<Rightarrow> int \<Rightarrow> int \<Rightarrow> bool" where
  "is_expired sch now created = (rs_max_age sch < now - created)"

section \<open>The spool\<close>

text \<open>\<^verbatim>\<open>{:0wX}\<close>: upper-case hexadecimal digits, padded to \<open>w\<close>.\<close>

definition hex_upper :: "nat \<Rightarrow> char" where
  "hex_upper d = (if d < 10 then char_of (48 + d) else char_of (55 + d))"

fun hex_digits :: "nat \<Rightarrow> nat \<Rightarrow> str" where
  "hex_digits 0 n = []"
| "hex_digits (Suc w) n = hex_digits w (n div 16) @ [hex_upper (n mod 16)]"

definition generate_queue_id :: "u64 \<Rightarrow> u16 \<Rightarrow> str" where
  "generate_queue_id ts rand = hex_digits 8 (unat (ucast ts :: u32)) @ hex_digits 4 (unat rand)"

text \<open>The JSON codec of \<^verbatim>\<open>serde_json\<close> for queued messages, and what its documentation promises.\<close>

record queue_json_lib =
  qj_to_string :: "queued_message \<Rightarrow> str option"
  qj_from_slice :: "str \<Rightarrow> queued_message option"

definition queue_json_law :: "queue_json_lib \<Rightarrow> bool" where
  "queue_json_law js \<longleftrightarrow> (\<forall>q. \<exists>s. qj_to_string js q = Some s \<and> qj_from_slice js s = Some q)"

text \<open>Files by name, and an environment of failing operations; a failed write leaves the file as it
  was or with some other content.\<close>

type_synonym spool_fs = "(str \<times> str) list"

datatype write_outcome = Written | WriteFailed "str option"

record io_env =
  io_write :: "str \<Rightarrow> str \<Rightarrow> write_outcome"
  io_read_ok :: "str \<Rightarrow> bool"
  io_remove_ok :: "str \<Rightarrow> bool"
  io_read_dir_ok :: bool

definition io_reliable :: io_env where
  "io_reliable = \<lparr>io_write = (\<lambda>_ _. Written), io_read_ok = (\<lambda>_. True), io_remove_ok = (\<lambda>_. True),
                  io_read_dir_ok = True\<rparr>"

definition fs_write :: "io_env \<Rightarrow> str \<Rightarrow> str \<Rightarrow> spool_fs \<Rightarrow> bool \<times> spool_fs" where
  "fs_write io name data fs =
     (case io_write io name data of
        Written \<Rightarrow> (True, AList.update name data fs)
      | WriteFailed None \<Rightarrow> (False, fs)
      | WriteFailed (Some d) \<Rightarrow> (False, AList.update name d fs))"

definition fs_read :: "io_env \<Rightarrow> str \<Rightarrow> spool_fs \<Rightarrow> str option" where
  "fs_read io name fs = (if io_read_ok io name then map_of fs name else None)"

datatype spool_error =
    SerializeFailed | WriteMessageFailed | WriteMetadataFailed | ReadMetadataFailed
  | ParseMetadataFailed | ReadMessageFailed | RemoveMetadataFailed | RemoveMessageFailed
  | ReadDirFailed

definition meta_path :: "str \<Rightarrow> str" where
  "meta_path queue_id = queue_id @ ''.meta''"

definition msg_path :: "str \<Rightarrow> str" where
  "msg_path queue_id = queue_id @ ''.msg''"

definition new_queued_message :: "str \<Rightarrow> int \<Rightarrow> envelope \<Rightarrow> str \<Rightarrow> queued_message" where
  "new_queued_message queue_id now env message =
     \<lparr>qm_id = queue_id, qm_envelope = env,
      qm_metadata = \<lparr>mm_created = now, mm_next_retry = now, mm_attempts = 0, mm_last_error = None,
                     mm_status = Pending, mm_size = length message\<rparr>\<rparr>"

text \<open>The message file first, then the metadata file: the metadata commits.\<close>

definition spool_store ::
  "queue_json_lib \<Rightarrow> io_env \<Rightarrow> str \<Rightarrow> queued_message \<Rightarrow> str \<Rightarrow> spool_fs \<Rightarrow>
   (spool_error, str) result \<times> spool_fs" where
  "spool_store js io queue_id queued message fs =
     (case qj_to_string js queued of
        None \<Rightarrow> (Inl SerializeFailed, fs)
      | Some meta_json \<Rightarrow>
          (case fs_write io (msg_path queue_id) message fs of
             (False, fs1) \<Rightarrow> (Inl WriteMessageFailed, fs1)
           | (True, fs1) \<Rightarrow>
               (case fs_write io (meta_path queue_id) meta_json fs1 of
                  (False, fs2) \<Rightarrow> (Inl WriteMetadataFailed, fs2)
                | (True, fs2) \<Rightarrow> (Inr queue_id, fs2))))"

definition spool_enqueue ::
  "queue_json_lib \<Rightarrow> io_env \<Rightarrow> str \<Rightarrow> int \<Rightarrow> envelope \<Rightarrow> str \<Rightarrow> spool_fs \<Rightarrow>
   (spool_error, str) result \<times> spool_fs" where
  "spool_enqueue js io queue_id now env message fs =
     spool_store js io queue_id (new_queued_message queue_id now env message) message fs"

definition spool_dequeue ::
  "queue_json_lib \<Rightarrow> io_env \<Rightarrow> str \<Rightarrow> spool_fs \<Rightarrow> (spool_error, queued_message \<times> str) result" where
  "spool_dequeue js io queue_id fs =
     (case fs_read io (meta_path queue_id) fs of
        None \<Rightarrow> Inl ReadMetadataFailed
      | Some meta_bytes \<Rightarrow>
          (case qj_from_slice js meta_bytes of
             None \<Rightarrow> Inl ParseMetadataFailed
           | Some queued \<Rightarrow>
               (case fs_read io (msg_path queue_id) fs of
                  None \<Rightarrow> Inl ReadMessageFailed
                | Some msg_bytes \<Rightarrow> Inr (queued, msg_bytes))))"

definition fs_remove ::
  "io_env \<Rightarrow> str \<Rightarrow> spool_error \<Rightarrow> spool_fs \<Rightarrow> (spool_error, unit) result \<times> spool_fs" where
  "fs_remove io name err fs =
     (if map_of fs name = None then (Inr (), fs)
      else if io_remove_ok io name then (Inr (), AList.delete name fs)
      else (Inl err, fs))"

definition spool_remove ::
  "io_env \<Rightarrow> str \<Rightarrow> spool_fs \<Rightarrow> (spool_error, unit) result \<times> spool_fs" where
  "spool_remove io queue_id fs =
     (case fs_remove io (meta_path queue_id) RemoveMetadataFailed fs of
        (Inl e, fs1) \<Rightarrow> (Inl e, fs1)
      | (Inr _, fs1) \<Rightarrow> fs_remove io (msg_path queue_id) RemoveMessageFailed fs1)"

definition spool_list ::
  "queue_json_lib \<Rightarrow> io_env \<Rightarrow> spool_fs \<Rightarrow> (spool_error, queued_message list) result" where
  "spool_list js io fs =
     (if \<not> io_read_dir_ok io then Inl ReadDirFailed
      else Inr (List.map_filter
        (\<lambda>name. if path_extension name = Some ''meta''
                then Option.bind (fs_read io name fs) (qj_from_slice js)
                else None) (map fst fs)))"

definition spool_update_metadata ::
  "queue_json_lib \<Rightarrow> io_env \<Rightarrow> str \<Rightarrow> message_metadata \<Rightarrow> spool_fs \<Rightarrow>
   (spool_error, unit) result \<times> spool_fs" where
  "spool_update_metadata js io queue_id md fs =
     (case fs_read io (meta_path queue_id) fs of
        None \<Rightarrow> (Inl ReadMetadataFailed, fs)
      | Some meta_bytes \<Rightarrow>
          (case qj_from_slice js meta_bytes of
             None \<Rightarrow> (Inl ParseMetadataFailed, fs)
           | Some queued \<Rightarrow>
               (case qj_to_string js (queued\<lparr>qm_metadata := md\<rparr>) of
                  None \<Rightarrow> (Inl SerializeFailed, fs)
                | Some updated_json \<Rightarrow>
                    (case fs_write io (meta_path queue_id) updated_json fs of
                       (False, fs1) \<Rightarrow> (Inl WriteMetadataFailed, fs1)
                     | (True, fs1) \<Rightarrow> (Inr (), fs1)))))"

section \<open>Files of different messages are different\<close>

lemma spool_paths [simp]:
  "meta_path i = meta_path j \<longleftrightarrow> i = j"
  "msg_path i = msg_path j \<longleftrightarrow> i = j"
  "meta_path i \<noteq> msg_path j"
  "msg_path j \<noteq> meta_path i"
proof -
  have "last (meta_path i) = CHR ''a''" "last (msg_path j) = CHR ''g''" for i j
    by (simp_all add: meta_path_def msg_path_def)
  from this(1) [of i] this(2) [of j] show "meta_path i \<noteq> msg_path j" "msg_path j \<noteq> meta_path i"
    by auto
qed (simp_all add: meta_path_def msg_path_def)

lemma fs_write_reliable [simp]: "fs_write io_reliable name data fs = (True, AList.update name data fs)"
  by (simp add: fs_write_def io_reliable_def)

lemma fs_read_reliable [simp]: "fs_read io_reliable name fs = map_of fs name"
  by (simp add: fs_read_def io_reliable_def)

lemma fs_remove_reliable:
  "fs_remove io_reliable name e fs = (Inr (), AList.delete name fs)"
  by (auto simp: fs_remove_def io_reliable_def map_of_eq_None_iff delete_id)

section \<open>The spool as a store of messages\<close>

text \<open>What the receiver and the delivery manager rely on.\<close>

locale message_store =
  fixes store :: "'s \<Rightarrow> str \<Rightarrow> queued_message \<Rightarrow> str \<Rightarrow> 's"
    and fetch :: "'s \<Rightarrow> str \<Rightarrow> (queued_message \<times> str) option"
    and discard :: "'s \<Rightarrow> str \<Rightarrow> 's"
    and set_metadata :: "'s \<Rightarrow> str \<Rightarrow> message_metadata \<Rightarrow> 's"
  assumes fetch_store: "fetch (store s i q m) j = (if j = i then Some (q, m) else fetch s j)"
    and fetch_discard: "fetch (discard s i) j = (if j = i then None else fetch s j)"
    and fetch_set_metadata:
      "fetch (set_metadata s i md) j =
         (if j = i then map_option (\<lambda>(q, m). (q\<lparr>qm_metadata := md\<rparr>, m)) (fetch s j) else fetch s j)"
begin

text \<open>Operations on other messages do not touch a message, and an update keeps envelope and body.\<close>

lemma fetch_other:
  "j \<noteq> i \<Longrightarrow> fetch (store s i q m) j = fetch s j"
  "j \<noteq> i \<Longrightarrow> fetch (discard s i) j = fetch s j"
  "j \<noteq> i \<Longrightarrow> fetch (set_metadata s i md) j = fetch s j"
  by (simp_all add: fetch_store fetch_discard fetch_set_metadata)

lemma set_metadata_keeps:
  "fetch s i = Some (q, m) \<Longrightarrow> fetch (set_metadata s i md) i = Some (q\<lparr>qm_metadata := md\<rparr>, m)"
  by (simp add: fetch_set_metadata)

lemma set_metadata_last:
  "fetch (set_metadata (set_metadata s i md) i md') j = fetch (set_metadata s i md') j"
  by (cases "fetch s i") (auto simp: fetch_set_metadata)

end

text \<open>The spool on a reliable file system.\<close>

definition result_option :: "('e, 'a) result \<Rightarrow> 'a option" where
  "result_option r = (case r of Inl _ \<Rightarrow> None | Inr a \<Rightarrow> Some a)"

locale queue_json =
  fixes js :: queue_json_lib
  assumes js_law: "queue_json_law js"
begin

lemma to_string_ok: "\<exists>s. qj_to_string js q = Some s \<and> qj_from_slice js s = Some q"
  using js_law by (simp add: queue_json_law_def)

lemma dequeue_unfold:
  "result_option (spool_dequeue js io_reliable i fs) =
     Option.bind (map_of fs (meta_path i)) (\<lambda>b. Option.bind (qj_from_slice js b) (\<lambda>q.
       map_option (\<lambda>m. (q, m)) (map_of fs (msg_path i))))"
  by (auto simp: spool_dequeue_def result_option_def split: option.split)

lemma store_unfold:
  "\<exists>s. qj_from_slice js s = Some q \<and>
     spool_store js io_reliable i q m fs =
       (Inr i, AList.update (meta_path i) s (AList.update (msg_path i) m fs))"
  using to_string_ok [of q] by (auto simp: spool_store_def)

lemma update_unfold:
  assumes "map_of fs (meta_path i) = Some b" "qj_from_slice js b = Some q"
  shows "\<exists>s. qj_from_slice js s = Some (q\<lparr>qm_metadata := md\<rparr>) \<and>
     spool_update_metadata js io_reliable i md fs = (Inr (), AList.update (meta_path i) s fs)"
  using to_string_ok [of "q\<lparr>qm_metadata := md\<rparr>"] assms by (auto simp: spool_update_metadata_def)

lemma dequeue_store:
  "result_option (spool_dequeue js io_reliable j (snd (spool_store js io_reliable i q m fs))) =
     (if j = i then Some (q, m) else result_option (spool_dequeue js io_reliable j fs))"
proof -
  obtain s where "qj_from_slice js s = Some q"
      "spool_store js io_reliable i q m fs =
         (Inr i, AList.update (meta_path i) s (AList.update (msg_path i) m fs))"
    using store_unfold by blast
  then show ?thesis by (simp add: dequeue_unfold update_conv)
qed

lemma dequeue_remove:
  "result_option (spool_dequeue js io_reliable j (snd (spool_remove io_reliable i fs))) =
     (if j = i then None else result_option (spool_dequeue js io_reliable j fs))"
  by (simp add: dequeue_unfold spool_remove_def fs_remove_reliable delete_conv)

lemma dequeue_update:
  "result_option (spool_dequeue js io_reliable j (snd (spool_update_metadata js io_reliable i md fs))) =
     (if j = i then map_option (\<lambda>(q, m). (q\<lparr>qm_metadata := md\<rparr>, m))
        (result_option (spool_dequeue js io_reliable j fs))
      else result_option (spool_dequeue js io_reliable j fs))"
proof (cases "Option.bind (map_of fs (meta_path i)) (qj_from_slice js)")
  case None
  then have same: "snd (spool_update_metadata js io_reliable i md fs) = fs"
    by (cases "map_of fs (meta_path i)") (simp_all add: spool_update_metadata_def)
  from None have "result_option (spool_dequeue js io_reliable i fs) = None"
    by (cases "map_of fs (meta_path i)") (simp_all add: dequeue_unfold)
  then show ?thesis unfolding same by simp
next
  case (Some q)
  then obtain b where b: "map_of fs (meta_path i) = Some b" "qj_from_slice js b = Some q"
    by (cases "map_of fs (meta_path i)") simp_all
  obtain s where s: "qj_from_slice js s = Some (q\<lparr>qm_metadata := md\<rparr>)"
      "spool_update_metadata js io_reliable i md fs = (Inr (), AList.update (meta_path i) s fs)"
    using update_unfold [OF b] by blast
  show ?thesis
    using b s by (cases "map_of fs (msg_path i)") (simp_all add: dequeue_unfold update_conv)
qed

end

sublocale queue_json \<subseteq> spool: message_store
    "\<lambda>fs i q m. snd (spool_store js io_reliable i q m fs)"
    "\<lambda>fs i. result_option (spool_dequeue js io_reliable i fs)"
    "\<lambda>fs i. snd (spool_remove io_reliable i fs)"
    "\<lambda>fs i md. snd (spool_update_metadata js io_reliable i md fs)"
  by unfold_locales (simp_all add: dequeue_store dequeue_remove dequeue_update)

section \<open>A codec that keeps the law\<close>

text \<open>A concrete codec, with texts written after their length in unary; it shows that the law of the
  JSON codec can hold and evaluates in the examples.\<close>

definition enc_nat :: "nat \<Rightarrow> str" where
  "enc_nat n = replicate n (CHR ''1'') @ ''0''"

definition dec_nat :: "str \<Rightarrow> nat \<times> str" where
  "dec_nat s = (length (takeWhile (\<lambda>c. c = CHR ''1'') s), drop 1 (dropWhile (\<lambda>c. c = CHR ''1'') s))"

definition enc_str :: "str \<Rightarrow> str" where
  "enc_str t = enc_nat (length t) @ t"

definition dec_str :: "str \<Rightarrow> str \<times> str" where
  "dec_str s = (case dec_nat s of (n, r) \<Rightarrow> (take n r, drop n r))"

fun dec_strs :: "nat \<Rightarrow> str \<Rightarrow> str list \<times> str" where
  "dec_strs 0 s = ([], s)"
| "dec_strs (Suc n) s =
     (case dec_str s of (t, r) \<Rightarrow> (case dec_strs n r of (ts, r') \<Rightarrow> (t # ts, r')))"

definition enc_int :: "int \<Rightarrow> str" where
  "enc_int i = enc_nat (if i < 0 then 1 else 0) @ enc_nat (nat (abs i))"

definition dec_int :: "str \<Rightarrow> int \<times> str" where
  "dec_int s =
     (case dec_nat s of (g, r) \<Rightarrow> (case dec_nat r of (n, r') \<Rightarrow> (if g = 1 then - int n else int n, r')))"

fun status_nat :: "queue_status \<Rightarrow> nat" where
  "status_nat Pending = 0" | "status_nat Active = 1" | "status_nat Deferred = 2" | "status_nat Held = 3"

definition nat_status :: "nat \<Rightarrow> queue_status" where
  "nat_status n = (if n = 0 then Pending else if n = 1 then Active else if n = 2 then Deferred else Held)"

definition codec_encode :: "queued_message \<Rightarrow> str" where
  "codec_encode q =
     (let e = qm_envelope q; md = qm_metadata q;
          err = (case mm_last_error md of None \<Rightarrow> [] | Some t \<Rightarrow> [t])
      in enc_str (qm_id q) @ enc_str (env_mail_from e) @ enc_nat (length (env_rcpt_to e)) @
         concat (map enc_str (env_rcpt_to e)) @ enc_int (mm_created md) @ enc_int (mm_next_retry md) @
         enc_nat (unat (mm_attempts md)) @ enc_nat (length err) @ concat (map enc_str err) @
         enc_nat (status_nat (mm_status md)) @ enc_nat (mm_size md))"

definition codec_decode :: "str \<Rightarrow> queued_message" where
  "codec_decode s =
     (let (i, s) = dec_str s; (f, s) = dec_str s; (n, s) = dec_nat s; (rs, s) = dec_strs n s;
          (c, s) = dec_int s; (nr, s) = dec_int s; (a, s) = dec_nat s; (k, s) = dec_nat s;
          (err, s) = dec_strs k s; (st, s) = dec_nat s; (sz, s) = dec_nat s
      in \<lparr>qm_id = i, qm_envelope = \<lparr>env_mail_from = f, env_rcpt_to = rs\<rparr>,
          qm_metadata = \<lparr>mm_created = c, mm_next_retry = nr, mm_attempts = of_nat a,
                         mm_last_error = (case err of [] \<Rightarrow> None | t # _ \<Rightarrow> Some t),
                         mm_status = nat_status st, mm_size = sz\<rparr>\<rparr>)"

definition codec_lib :: queue_json_lib where
  "codec_lib = \<lparr>qj_to_string = (\<lambda>q. Some (codec_encode q)), qj_from_slice = (\<lambda>s. Some (codec_decode s))\<rparr>"

lemma dec_nat_enc: "dec_nat (enc_nat n @ r) = (n, r)"
  by (induction n) (simp_all add: dec_nat_def enc_nat_def)

lemma dec_str_enc: "dec_str (enc_str t @ r) = (t, r)"
  by (simp add: dec_str_def enc_str_def dec_nat_enc)

lemma dec_strs_enc: "dec_strs (length ts) (concat (map enc_str ts) @ r) = (ts, r)"
  by (induction ts) (simp_all add: dec_str_enc)

lemma dec_int_enc: "dec_int (enc_int i @ r) = (i, r)"
  by (simp add: dec_int_def enc_int_def dec_nat_enc)

lemma nat_status_inverse: "nat_status (status_nat st) = st"
  by (cases st) (simp_all add: nat_status_def)

lemma codec_inverse: "codec_decode (codec_encode q) = q"
proof -
  have last: "dec_nat (enc_nat n) = (n, [])" for n using dec_nat_enc [of n "[]"] by simp
  obtain i e md where q: "q = \<lparr>qm_id = i, qm_envelope = e, qm_metadata = md\<rparr>" by (cases q)
  obtain f rs where e: "e = \<lparr>env_mail_from = f, env_rcpt_to = rs\<rparr>" by (cases e)
  obtain c nr a err st sz where md: "md = \<lparr>mm_created = c, mm_next_retry = nr, mm_attempts = a,
      mm_last_error = err, mm_status = st, mm_size = sz\<rparr>" by (cases md)
  show ?thesis
  proof (cases err)
    case None
    then show ?thesis
      by (simp add: q e md codec_decode_def codec_encode_def Let_def dec_str_enc dec_nat_enc dec_strs_enc
          dec_int_enc nat_status_inverse last)
  next
    case (Some t)
    have one: "dec_strs (Suc 0) (enc_str t @ r) = ([t], r)" for r by (simp add: dec_str_enc)
    from Some show ?thesis
      by (simp add: q e md codec_decode_def codec_encode_def Let_def dec_str_enc dec_nat_enc dec_strs_enc
          dec_int_enc nat_status_inverse last one del: dec_strs.simps)
  qed
qed

lemma codec_lib_law: "queue_json_law codec_lib"
  by (simp add: queue_json_law_def codec_lib_def codec_inverse)

interpretation codec: queue_json codec_lib
  by unfold_locales (rule codec_lib_law)

section \<open>What the queue guarantees\<close>

lemma fs_write_True:
  "fs_write io name data fs = (True, fs') \<longleftrightarrow>
     io_write io name data = Written \<and> fs' = AList.update name data fs"
  by (auto simp: fs_write_def split: write_outcome.splits option.splits)

lemma fs_write_other:
  "name \<noteq> other \<Longrightarrow> map_of (snd (fs_write io name data fs)) other = map_of fs other"
  by (simp add: fs_write_def update_conv split: write_outcome.split option.split)

text \<open>C27. An accepted message is in the spool: when enqueueing reports success, whatever other operations
  of the file system fail, reading the message back gives the envelope, fresh metadata and every
  byte of the body, and reading any other message gives what it gave before.\<close>

theorem spool_enqueue_commits:
  assumes "queue_json_law js" "spool_enqueue js io i now env m fs = (Inr i', fs')"
    and "io_read_ok io (meta_path i)" "io_read_ok io (msg_path i)"
  shows "i' = i \<and> spool_dequeue js io i fs' = Inr (new_queued_message i now env m, m) \<and>
    (\<forall>j. j \<noteq> i \<longrightarrow> spool_dequeue js io j fs' = spool_dequeue js io j fs)"
proof -
  from assms(1) obtain s where s: "qj_to_string js (new_queued_message i now env m) = Some s"
      "qj_from_slice js s = Some (new_queued_message i now env m)"
    unfolding queue_json_law_def by blast
  with assms(2) have fs': "i' = i" "fs' = AList.update (meta_path i) s (AList.update (msg_path i) m fs)"
    by (auto simp: spool_enqueue_def spool_store_def fs_write_True split: prod.splits bool.splits)
  show ?thesis
    using s(2) assms(3,4) by (simp add: fs' spool_dequeue_def fs_read_def update_conv split: option.split)
qed

definition demo_envelope :: envelope where
  "demo_envelope = \<lparr>env_mail_from = ''a@b'', env_rcpt_to = [''c@d'']\<rparr>"

theorem spool_enqueue_commits_witness:
  "spool_dequeue codec_lib io_reliable ''Q1''
     (snd (spool_enqueue codec_lib io_reliable ''Q1'' 0 demo_envelope ''body'' [])) =
   Inr (new_queued_message ''Q1'' 0 demo_envelope ''body'', ''body'')"
proof -
  have "spool_enqueue codec_lib io_reliable ''Q1'' 0 demo_envelope ''body'' [] =
    (Inr ''Q1'', snd (spool_enqueue codec_lib io_reliable ''Q1'' 0 demo_envelope ''body'' []))"
    by (simp add: spool_enqueue_def spool_store_def codec_lib_def)
  from spool_enqueue_commits [OF codec_lib_law this] show ?thesis
    by (simp add: io_reliable_def)
qed

lemma while_not_in:
  "c \<notin> set a \<Longrightarrow> takeWhile (\<lambda>d. d \<noteq> c) (a @ b) = a @ takeWhile (\<lambda>d. d \<noteq> c) b"
  "c \<notin> set a \<Longrightarrow> dropWhile (\<lambda>d. d \<noteq> c) (a @ b) = dropWhile (\<lambda>d. d \<noteq> c) b"
  by (induction a) auto

lemma rsplit_once_snoc:
  "c \<notin> set e \<Longrightarrow> rsplit_once c (q @ c # e) = Some (q, e)"
  by (simp add: rsplit_once_def while_not_in)

lemma path_extension_append:
  assumes "CHR ''.'' \<notin> set e" "CHR ''/'' \<notin> set e"
  shows "path_extension (q @ CHR ''.'' # e) \<in> {None, Some e}"
proof -
  have "rsplit_first (CHR ''/'') (q @ CHR ''.'' # e) = rsplit_first (CHR ''/'') q @ CHR ''.'' # e"
    using assms(2) by (simp add: rsplit_first_def while_not_in)
  then show ?thesis
    using assms(1) by (simp add: path_extension_def rsplit_once_snoc)
qed

lemma map_filter_keys_update:
  assumes "f name = None"
  shows "List.map_filter f (map fst (AList.update name d fs)) = List.map_filter f (map fst fs)"
  using assms by (induction fs) (auto simp: List.map_filter_simps split: option.split)

text \<open>The metadata file commits: when the message file cannot be written, in full or in part, the
  queue lists the same messages as before.\<close>

theorem failed_enqueue_not_listed:
  assumes "spool_enqueue js io i now env m fs = (Inl WriteMessageFailed, fs')"
  shows "spool_list js io fs' = spool_list js io fs"
proof -
  let ?f = "\<lambda>fs name. if path_extension name = Some ''meta''
      then Option.bind (fs_read io name fs) (qj_from_slice js) else None"
  from assms have fs': "fs' = snd (fs_write io (msg_path i) m fs)"
    by (auto simp: spool_enqueue_def spool_store_def split: option.splits prod.splits bool.splits)
  have not_meta: "path_extension (msg_path i) \<noteq> Some ''meta''"
    using path_extension_append [of "''msg''" i] by (auto simp: msg_path_def)
  then have "?f fs' = ?f fs"
    by (intro ext) (metis fs' fs_read_def fs_write_other)
  moreover have "List.map_filter (?f fs) (map fst fs') = List.map_filter (?f fs) (map fst fs)"
    using not_meta by (auto simp: fs' fs_write_def map_filter_keys_update split: write_outcome.split option.split)
  ultimately show ?thesis by (simp add: spool_list_def)
qed

theorem failed_enqueue_not_listed_witness:
  "spool_list codec_lib (io_reliable\<lparr>io_write := (\<lambda>_ _. WriteFailed (Some ''bo''))\<rparr>)
     (snd (spool_enqueue codec_lib (io_reliable\<lparr>io_write := (\<lambda>_ _. WriteFailed (Some ''bo''))\<rparr>)
        ''Q1'' 0 demo_envelope ''body'' [])) =
   spool_list codec_lib (io_reliable\<lparr>io_write := (\<lambda>_ _. WriteFailed (Some ''bo''))\<rparr>) []"
  by (rule failed_enqueue_not_listed [of _ _ "''Q1''" 0 demo_envelope "''body''"])
     (simp add: spool_enqueue_def spool_store_def codec_lib_def fs_write_def)

lemma hex_upper_inj:
  assumes "a < 16" "b < 16"
  shows "hex_upper a = hex_upper b \<longleftrightarrow> a = b"
proof
  have code: "of_char (hex_upper d) = (if d < 10 then 48 + d else 55 + d)" if "d < 16" for d :: nat
    using that by (simp add: hex_upper_def)
  assume "hex_upper a = hex_upper b"
  then have "(of_char (hex_upper a) :: nat) = of_char (hex_upper b)" by simp
  with code [OF assms(1)] code [OF assms(2)]
  have "(if a < 10 then 48 + a else 55 + a) = (if b < 10 then 48 + b else 55 + b)" by simp
  then show "a = b" by presburger
qed simp

lemma hex_digits_length [simp]: "length (hex_digits w n) = w"
  by (induction w arbitrary: n) simp_all

lemma hex_digits_inj:
  "m < 16 ^ w \<Longrightarrow> n < 16 ^ w \<Longrightarrow> hex_digits w m = hex_digits w n \<longleftrightarrow> m = n"
proof (induction w arbitrary: m n)
  case 0
  then show ?case by simp
next
  case (Suc w)
  then have "m div 16 < 16 ^ w" "n div 16 < 16 ^ w" by (simp_all add: less_mult_imp_div_less mult.commute)
  with Suc.IH show ?case
    by (simp add: hex_upper_inj) (metis div_mod_decomp)
qed

text \<open>Queue identifiers have twelve characters and two of them are equal exactly when the random
  parts are equal and the millisecond clocks agree modulo the 32 bits that are kept.\<close>

theorem queue_id_collision:
  "length (generate_queue_id ts r) = 12 \<and>
   (generate_queue_id ts r = generate_queue_id ts' r' \<longleftrightarrow>
      unat ts mod 2 ^ 32 = unat ts' mod 2 ^ 32 \<and> r = r')"
proof -
  have "unat (x :: u32) < 16 ^ 8" for x using unsigned_less [of x, where 'a = nat] by simp
  moreover have "unat (x :: u16) < 16 ^ 4" for x using unsigned_less [of x, where 'a = nat] by simp
  ultimately show ?thesis
    by (simp add: generate_queue_id_def hex_digits_inj unsigned_ucast_eq take_bit_eq_mod
        word_unat_eq_iff [of r])
qed

text \<open>Parsing a retry interval panics exactly when the trimmed text ends in a character of more than
  one byte.\<close>

lemma parse_duration_panics:
  "parse_duration td s = Inl Panic \<longleftrightarrow> trim s \<noteq> [] \<and> is_cont (last (trim s))"
  by (simp add: parse_duration_def Let_def split: option.split)

end
