(* ===== verification/Relay_Receiver.thy ===== *)
theory Relay_Receiver
  imports Line_Session Relay_Policy Relay_Queue Protocols
begin

text \<open>
  The receiving side of the relay (\<^verbatim>\<open>receiver.rs\<close>, \<^verbatim>\<open>dkim/signer.rs\<close>): one session per
  connection, all of them sharing the policy checker and the spool.  A session reads its input line
  by line; one step handles one command, DATA with the message that follows it.  The input is the
  bytes the peer will send before it closes the connection, and writes to the peer succeed (a failed
  write only ends the session early).  The clock and the random part of a queue identifier are
  functions of the number of messages handled so far.
\<close>

section \<open>Signing\<close>

text \<open>The crate \<^verbatim>\<open>mail_auth\<close> and the key files: reading a key file, parsing a key in the three
  formats, and the header for a signature.\<close>

record 'key dkim_lib =
  dl_read_key :: "str \<Rightarrow> str option"
  dl_ed25519 :: "str \<Rightarrow> 'key option"
  dl_rsa_pkcs8 :: "str \<Rightarrow> 'key option"
  dl_rsa_pem :: "str \<Rightarrow> 'key option"
  dl_sign :: "'key \<Rightarrow> str \<Rightarrow> str \<Rightarrow> str list \<Rightarrow> str \<Rightarrow> str option"

definition sign_with_key :: "'key dkim_lib \<Rightarrow> 'key \<Rightarrow> str \<Rightarrow> str \<Rightarrow> str \<Rightarrow> str option" where
  "sign_with_key lib key domain selector message =
     (case dl_sign lib key domain selector
        [''From'', ''To'', ''Subject'', ''Date'', ''Message-ID'', ''MIME-Version'', ''Content-Type''] message of
        None \<Rightarrow> None
      | Some sig_header \<Rightarrow> Some (sig_header @ message))"

definition dkim_sign :: "'key dkim_lib \<Rightarrow> dkim_domain_entry \<Rightarrow> str \<Rightarrow> str option" where
  "dkim_sign lib entry message =
     (case dl_read_key lib (dk_key_file entry) of
        None \<Rightarrow> None
      | Some pem \<Rightarrow>
          (case (if dk_algorithm entry = ''ed25519-sha256'' then dl_ed25519 lib pem
                 else (case dl_rsa_pkcs8 lib pem of Some key \<Rightarrow> Some key | None \<Rightarrow> dl_rsa_pem lib pem)) of
             None \<Rightarrow> None
           | Some key \<Rightarrow> sign_with_key lib key (dk_domain entry) (dk_selector entry) message))"

section \<open>Sessions\<close>

text \<open>\<^verbatim>\<open>SmtpReceiver\<close> without what the sessions share; the environment supplies the clock, the
  random numbers, the codec and the behaviour of the file system.\<close>

record ('net, 'key) smtp_receiver =
  rv_hostname :: str
  rv_trusted_hosts :: "'net trusted_hosts"
  rv_dkim_enabled :: bool
  rv_dkim_key_store :: "(str \<times> dkim_domain_entry) list"
  rv_dkim_lib :: "'key dkim_lib"
  rv_cidr :: "'net cidr_lib"
  rv_json :: queue_json_lib
  rv_io :: io_env
  rv_clock :: "nat \<Rightarrow> int"
  rv_random :: "nat \<Rightarrow> u16"

datatype session_state = SConnected | SGreeted | SMailFrom str | SRcptTo str "str list"

record smtp_session =
  ss_peer :: ip_addr
  ss_state :: session_state
  ss_input :: str
  ss_output :: str
  ss_open :: bool

text \<open>A message the receiver reported as accepted: the history of the shared state, used by the
  properties only.\<close>

record accepted_message =
  am_peer :: ip_addr
  am_time :: int
  am_queue_id :: str
  am_envelope :: envelope
  am_received :: str
  am_stored :: str

record relay_world =
  rw_policy :: outbound_policy_checker
  rw_spool :: spool_fs
  rw_handled :: nat
  rw_accepted :: "accepted_message list"

definition reply :: "str \<Rightarrow> smtp_session \<Rightarrow> smtp_session" where
  "reply msg s = s\<lparr>ss_output := ss_output s @ msg @ CRLF\<rparr>"

definition session_open ::
  "('net, 'key) smtp_receiver \<Rightarrow> ip_addr \<Rightarrow> str \<Rightarrow> smtp_session" where
  "session_open rv peer input =
     (let s = \<lparr>ss_peer = peer, ss_state = SConnected, ss_input = input, ss_output = [], ss_open = True\<rparr> in
      if \<not> is_trusted (rv_cidr rv) (rv_trusted_hosts rv) peer
      then (reply ''554 5.7.1 Relay access denied'' s)\<lparr>ss_open := False\<rparr>
      else if th_require_tls (rv_trusted_hosts rv)
      then (reply ''530 5.7.0 Must issue STARTTLS first'' s)\<lparr>ss_open := False\<rparr>
      else reply (''220 '' @ rv_hostname rv @ '' ESMTP'') s)"

definition handle_mail_from ::
  "outbound_policy_checker \<Rightarrow> str \<Rightarrow> smtp_session \<Rightarrow> smtp_session" where
  "handle_mail_from pc addr s =
     (if ss_state s = SConnected then reply ''503 5.5.1 Bad sequence of commands'' s
      else let sender = extract_address addr in
        case spf_alignment_check_check (pc_spf_alignment pc) (rsplit_first (CHR ''@'') sender) of
          Inl reason \<Rightarrow> reply (''550 5.7.1 '' @ reason) s
        | Inr _ \<Rightarrow> (reply ''250 2.1.0 OK'' s)\<lparr>ss_state := SMailFrom sender\<rparr>)"

definition handle_rcpt_to ::
  "outbound_policy_checker \<Rightarrow> str \<Rightarrow> smtp_session \<Rightarrow> smtp_session" where
  "handle_rcpt_to pc addr s =
     (case (case ss_state s of
              SMailFrom mf \<Rightarrow> Some (mf, []) | SRcptTo mf r \<Rightarrow> Some (mf, r) | _ \<Rightarrow> None) of
        None \<Rightarrow> reply ''503 5.5.1 Bad sequence of commands'' s
      | Some (mail_from, rcpts0) \<Rightarrow>
          let rcpts = rcpts0 @ [extract_address addr] in
          case recipient_limit_check (pc_recipient_limit pc) (length rcpts) of
            Inl reason \<Rightarrow> reply (''550 5.5.3 '' @ reason) s
          | Inr _ \<Rightarrow> (reply ''250 2.1.5 OK'' s)\<lparr>ss_state := SRcptTo mail_from rcpts\<rparr>)"

text \<open>What is stored: the signed message, or the message itself when signing is off, the domain has no
  key or signing fails.\<close>

definition final_message :: "('net, 'key) smtp_receiver \<Rightarrow> str \<Rightarrow> str \<Rightarrow> str" where
  "final_message rv sender_domain message_data =
     (if rv_dkim_enabled rv
      then (case dkim_lookup (rv_dkim_key_store rv) sender_domain of
              Some entry \<Rightarrow>
                (case dkim_sign (rv_dkim_lib rv) entry message_data of
                   Some signed_msg \<Rightarrow> signed_msg | None \<Rightarrow> message_data)
            | None \<Rightarrow> message_data)
      else message_data)"

text \<open>A complete message: policy, signature, spool.\<close>

definition handle_message ::
  "('net, 'key) smtp_receiver \<Rightarrow> str \<Rightarrow> str list \<Rightarrow> str \<Rightarrow> smtp_session \<Rightarrow> relay_world \<Rightarrow>
   smtp_session \<times> relay_world" where
  "handle_message rv mail_from rcpt_to message_data s w =
     (let now = rv_clock rv (rw_handled w);
          w1 = w\<lparr>rw_handled := Suc (rw_handled w)\<rparr>;
          sender_domain = rsplit_first (CHR ''@'') mail_from
      in case outbound_policy_checker_check now sender_domain (length rcpt_to) message_data (rw_policy w) of
           (Inl reason, pc) \<Rightarrow>
             ((reply (''550 5.7.1 '' @ reason) s)\<lparr>ss_state := SGreeted\<rparr>, w1\<lparr>rw_policy := pc\<rparr>)
         | (Inr _, pc) \<Rightarrow>
             let msg = final_message rv sender_domain message_data;
                 env = \<lparr>env_mail_from = mail_from, env_rcpt_to = rcpt_to\<rparr>;
                 id = generate_queue_id (of_int now) (rv_random rv (rw_handled w))
             in case spool_enqueue (rv_json rv) (rv_io rv) id now env msg (rw_spool w) of
                  (Inr queue_id, fs) \<Rightarrow>
                    ((reply (''250 2.0.0 OK queued as '' @ queue_id) s)\<lparr>ss_state := SGreeted\<rparr>,
                     w1\<lparr>rw_policy := pc, rw_spool := fs,
                        rw_accepted := rw_accepted w @
                          [\<lparr>am_peer = ss_peer s, am_time = now, am_queue_id = queue_id, am_envelope = env,
                            am_received = message_data, am_stored = msg\<rparr>]\<rparr>)
                | (Inl _, fs) \<Rightarrow>
                    ((reply ''451 4.3.0 Internal error, try again later'' s)\<lparr>ss_state := SGreeted\<rparr>,
                     w1\<lparr>rw_policy := pc, rw_spool := fs\<rparr>))"

definition handle_data ::
  "('net, 'key) smtp_receiver \<Rightarrow> smtp_session \<Rightarrow> relay_world \<Rightarrow> smtp_session \<times> relay_world" where
  "handle_data rv s w =
     (case (case ss_state s of SRcptTo mf r \<Rightarrow> if r = [] then None else Some (mf, r) | _ \<Rightarrow> None) of
        None \<Rightarrow> (reply ''503 5.5.1 Bad sequence of commands'' s, w)
      | Some (mail_from, rcpt_to) \<Rightarrow>
          let s1 = reply ''354 Start mail input; end with <CRLF>.<CRLF>'' s in
          case read_data [] (ss_input s) of
            DataClosed \<Rightarrow> (s1\<lparr>ss_input := [], ss_open := False\<rparr>, w)
          | DataInvalid \<Rightarrow> (s1\<lparr>ss_input := [], ss_open := False\<rparr>, w)
          | DataDone message_data rest \<Rightarrow>
              handle_message rv mail_from rcpt_to message_data (s1\<lparr>ss_input := rest\<rparr>) w)"

definition handle_command ::
  "('net, 'key) smtp_receiver \<Rightarrow> smtp_command \<Rightarrow> smtp_session \<Rightarrow> relay_world \<Rightarrow>
   smtp_session \<times> relay_world" where
  "handle_command rv cmd s w =
     (case cmd of
        Ehlo _ \<Rightarrow> ((reply (''250-'' @ rv_hostname rv @ CRLF @ ''250-SIZE 26214400'' @ CRLF @
                    ''250-8BITMIME'' @ CRLF @ ''250-PIPELINING'' @ CRLF @ ''250 OK'') s)\<lparr>ss_state := SGreeted\<rparr>, w)
      | Helo _ \<Rightarrow> ((reply (''250-'' @ rv_hostname rv @ CRLF @ ''250-SIZE 26214400'' @ CRLF @
                    ''250-8BITMIME'' @ CRLF @ ''250-PIPELINING'' @ CRLF @ ''250 OK'') s)\<lparr>ss_state := SGreeted\<rparr>, w)
      | MailFrom addr \<Rightarrow> (handle_mail_from (rw_policy w) addr s, w)
      | RcptTo addr \<Rightarrow> (handle_rcpt_to (rw_policy w) addr s, w)
      | Data \<Rightarrow> handle_data rv s w
      | Rset \<Rightarrow> ((reply ''250 2.0.0 OK'' s)\<lparr>ss_state := SGreeted\<rparr>, w)
      | Noop \<Rightarrow> (reply ''250 2.0.0 OK'' s, w)
      | Quit \<Rightarrow> ((reply ''221 2.0.0 Bye'' s)\<lparr>ss_open := False\<rparr>, w)
      | Auth _ \<Rightarrow> (reply ''502 5.5.1 AUTH not supported on relay'' s, w)
      | StartTls \<Rightarrow> (reply ''502 5.5.1 STARTTLS not available'' s, w)
      | Xclient _ \<Rightarrow> (reply ''500 5.5.2 Unrecognized command'' s, w)
      | Unknown _ \<Rightarrow> (reply ''500 5.5.2 Unrecognized command'' s, w))"

text \<open>One turn of the command loop; a line that is not UTF-8 is a read error and ends the session.\<close>

definition session_step ::
  "('net, 'key) smtp_receiver \<Rightarrow> smtp_session \<Rightarrow> relay_world \<Rightarrow> smtp_session \<times> relay_world" where
  "session_step rv s w =
     (if ss_input s = [] then (s\<lparr>ss_open := False\<rparr>, w)
      else case read_line (ss_input s) of
             (line, rest) \<Rightarrow>
               if \<not> utf8_valid line then (s\<lparr>ss_input := [], ss_open := False\<rparr>, w)
               else handle_command rv (parse_command line) (s\<lparr>ss_input := rest\<rparr>) w)"

section \<open>All sessions together\<close>

text \<open>A connection is accepted, or one of the open sessions handles its next command.\<close>

inductive relay_step ::
  "('net, 'key) smtp_receiver \<Rightarrow> smtp_session list \<times> relay_world \<Rightarrow> smtp_session list \<times> relay_world \<Rightarrow> bool"
  for rv where
  Accept: "relay_step rv (ss, w) (ss @ [session_open rv peer input], w)"
| Command: "i < length ss \<Longrightarrow> ss_open (ss ! i) \<Longrightarrow> session_step rv (ss ! i) w = (s', w') \<Longrightarrow>
    relay_step rv (ss, w) (ss[i := s'], w')"

inductive_cases relay_stepE: "relay_step rv st st'"

definition relay_world_init :: "outbound_policy_config \<Rightarrow> spool_fs \<Rightarrow> relay_world" where
  "relay_world_init cfg fs =
     \<lparr>rw_policy = build_policy cfg, rw_spool = fs, rw_handled = 0, rw_accepted = []\<rparr>"

section \<open>The command loop ends\<close>

lemma reply_simps [simp]:
  "ss_input (reply m s) = ss_input s" "ss_open (reply m s) = ss_open s"
  "ss_state (reply m s) = ss_state s" "ss_peer (reply m s) = ss_peer s"
  by (simp_all add: reply_def)

lemma read_data_rest: "read_data acc input = DataDone m r \<Longrightarrow> length r \<le> length input"
proof (induction acc input rule: read_data.induct)
  case (1 acc input)
  show ?case
  proof (cases "input = []")
    case True
    with 1(2) show ?thesis by (simp add: read_data.simps)
  next
    case False
    have "length (snd (read_line input)) < length input" using False by (rule read_line_shrinks)
    with 1 False show ?thesis
      by (subst (asm) (2) read_data.simps) (fastforce simp: Let_def split: if_splits)
  qed
qed

lemma handle_message_session:
  assumes "handle_message rv mf r m s w = (s', w')"
  shows "ss_input s' = ss_input s" "ss_peer s' = ss_peer s" "ss_open s' = ss_open s"
  using assms
  by (auto simp: handle_message_def Let_def split: prod.splits sum.splits)

lemma handle_mail_rcpt_session [simp]:
  "ss_input (handle_mail_from pc a s) = ss_input s" "ss_peer (handle_mail_from pc a s) = ss_peer s"
  "ss_open (handle_mail_from pc a s) = ss_open s"
  "ss_input (handle_rcpt_to pc a s) = ss_input s" "ss_peer (handle_rcpt_to pc a s) = ss_peer s"
  "ss_open (handle_rcpt_to pc a s) = ss_open s"
  by (simp_all add: handle_mail_from_def handle_rcpt_to_def Let_def split: sum.split session_state.split)

lemma handle_command_session:
  assumes "handle_command rv cmd s w = (s', w')"
  shows "length (ss_input s') \<le> length (ss_input s) \<and> ss_peer s' = ss_peer s \<and> (ss_open s' \<longrightarrow> ss_open s)"
proof (cases "cmd = Data")
  case False
  with assms show ?thesis
    by (auto simp: handle_command_def split: smtp_command.splits)
next
  case True
  with assms have "handle_data rv s w = (s', w')" by (simp add: handle_command_def)
  then show ?thesis
    by (fastforce simp: handle_data_def Let_def dest: read_data_rest handle_message_session
        split: session_state.splits if_splits data_result.splits)
qed

lemma session_step_session:
  assumes "session_step rv s w = (s', w')"
  shows "ss_open s' \<Longrightarrow> length (ss_input s') < length (ss_input s) \<and> ss_open s"
    and "ss_peer s' = ss_peer s"
proof -
  show "ss_peer s' = ss_peer s"
    using assms handle_command_session
    by (fastforce simp: session_step_def split: if_splits prod.splits)
  show "length (ss_input s') < length (ss_input s) \<and> ss_open s" if "ss_open s'"
  proof (cases "ss_input s = [] \<or> \<not> utf8_valid (fst (read_line (ss_input s)))")
    case True
    with assms that show ?thesis by (auto simp: session_step_def split: prod.splits if_splits)
  next
    case False
    let ?s = "s\<lparr>ss_input := snd (read_line (ss_input s))\<rparr>"
    from False assms have "handle_command rv (parse_command (fst (read_line (ss_input s)))) ?s w = (s', w')"
      by (auto simp: session_step_def split: prod.splits)
    from handle_command_session [OF this] that read_line_shrinks [of "ss_input s"] False
    show ?thesis by simp
  qed
qed

function session_run ::
  "('net, 'key) smtp_receiver \<Rightarrow> smtp_session \<Rightarrow> relay_world \<Rightarrow> smtp_session \<times> relay_world" where
  "session_run rv s w =
     (if \<not> ss_open s then (s, w)
      else session_run rv (fst (session_step rv s w)) (snd (session_step rv s w)))"
  by pat_completeness auto
termination
proof (relation "measure (\<lambda>(rv, s, w). if ss_open s then Suc (length (ss_input s)) else 0)", goal_cases)
  case 1
  show ?case by simp
next
  case (2 rv s w)
  then show ?case
    using session_step_session(1) [of rv s w] by (cases "session_step rv s w") auto
qed

declare session_run.simps [simp del]

text \<open>The loop as repeated turns: an open session handles its next command.\<close>

definition session_turn ::
  "('net, 'key) smtp_receiver \<Rightarrow> smtp_session \<times> relay_world \<Rightarrow> smtp_session \<times> relay_world" where
  "session_turn rv x = (if ss_open (fst x) then session_step rv (fst x) (snd x) else x)"

interpretation relay_loop: line_session ss_open ss_input "session_step rv" "session_run rv" "session_turn rv" for rv
  by (unfold_locales, erule (1) session_step_session(1) [THEN conjunct1]) (rule session_run.simps session_turn_def)+

text \<open>C25. Every session ends: whatever the peer sends, after at most one turn per byte and one more the
  command loop has closed the session, with the result of the whole loop.\<close>

theorem session_terminates:
  "(session_turn rv ^^ Suc (length (ss_input s))) (s, w) = session_run rv s w \<and>
   \<not> ss_open (fst (session_run rv s w))"
  by (rule relay_loop.turns_run) simp

section \<open>What the relay accepts\<close>

abbreviation am_domain :: "accepted_message \<Rightarrow> str" where
  "am_domain a \<equiv> rsplit_first (CHR ''@'') (env_mail_from (am_envelope a))"

lemma final_message_suffix: "suffix m (final_message rv d m)"
  by (auto simp: final_message_def dkim_sign_def sign_with_key_def suffix_def
      split: option.splits if_splits)

definition accept_ok ::
  "('net, 'key) smtp_receiver \<Rightarrow> outbound_policy_config \<Rightarrow> accepted_message \<Rightarrow> bool" where
  "accept_ok rv cfg a \<longleftrightarrow>
     is_trusted (rv_cidr rv) (rv_trusted_hosts rv) (am_peer a) \<and> \<not> th_require_tls (rv_trusted_hosts rv) \<and>
     env_rcpt_to (am_envelope a) \<noteq> [] \<and>
     policy_admits cfg (am_domain a) (length (env_rcpt_to (am_envelope a))) (am_received a) \<and>
     suffix (am_received a) (am_stored a)"

text \<open>The messages counted by the limiter include the accepted ones, in order.\<close>

definition world_inv ::
  "('net, 'key) smtp_receiver \<Rightarrow> outbound_policy_config \<Rightarrow> relay_world \<Rightarrow> bool" where
  "world_inv rv cfg w \<longleftrightarrow>
     (\<exists>rl t counted.
        rw_policy w = build_policy cfg\<lparr>pc_rate_limit := rl\<rparr> \<and>
        orl_max_per_hour rl = opc_max_messages_per_domain_per_hour cfg \<and>
        rate_inv t counted rl \<and> t \<le> rv_clock rv (rw_handled w) \<and>
        subseq (map (\<lambda>a. (am_time a, to_lower (am_domain a))) (rw_accepted w)) counted) \<and>
     (\<forall>a \<in> set (rw_accepted w). accept_ok rv cfg a)"

lemma world_inv_init: "world_inv rv cfg (relay_world_init cfg fs)"
proof -
  have "rw_policy (relay_world_init cfg fs) =
      build_policy cfg\<lparr>pc_rate_limit := outbound_rate_limit_new (opc_max_messages_per_domain_per_hour cfg)\<rparr>"
    by (simp add: relay_world_init_def build_policy_def)
  then show ?thesis
    unfolding world_inv_def using rate_inv_new
    by (intro conjI exI [of _ "outbound_rate_limit_new (opc_max_messages_per_domain_per_hour cfg)"]
        exI [of _ "rv_clock rv 0"] exI [of _ "[]"])
      (auto simp: relay_world_init_def outbound_rate_limit_new_def)
qed

text \<open>What one complete message does to the policy and to the history.\<close>

lemma handle_message_world:
  assumes "handle_message rv mf r m s w = (s', w')"
    and "outbound_policy_checker_check (rv_clock rv (rw_handled w)) (rsplit_first (CHR ''@'') mf) (length r) m
           (rw_policy w) = (res, pc)"
  shows "rw_handled w' = Suc (rw_handled w)" "rw_policy w' = pc"
    and "rw_accepted w' = rw_accepted w \<or>
      res = Inr () \<and> (\<exists>q. rw_accepted w' = rw_accepted w @
        [\<lparr>am_peer = ss_peer s, am_time = rv_clock rv (rw_handled w), am_queue_id = q,
          am_envelope = \<lparr>env_mail_from = mf, env_rcpt_to = r\<rparr>, am_received = m,
          am_stored = final_message rv (rsplit_first (CHR ''@'') mf) m\<rparr>])"
  using assms by (auto simp: handle_message_def Let_def split: prod.splits sum.splits)

lemma policy_check_rate:
  assumes "outbound_policy_checker_check now d n m (build_policy cfg\<lparr>pc_rate_limit := rl\<rparr>) = (res, pc)"
    and "rate_inv t counted rl" "t \<le> now"
  shows "\<exists>rl' counted'. pc = build_policy cfg\<lparr>pc_rate_limit := rl'\<rparr> \<and>
    orl_max_per_hour rl' = orl_max_per_hour rl \<and> rate_inv now counted' rl' \<and>
    (if res = Inr () then counted' = counted @ [(now, to_lower d)] else prefix counted counted')"
proof -
  obtain r1 rl1 where chk: "outbound_rate_limit_check now d rl = (r1, rl1)"
    by (cases "outbound_rate_limit_check now d rl")
  note inv = rate_inv_check [OF assms(2,3) chk]
  have same: "rate_inv now counted rl"
    using assms(2,3) unfolding rate_inv_def by (blast intro: hour.tracks_later)
  have "(pc = build_policy cfg\<lparr>pc_rate_limit := rl\<rparr> \<and> res \<noteq> Inr ()) \<or>
      (pc = build_policy cfg\<lparr>pc_rate_limit := rl1\<rparr> \<and> (res = Inr () \<longrightarrow> r1 = Inr ()))"
    using assms(1) chk by (auto simp: outbound_policy_checker_check_def split: sum.splits)
  then show ?thesis
  proof
    assume "pc = build_policy cfg\<lparr>pc_rate_limit := rl\<rparr> \<and> res \<noteq> Inr ()"
    then show ?thesis using same by (intro exI [of _ rl] exI [of _ counted]) simp
  next
    assume *: "pc = build_policy cfg\<lparr>pc_rate_limit := rl1\<rparr> \<and> (res = Inr () \<longrightarrow> r1 = Inr ())"
    show ?thesis
      by (rule exI [of _ rl1], rule exI [of _ "case r1 of Inr _ \<Rightarrow> counted @ [(now, to_lower d)] | Inl _ \<Rightarrow> counted"])
        (use * inv in \<open>auto split: sum.splits\<close>)
  qed
qed

lemma world_inv_message [inv_intros]:
  assumes inv: "world_inv rv cfg w" and clock: "mono (rv_clock rv)" and r: "r \<noteq> []"
    and peer: "is_trusted (rv_cidr rv) (rv_trusted_hosts rv) (ss_peer s)" "\<not> th_require_tls (rv_trusted_hosts rv)"
    and hm: "handle_message rv mf r m s w = (s', w')"
  shows "world_inv rv cfg w'"
proof -
  let ?now = "rv_clock rv (rw_handled w)" and ?d = "rsplit_first (CHR ''@'') mf"
  obtain rl t counted where pol: "rw_policy w = build_policy cfg\<lparr>pc_rate_limit := rl\<rparr>"
    and m1: "orl_max_per_hour rl = opc_max_messages_per_domain_per_hour cfg"
    and rate: "rate_inv t counted rl" "t \<le> ?now"
    and sub: "subseq (map (\<lambda>a. (am_time a, to_lower (am_domain a))) (rw_accepted w)) counted"
    and ok: "\<forall>a \<in> set (rw_accepted w). accept_ok rv cfg a"
    using inv unfolding world_inv_def by blast
  obtain res pc where chk: "outbound_policy_checker_check ?now ?d (length r) m (rw_policy w) = (res, pc)"
    by (cases "outbound_policy_checker_check ?now ?d (length r) m (rw_policy w)")
  note hw = handle_message_world [OF hm chk]
  obtain rl' counted' where pc: "pc = build_policy cfg\<lparr>pc_rate_limit := rl'\<rparr>"
    and m2: "orl_max_per_hour rl' = orl_max_per_hour rl" and rate': "rate_inv ?now counted' rl'"
    and cnt: "if res = Inr () then counted' = counted @ [(?now, to_lower ?d)] else prefix counted counted'"
    using policy_check_rate [OF chk [unfolded pol] rate] by blast
  have le: "?now \<le> rv_clock rv (rw_handled w')" using clock by (simp add: hw(1) monoD)
  have pre: "prefix counted counted'" using cnt by (auto split: if_splits)
  have mem: "subseq (map (\<lambda>a. (am_time a, to_lower (am_domain a))) (rw_accepted w')) counted' \<and>
      (\<forall>a \<in> set (rw_accepted w'). accept_ok rv cfg a)"
    using hw(3)
  proof
    assume "rw_accepted w' = rw_accepted w"
    then show ?thesis
      using sub ok pre by (auto intro: subseq_order.trans prefix_imp_subseq)
  next
    assume "res = Inr () \<and> (\<exists>q. rw_accepted w' = rw_accepted w @
        [\<lparr>am_peer = ss_peer s, am_time = ?now, am_queue_id = q,
          am_envelope = \<lparr>env_mail_from = mf, env_rcpt_to = r\<rparr>, am_received = m,
          am_stored = final_message rv ?d m\<rparr>])"
    moreover from this have "policy_admits cfg ?d (length r) m"
      using policy_check_admits(1) chk pol by metis
    ultimately show ?thesis
      using sub ok cnt peer r
      by (auto simp: accept_ok_def final_message_suffix intro: list_emb_append_mono)
  qed
  show ?thesis
    unfolding world_inv_def
    by (intro conjI exI [of _ rl'] exI [of _ ?now] exI [of _ counted'])
      (use pc hw(2) m1 m2 rate' le mem in auto)
qed

lemma handle_data_cases:
  assumes "handle_data rv s w = (s', w')"
  obtains "w' = w"
  | mf r m s1 where "r \<noteq> []" "ss_peer s1 = ss_peer s" "handle_message rv mf r m s1 w = (s', w')"
proof (cases "\<exists>mf r m rest. ss_state s = SRcptTo mf r \<and> r \<noteq> [] \<and> read_data [] (ss_input s) = DataDone m rest")
  case True
  then obtain mf r m rest where *: "ss_state s = SRcptTo mf r" "r \<noteq> []" "read_data [] (ss_input s) = DataDone m rest"
    by blast
  let ?s1 = "(reply ''354 Start mail input; end with <CRLF>.<CRLF>'' s)\<lparr>ss_input := rest\<rparr>"
  have "handle_message rv mf r m ?s1 w = (s', w')" "ss_peer ?s1 = ss_peer s"
    using assms * by (simp_all add: handle_data_def)
  then show ?thesis using *(2) that(2) by blast
next
  case False
  then have "w' = w"
    using assms by (auto simp: handle_data_def Let_def split: session_state.splits if_splits data_result.splits)
  then show ?thesis by (rule that(1))
qed

lemma session_step_cases:
  assumes "session_step rv s w = (s', w')"
  obtains "w' = w"
  | mf r m s1 where "r \<noteq> []" "ss_peer s1 = ss_peer s" "handle_message rv mf r m s1 w = (s', w')"
proof (cases "handle_data rv (s\<lparr>ss_input := snd (read_line (ss_input s))\<rparr>) w = (s', w')")
  case True
  then show ?thesis by (rule handle_data_cases) (use that in auto)
next
  case False
  then have "w' = w"
    using assms by (auto simp: session_step_def handle_command_def split: if_splits prod.splits smtp_command.splits)
  then show ?thesis by (rule that(1))
qed

definition peer_ok :: "('net, 'key) smtp_receiver \<Rightarrow> smtp_session \<Rightarrow> bool" where
  "peer_ok rv s \<longleftrightarrow> (ss_open s \<longrightarrow>
     is_trusted (rv_cidr rv) (rv_trusted_hosts rv) (ss_peer s) \<and> \<not> th_require_tls (rv_trusted_hosts rv))"

lemma peer_ok_open: "peer_ok rv (session_open rv peer input)"
  by (simp add: peer_ok_def session_open_def Let_def)

lemma peer_ok_step:
  assumes "session_step rv s w = (s', w')" "peer_ok rv s"
  shows "peer_ok rv s'"
  using assms(2) session_step_session [OF assms(1)] by (simp add: peer_ok_def)

lemma world_inv_step [inv_intros]:
  assumes "session_step rv s w = (s', w')" "world_inv rv cfg w" "mono (rv_clock rv)" "peer_ok rv s" "ss_open s"
  shows "world_inv rv cfg w'"
  using assms(1)
proof (cases rule: session_step_cases)
  case 1
  with assms(2) show ?thesis by simp
next
  case (2 mf r m s1)
  have "is_trusted (rv_cidr rv) (rv_trusted_hosts rv) (ss_peer s1) \<and> \<not> th_require_tls (rv_trusted_hosts rv)"
    using assms(4,5) 2(2) by (simp add: peer_ok_def)
  then show ?thesis using world_inv_message [OF assms(2,3) 2(1) _ _ 2(3)] by blast
qed

lemma relay_step_inv:
  assumes "relay_step rv st st'" "mono (rv_clock rv)"
    and "world_inv rv cfg (snd st)" "list_all (peer_ok rv) (fst st)"
  shows "world_inv rv cfg (snd st') \<and> list_all (peer_ok rv) (fst st')"
  using assms
proof (induction rule: relay_step.induct)
  case (Accept ss w peer input)
  then show ?case by (simp add: peer_ok_open)
next
  case (Command i ss w s' w')
  then have "peer_ok rv (ss ! i)" by (simp add: list_all_length)
  with Command show ?case
    by (auto simp: list_all_iff intro: world_inv_step peer_ok_step dest!: set_update_subset_insert [THEN subsetD])
qed

lemma relay_reachable_inv:
  assumes "(relay_step rv)\<^sup>*\<^sup>* ([], relay_world_init cfg fs) st" "mono (rv_clock rv)"
  shows "world_inv rv cfg (snd st) \<and> list_all (peer_ok rv) (fst st)"
  using assms(1)
proof induction
  case base
  show ?case by (simp add: world_inv_init)
next
  case (step y z)
  then show ?case using relay_step_inv [OF step(2) assms(2)] by blast
qed

lemma subseq_length_filter: "subseq xs ys \<Longrightarrow> length (filter P xs) \<le> length (filter P ys)"
  by (induction rule: list_emb.induct) auto

lemma world_inv_rate:
  assumes "world_inv rv cfg w"
  shows "length (filter (\<lambda>a. to_lower (am_domain a) = to_lower d \<and> now - ONE_HOUR < am_time a \<and> am_time a \<le> now)
    (rw_accepted w)) \<le> unat (opc_max_messages_per_domain_per_hour cfg)"
proof -
  let ?P = "\<lambda>x. snd x = to_lower d \<and> now - ONE_HOUR < fst x \<and> fst x \<le> now"
  let ?f = "\<lambda>a. (am_time a, to_lower (am_domain a))"
  obtain rl t counted where "orl_max_per_hour rl = opc_max_messages_per_domain_per_hour cfg"
    and "rate_inv t counted rl" and sub: "subseq (map ?f (rw_accepted w)) counted"
    using assms unfolding world_inv_def by blast
  then have "length (filter (\<lambda>t. now - ONE_HOUR < t \<and> t \<le> now) (sent_by (to_lower d) counted))
      \<le> unat (opc_max_messages_per_domain_per_hour cfg)"
    by (auto simp: rate_inv_def hour.bounded_def)
  moreover have "length (filter (\<lambda>t. now - ONE_HOUR < t \<and> t \<le> now) (sent_by (to_lower d) xs)) =
      length (filter ?P xs)" for xs
    by (induction xs) auto
  moreover have "length (filter ?P (map ?f as)) = length (filter (\<lambda>a. ?P (?f a)) as)" for as
    by (simp add: filter_map comp_def)
  ultimately show ?thesis using subseq_length_filter [OF sub, of ?P] by simp
qed


end
