(* ===== verification/Relay_Delivery.thy ===== *)
theory Relay_Delivery
  imports Relay_Queue Protocols
begin

text \<open>
  The delivering side of the relay (\<^verbatim>\<open>delivery/*.rs\<close>, \<^verbatim>\<open>bounce.rs\<close>): the SMTP client, MX
  resolution, bounces and the delivery of queued messages.  The network is a function from addresses
  to the bytes a peer will send, the TLS handshake and the DNS resolver are arguments, and an error is
  its text.  Writes to a peer succeed; a peer that fails is one whose bytes end.  A delivery sees one
  value of the clock.
\<close>

section \<open>The SMTP client\<close>

datatype delivery_result = Success str | TempFail str | PermFail str

text \<open>A connection: the bytes still to be read, the bytes written in the clear and those written
  inside TLS.\<close>

record connection =
  cn_in :: str
  cn_out :: str
  cn_tls_out :: str
  cn_secure :: bool

type_synonym 'a conversation = "connection \<Rightarrow> (str, 'a) result \<times> connection"

definition conv_return :: "'a \<Rightarrow> 'a conversation" where
  "conv_return a c = (Inr a, c)"

definition conv_fail :: "str \<Rightarrow> 'a conversation" where
  "conv_fail e c = (Inl e, c)"

definition conv_bind :: "'a conversation \<Rightarrow> ('a \<Rightarrow> 'b conversation) \<Rightarrow> 'b conversation" where
  "conv_bind m f c = (case m c of (Inl e, c1) \<Rightarrow> (Inl e, c1) | (Inr a, c1) \<Rightarrow> f a c1)"

definition conv_write :: "str \<Rightarrow> unit conversation" where
  "conv_write s c =
     (Inr (), if cn_secure c then c\<lparr>cn_tls_out := cn_tls_out c @ s\<rparr> else c\<lparr>cn_out := cn_out c @ s\<rparr>)"

text \<open>\<^verbatim>\<open>read_response\<close>: lines up to one with a blank as fourth byte or with fewer than four bytes.\<close>

function read_response_lines :: "str \<Rightarrow> str \<Rightarrow> (str, str) result \<times> str" where
  "read_response_lines full_response input =
     (if input = [] then (Inl ''connection closed unexpectedly'', [])
      else let line = fst (read_line input); rest = snd (read_line input) in
        if \<not> utf8_valid line then (Inl ''stream did not contain valid UTF-8'', rest)
        else if 4 \<le> length line \<and> line ! 3 = CHR '' '' \<or> length line < 4
        then (Inr (trim (full_response @ line)), rest)
        else read_response_lines (full_response @ line) rest)"
  by pat_completeness auto
termination
  by (relation "measure (length \<circ> snd)") (auto simp: read_line_shrinks)

declare read_response_lines.simps [simp del]

definition read_response :: "str conversation" where
  "read_response c = (case read_response_lines [] (cn_in c) of (r, rest) \<Rightarrow> (r, c\<lparr>cn_in := rest\<rparr>))"

definition ensure_positive :: "str \<Rightarrow> unit conversation" where
  "ensure_positive response =
     (if starts_with response ''2'' then conv_return () else conv_fail response)"

definition command_ok :: "str \<Rightarrow> str conversation" where
  "command_ok cmd =
     conv_bind (conv_write (write_cmd cmd)) (\<lambda>_.
     conv_bind read_response (\<lambda>resp.
     conv_bind (ensure_positive resp) (\<lambda>_. conv_return resp)))"

primrec rcpt_commands :: "str list \<Rightarrow> unit conversation" where
  "rcpt_commands [] = conv_return ()"
| "rcpt_commands (rcpt # rcpts) =
     conv_bind (command_ok (''RCPT TO:<'' @ rcpt @ ''>'')) (\<lambda>_. rcpt_commands rcpts)"

definition smtp_conversation :: "str \<Rightarrow> str list \<Rightarrow> str \<Rightarrow> str conversation" where
  "smtp_conversation mail_from rcpt_to message =
     conv_bind (command_ok (''MAIL FROM:<'' @ mail_from @ ''>'')) (\<lambda>_.
     conv_bind (rcpt_commands rcpt_to) (\<lambda>_.
     conv_bind (conv_write (write_cmd ''DATA'')) (\<lambda>_.
     conv_bind read_response (\<lambda>data_resp.
       if \<not> starts_with data_resp ''3'' then conv_fail data_resp
       else
         conv_bind (conv_write (smtp_body message)) (\<lambda>_.
         conv_bind read_response (\<lambda>final_resp.
         conv_bind (ensure_positive final_resp) (\<lambda>_.
         conv_bind (conv_write (write_cmd ''QUIT'')) (\<lambda>_.
           conv_return final_resp))))))))"

text \<open>The network: the bytes a peer will send on a connection, and inside TLS once a handshake with it
  succeeded.  Bytes read ahead of the handshake are dropped.\<close>

record network =
  nw_connect :: "socket_addr \<Rightarrow> str option"
  nw_handshake :: "socket_addr \<Rightarrow> str \<Rightarrow> (str, str) result"

record smtp_sender =
  sn_hostname :: str
  sn_tls :: "bool option"

definition start_tls :: "network \<Rightarrow> socket_addr \<Rightarrow> str \<Rightarrow> unit conversation" where
  "start_tls nw addr mx_host c =
     (case nw_handshake nw addr mx_host of
        Inl e \<Rightarrow> (Inl (''STARTTLS handshake failed: '' @ e), c)
      | Inr bytes \<Rightarrow> (Inr (), c\<lparr>cn_in := bytes, cn_secure := True\<rparr>))"

definition send_inner ::
  "network \<Rightarrow> smtp_sender \<Rightarrow> socket_addr \<Rightarrow> str \<Rightarrow> str \<Rightarrow> str list \<Rightarrow> str \<Rightarrow> (str, str) result \<times> connection" where
  "send_inner nw sn addr mx_host mail_from rcpt_to message =
     (case nw_connect nw addr of
        None \<Rightarrow> (Inl (''failed to connect to '' @ socket_addr_to_string addr),
                 \<lparr>cn_in = [], cn_out = [], cn_tls_out = [], cn_secure = False\<rparr>)
      | Some bytes \<Rightarrow>
          conv_bind read_response (\<lambda>banner.
          conv_bind (ensure_positive banner) (\<lambda>_.
          conv_bind (command_ok (''EHLO '' @ sn_hostname sn)) (\<lambda>ehlo_resp.
            if contains (to_upper ehlo_resp) ''STARTTLS'' \<and> sn_tls sn = Some True
            then
              conv_bind (conv_write (write_cmd ''STARTTLS'')) (\<lambda>_.
              conv_bind read_response (\<lambda>tls_resp.
                if starts_with tls_resp ''2''
                then
                  conv_bind (start_tls nw addr mx_host) (\<lambda>_.
                  conv_bind (conv_write (write_cmd (''EHLO '' @ sn_hostname sn))) (\<lambda>_.
                  conv_bind read_response (\<lambda>_.
                    smtp_conversation mail_from rcpt_to message)))
                else smtp_conversation mail_from rcpt_to message))
            else smtp_conversation mail_from rcpt_to message)))
          \<lparr>cn_in = bytes, cn_out = [], cn_tls_out = [], cn_secure = False\<rparr>)"

definition smtp_send ::
  "network \<Rightarrow> smtp_sender \<Rightarrow> socket_addr \<Rightarrow> str \<Rightarrow> str \<Rightarrow> str list \<Rightarrow> str \<Rightarrow> delivery_result" where
  "smtp_send nw sn addr mx_host mail_from rcpt_to message =
     (case fst (send_inner nw sn addr mx_host mail_from rcpt_to message) of
        Inr response \<Rightarrow> Success response
      | Inl msg \<Rightarrow> if starts_with msg ''5'' \<and> 2 < length msg then PermFail msg else TempFail msg)"

section \<open>MX resolution\<close>

record mx_host =
  mx_hostname :: str
  mx_priority :: u16
  mx_addresses :: "ip_addr list"

text \<open>The resolver: MX records with preference and exchange, and the addresses of a host.\<close>

record dns_lib =
  dns_mx :: "str \<Rightarrow> (u16 \<times> str) list option"
  dns_ip :: "str \<Rightarrow> ip_addr list option"

definition fallback_a_record :: "dns_lib \<Rightarrow> str \<Rightarrow> (str, mx_host list) result" where
  "fallback_a_record dns domain =
     (case dns_ip dns domain of
        None \<Rightarrow> Inl (''failed to resolve '' @ domain)
      | Some addresses \<Rightarrow>
          if addresses = [] then Inl (''no MX or A/AAAA records found for '' @ domain)
          else Inr [\<lparr>mx_hostname = domain, mx_priority = 0, mx_addresses = addresses\<rparr>])"

definition mx_entry :: "dns_lib \<Rightarrow> u16 \<times> str \<Rightarrow> mx_host option" where
  "mx_entry dns h =
     (let addresses = (case dns_ip dns (snd h) of Some a \<Rightarrow> a | None \<Rightarrow> []) in
      if addresses = [] then None
      else Some \<lparr>mx_hostname = snd h, mx_priority = fst h, mx_addresses = addresses\<rparr>)"

definition mx_resolve :: "dns_lib \<Rightarrow> str \<Rightarrow> (str, mx_host list) result" where
  "mx_resolve dns domain =
     (case dns_mx dns domain of
        Some records \<Rightarrow>
          let hosts = sort_key fst (map (\<lambda>(pref, exch). (pref, trim_end_char (CHR ''.'') exch)) records);
              result = List.map_filter (mx_entry dns) hosts
          in if result = [] then fallback_a_record dns domain else Inr result
      | None \<Rightarrow> fallback_a_record dns domain)"

section \<open>Bounces\<close>

record bounce_generator =
  bg_sender :: str
  bg_include_original_headers :: bool

definition bounce_generator_new :: "str option \<Rightarrow> bool \<Rightarrow> bounce_generator" where
  "bounce_generator_new sender incl =
     \<lparr>bg_sender = (case sender of Some s \<Rightarrow> s | None \<Rightarrow> []), bg_include_original_headers = incl\<rparr>"

definition extract_headers :: "str \<Rightarrow> str" where
  "extract_headers message =
     (let msg = from_utf8_lossy message in
      case find_sub msg (CRLF @ CRLF) of
        Some pos \<Rightarrow> take pos msg
      | None \<Rightarrow> (case find_sub msg [LF, LF] of Some pos \<Rightarrow> take pos msg | None \<Rightarrow> msg))"

text \<open>What a bounce takes from its surroundings: the time as seconds, milliseconds and date, a UUID.\<close>

record bounce_stamp =
  bs_timestamp :: int
  bs_timestamp_millis :: int
  bs_uuid :: str
  bs_date :: str

definition is_null_sender :: "str \<Rightarrow> bool" where
  "is_null_sender mail_from =
     (mail_from = [] \<or> eq_ignore_ascii_case mail_from ''MAILER-DAEMON'' \<or> mail_from = ''<>'')"

definition recipient_report :: "str \<Rightarrow> str \<Rightarrow> str" where
  "recipient_report error_message rcpt =
     ''Final-Recipient: rfc822;'' @ rcpt @ CRLF @ ''Action: failed'' @ CRLF @ ''Status: 5.0.0'' @ CRLF @
     ''Diagnostic-Code: smtp; '' @ error_message @ CRLF"

definition bounce_body ::
  "bounce_generator \<Rightarrow> bounce_stamp \<Rightarrow> envelope \<Rightarrow> str \<Rightarrow> str \<Rightarrow> str" where
  "bounce_body bg st env error_message original_headers =
     (let boundary = ''=_bounce_'' @ show_int (bs_timestamp_millis st);
          message_id = ''<bounce-'' @ show_int (bs_timestamp st) @ ''-'' @ bs_uuid st @ ''@localhost>'';
          recipients_report = join CRLF (map (recipient_report error_message) (env_rcpt_to env))
      in ''From: MAILER-DAEMON <'' @ bg_sender bg @ ''>'' @ CRLF @
         ''To: <'' @ env_mail_from env @ ''>'' @ CRLF @
         ''Date: '' @ bs_date st @ CRLF @
         ''Message-ID: '' @ message_id @ CRLF @
         ''Subject: Delivery Status Notification (Failure)'' @ CRLF @
         ''MIME-Version: 1.0'' @ CRLF @
         ''Content-Type: multipart/report; report-type=delivery-status;'' @ CRLF @
         ''    boundary='' @ [CHR 0x22] @ boundary @ [CHR 0x22] @ CRLF @ CRLF @
         ''--'' @ boundary @ CRLF @
         ''Content-Type: text/plain; charset=utf-8'' @ CRLF @ CRLF @
         ''This is an automatically generated Delivery Status Notification.'' @ CRLF @ CRLF @
         ''Delivery to the following recipients failed:'' @ CRLF @ CRLF @
         join '', '' (env_rcpt_to env) @ CRLF @ CRLF @
         ''Error: '' @ error_message @ CRLF @ CRLF @
         ''--'' @ boundary @ CRLF @
         ''Content-Type: message/delivery-status'' @ CRLF @ CRLF @
         ''Reporting-MTA: dns; localhost'' @ CRLF @
         ''Arrival-Date: '' @ bs_date st @ CRLF @ CRLF @
         recipients_report @ CRLF @
         ''--'' @ boundary @ CRLF @
         ''Content-Type: text/rfc822-headers'' @ CRLF @ CRLF @
         original_headers @ CRLF @
         ''--'' @ boundary @ ''--'' @ CRLF)"

definition bounce_generate ::
  "bounce_generator \<Rightarrow> bounce_stamp \<Rightarrow> envelope \<Rightarrow> str \<Rightarrow> str \<Rightarrow> (envelope \<times> str) option" where
  "bounce_generate bg st env error_message original_message =
     (if is_null_sender (env_mail_from env) then None
      else let original_headers =
                 (if bg_include_original_headers bg then extract_headers original_message else [])
           in Some (\<lparr>env_mail_from = bg_sender bg, env_rcpt_to = [env_mail_from env]\<rparr>,
                    bounce_body bg st env error_message original_headers))"

section \<open>Delivering queued messages\<close>

text \<open>The manager's parts, and what one delivery takes from its surroundings: the clock, the network,
  DNS, and the identifier and stamp of a bounce.\<close>

record delivery_env =
  de_scheduler :: retry_scheduler
  de_sender :: smtp_sender
  de_bounce_gen :: bounce_generator
  de_now :: int
  de_network :: network
  de_dns :: dns_lib
  de_bounce_id :: str
  de_stamp :: bounce_stamp

definition enqueue_bounce ::
  "queue_json_lib \<Rightarrow> io_env \<Rightarrow> delivery_env \<Rightarrow> envelope \<Rightarrow> str \<Rightarrow> str \<Rightarrow> spool_fs \<Rightarrow> spool_fs" where
  "enqueue_bounce js io de env err message fs =
     (case bounce_generate (de_bounce_gen de) (de_stamp de) env err message of
        Some (bounce_env, bounce_msg) \<Rightarrow>
          snd (spool_enqueue js io (de_bounce_id de) (de_now de) bounce_env bounce_msg fs)
      | None \<Rightarrow> fs)"

definition handle_temp_fail ::
  "queue_json_lib \<Rightarrow> io_env \<Rightarrow> delivery_env \<Rightarrow> str \<Rightarrow> str \<Rightarrow> queued_message \<Rightarrow> spool_fs \<Rightarrow>
   (spool_error, unit) result \<times> spool_fs" where
  "handle_temp_fail js io de queue_id err queued fs =
     (let md = qm_metadata queued in
      if is_expired (de_scheduler de) (de_now de) (mm_created md)
      then spool_remove io queue_id (enqueue_bounce js io de (qm_envelope queued) err [] fs)
      else case next_retry_time (de_scheduler de) (de_now de) (mm_attempts md) of
             Some nxt \<Rightarrow>
               spool_update_metadata js io queue_id
                 (md\<lparr>mm_next_retry := nxt, mm_status := Deferred, mm_last_error := Some err\<rparr>) fs
           | None \<Rightarrow>
               spool_remove io queue_id (enqueue_bounce js io de (qm_envelope queued) err [] fs))"

text \<open>The hosts in order, each address of a host in order; the last temporary error is kept.\<close>

fun try_addresses ::
  "(socket_addr \<Rightarrow> str \<Rightarrow> delivery_result) \<Rightarrow> str option \<Rightarrow> (str \<times> ip_addr) list \<Rightarrow>
   (str option, delivery_result) result" where
  "try_addresses send last_error [] = Inl last_error"
| "try_addresses send last_error ((host, addr) # rest) =
     (case send \<lparr>sa_ip = addr, sa_port = 25\<rparr> host of
        TempFail err \<Rightarrow> try_addresses send (Some err) rest
      | r \<Rightarrow> Inr r)"

definition host_addresses :: "mx_host list \<Rightarrow> (str \<times> ip_addr) list" where
  "host_addresses hosts = concat (map (\<lambda>h. map (\<lambda>a. (mx_hostname h, a)) (mx_addresses h)) hosts)"

definition recipient_domain :: "envelope \<Rightarrow> str" where
  "recipient_domain env =
     (case env_rcpt_to env of [] \<Rightarrow> ''localhost'' | r # _ \<Rightarrow> rsplit_first (CHR ''@'') r)"

definition deliver_message ::
  "queue_json_lib \<Rightarrow> io_env \<Rightarrow> delivery_env \<Rightarrow> str \<Rightarrow> spool_fs \<Rightarrow> (spool_error, unit) result \<times> spool_fs" where
  "deliver_message js io de queue_id fs =
     (case spool_dequeue js io queue_id fs of
        Inl e \<Rightarrow> (Inl e, fs)
      | Inr (queued0, msg_bytes) \<Rightarrow>
          let md = (qm_metadata queued0)\<lparr>mm_status := Active, mm_attempts := mm_attempts (qm_metadata queued0) + 1\<rparr>;
              queued = queued0\<lparr>qm_metadata := md\<rparr>;
              env = qm_envelope queued
          in case spool_update_metadata js io queue_id md fs of
               (Inl e, fs1) \<Rightarrow> (Inl e, fs1)
             | (Inr _, fs1) \<Rightarrow>
                 (case mx_resolve (de_dns de) (recipient_domain env) of
                    Inl e \<Rightarrow> handle_temp_fail js io de queue_id e queued fs1
                  | Inr mx_hosts \<Rightarrow>
                      (case try_addresses
                              (\<lambda>addr host. smtp_send (de_network de) (de_sender de) addr host
                                 (env_mail_from env) (env_rcpt_to env) msg_bytes)
                              (mm_last_error md) (host_addresses mx_hosts) of
                         Inr (PermFail err) \<Rightarrow>
                           spool_remove io queue_id (enqueue_bounce js io de env err msg_bytes fs1)
                       | Inr _ \<Rightarrow> spool_remove io queue_id fs1
                       | Inl last_error \<Rightarrow>
                           handle_temp_fail js io de queue_id
                             (case last_error of Some e \<Rightarrow> e | None \<Rightarrow> [])
                             (queued\<lparr>qm_metadata := md\<lparr>mm_last_error := last_error\<rparr>\<rparr>) fs1)))"

text \<open>One scan of the queue: the pending and deferred messages that are due, in the order of the
  directory; the tasks run one after the other here, each with its own surroundings.\<close>

definition is_due :: "int \<Rightarrow> queued_message \<Rightarrow> bool" where
  "is_due now msg =
     ((mm_status (qm_metadata msg) = Pending \<or> mm_status (qm_metadata msg) = Deferred) \<and>
      mm_next_retry (qm_metadata msg) \<le> now)"

definition process_queue ::
  "queue_json_lib \<Rightarrow> io_env \<Rightarrow> (str \<Rightarrow> delivery_env) \<Rightarrow> int \<Rightarrow> spool_fs \<Rightarrow> (spool_error, unit) result \<times> spool_fs" where
  "process_queue js io de now fs =
     (case spool_list js io fs of
        Inl e \<Rightarrow> (Inl e, fs)
      | Inr messages \<Rightarrow>
          (Inr (), foldl (\<lambda>fs1 msg. snd (deliver_message js io (de (qm_id msg)) (qm_id msg) fs1)) fs
                     (filter (is_due now) messages)))"

section \<open>An abstract queue\<close>

text \<open>A queue as a map from identifiers to messages, and what one delivery does to it.\<close>

type_synonym abs_queue = "str \<Rightarrow> (queued_message \<times> str) option"

definition abs_spool :: "queue_json_lib \<Rightarrow> spool_fs \<Rightarrow> abs_queue" where
  "abs_spool js fs = (\<lambda>i. result_option (spool_dequeue js io_reliable i fs))"

text \<open>\<open>Inr\<close> a final result, \<open>Inl\<close> the error of a delivery that may be tried again.\<close>

definition attempt :: "delivery_env \<Rightarrow> queued_message \<Rightarrow> str \<Rightarrow> (str, delivery_result) result" where
  "attempt de q m =
     bind_result (mx_resolve (de_dns de) (recipient_domain (qm_envelope q))) (\<lambda>hosts.
       case try_addresses
              (\<lambda>addr host. smtp_send (de_network de) (de_sender de) addr host
                 (env_mail_from (qm_envelope q)) (env_rcpt_to (qm_envelope q)) m)
              (mm_last_error (qm_metadata q)) (host_addresses hosts) of
         Inl last_error \<Rightarrow> Inl (case last_error of Some e \<Rightarrow> e | None \<Rightarrow> [])
       | Inr r \<Rightarrow> Inr r)"

definition retry_at :: "delivery_env \<Rightarrow> message_metadata \<Rightarrow> int option" where
  "retry_at de md =
     (if is_expired (de_scheduler de) (de_now de) (mm_created md) then None
      else next_retry_time (de_scheduler de) (de_now de) (mm_attempts md))"

definition abs_bounce :: "delivery_env \<Rightarrow> envelope \<Rightarrow> str \<Rightarrow> str \<Rightarrow> abs_queue \<Rightarrow> abs_queue" where
  "abs_bounce de env err m \<sigma> =
     (case bounce_generate (de_bounce_gen de) (de_stamp de) env err m of
        Some (e, b) \<Rightarrow> \<sigma>(de_bounce_id de \<mapsto> (new_queued_message (de_bounce_id de) (de_now de) e b, b))
      | None \<Rightarrow> \<sigma>)"

definition abs_deliver :: "delivery_env \<Rightarrow> str \<Rightarrow> abs_queue \<Rightarrow> abs_queue" where
  "abs_deliver de i \<sigma> =
     (case \<sigma> i of
        None \<Rightarrow> \<sigma>
      | Some (q, m) \<Rightarrow>
          let md = (qm_metadata q)\<lparr>mm_status := Active, mm_attempts := mm_attempts (qm_metadata q) + 1\<rparr> in
          case attempt de q m of
            Inr (PermFail err) \<Rightarrow> (abs_bounce de (qm_envelope q) err m \<sigma>)(i := None)
          | Inr _ \<Rightarrow> \<sigma>(i := None)
          | Inl err \<Rightarrow>
              (case retry_at de md of
                 Some nxt \<Rightarrow>
                   \<sigma>(i \<mapsto> (q\<lparr>qm_metadata := md\<lparr>mm_next_retry := nxt, mm_status := Deferred,
                                            mm_last_error := Some err\<rparr>\<rparr>, m))
               | None \<Rightarrow> (abs_bounce de (qm_envelope q) err [] \<sigma>)(i := None)))"

text \<open>A delivery in two parts: the attempt, and what is made of its outcome.\<close>

definition settle ::
  "queue_json_lib \<Rightarrow> io_env \<Rightarrow> delivery_env \<Rightarrow> str \<Rightarrow> queued_message \<Rightarrow> message_metadata \<Rightarrow> str \<Rightarrow>
   (str, delivery_result) result \<Rightarrow> spool_fs \<Rightarrow> (spool_error, unit) result \<times> spool_fs" where
  "settle js io de i q md m outcome fs =
     (case outcome of
        Inr (PermFail err) \<Rightarrow> spool_remove io i (enqueue_bounce js io de (qm_envelope q) err m fs)
      | Inr _ \<Rightarrow> spool_remove io i fs
      | Inl err \<Rightarrow> handle_temp_fail js io de i err (q\<lparr>qm_metadata := md\<rparr>) fs)"

lemma handle_temp_fail_last_error:
  "handle_temp_fail js io de i err (q\<lparr>qm_metadata := md\<lparr>mm_last_error := le\<rparr>\<rparr>) fs =
   handle_temp_fail js io de i err (q\<lparr>qm_metadata := md\<rparr>) fs"
  by (simp add: handle_temp_fail_def Let_def split: option.split)

lemma deliver_message_eq:
  assumes "spool_dequeue js io i fs = Inr (q, m)"
    and md: "md = (qm_metadata q)\<lparr>mm_status := Active, mm_attempts := mm_attempts (qm_metadata q) + 1\<rparr>"
    and "spool_update_metadata js io i md fs = (Inr (), fs1)"
  shows "deliver_message js io de i fs = settle js io de i q md m (attempt de q m) fs1"
proof -
  have le: "mm_last_error md = mm_last_error (qm_metadata q)" by (simp add: md)
  show ?thesis
    unfolding deliver_message_def assms(1) sum.case prod.case Let_def md [symmetric] assms(3) attempt_def le
    by (cases "mx_resolve (de_dns de) (recipient_domain (qm_envelope q))")
      (auto simp: settle_def handle_temp_fail_last_error split: sum.split delivery_result.split)
qed

context queue_json
begin

lemma abs_store: "abs_spool js (snd (spool_store js io_reliable i q m fs)) = (abs_spool js fs)(i \<mapsto> (q, m))"
  by (rule ext) (simp add: abs_spool_def dequeue_store)

lemma abs_remove: "abs_spool js (snd (spool_remove io_reliable i fs)) = (abs_spool js fs)(i := None)"
  by (rule ext) (simp add: abs_spool_def dequeue_remove)

lemma abs_update:
  "abs_spool js fs i = Some (q, m) \<Longrightarrow>
   abs_spool js (snd (spool_update_metadata js io_reliable i md fs)) =
     (abs_spool js fs)(i \<mapsto> (q\<lparr>qm_metadata := md\<rparr>, m))"
  by (rule ext) (simp add: abs_spool_def dequeue_update)

lemma update_succeeds:
  assumes "abs_spool js fs i = Some (q, m)"
  shows "fst (spool_update_metadata js io_reliable i md fs) = Inr ()"
proof -
  from assms obtain b where "map_of fs (meta_path i) = Some b" "qj_from_slice js b = Some q"
    by (auto simp: abs_spool_def dequeue_unfold bind_eq_Some_conv)
  from update_unfold [OF this, of md] show ?thesis by auto
qed

lemma abs_enqueue_bounce:
  "abs_spool js (enqueue_bounce js io_reliable de env err m fs) = abs_bounce de env err m (abs_spool js fs)"
  by (simp add: enqueue_bounce_def abs_bounce_def spool_enqueue_def abs_store split: option.split prod.split)

lemma abs_bounce_upd: "(abs_bounce de env err m (\<sigma>(i := x)))(i := None) = (abs_bounce de env err m \<sigma>)(i := None)"
  by (auto simp: abs_bounce_def fun_eq_iff split: option.split)

lemma abs_handle_temp_fail:
  assumes "abs_spool js fs i = Some (q0, m)"
  shows "abs_spool js (snd (handle_temp_fail js io_reliable de i err (q0\<lparr>qm_metadata := md\<rparr>) fs)) =
    (case retry_at de md of
       Some nxt \<Rightarrow> (abs_spool js fs)
         (i \<mapsto> (q0\<lparr>qm_metadata := md\<lparr>mm_next_retry := nxt, mm_status := Deferred, mm_last_error := Some err\<rparr>\<rparr>, m))
     | None \<Rightarrow> (abs_bounce de (qm_envelope q0) err [] (abs_spool js fs))(i := None))"
  using assms
  by (simp add: handle_temp_fail_def retry_at_def abs_remove abs_enqueue_bounce abs_update Let_def
      split: option.split)

lemma deliver_refines:
  "abs_spool js (snd (deliver_message js io_reliable de i fs)) = abs_deliver de i (abs_spool js fs)"
proof (cases "spool_dequeue js io_reliable i fs")
  case (Inl e)
  then have "abs_spool js fs i = None" by (simp add: abs_spool_def result_option_def)
  with Inl show ?thesis by (simp add: deliver_message_def abs_deliver_def)
next
  case (Inr x)
  obtain q m where x: "x = (q, m)" by (cases x)
  have pre: "abs_spool js fs i = Some (q, m)" using Inr x by (simp add: abs_spool_def result_option_def)
  let ?md = "(qm_metadata q)\<lparr>mm_status := Active, mm_attempts := mm_attempts (qm_metadata q) + 1\<rparr>"
  let ?fs = "snd (spool_update_metadata js io_reliable i ?md fs)"
  have upd: "spool_update_metadata js io_reliable i ?md fs = (Inr (), ?fs)"
    using update_succeeds [OF pre, of ?md] by (metis prod.collapse)
  have abs1: "abs_spool js ?fs = (abs_spool js fs)(i \<mapsto> (q\<lparr>qm_metadata := ?md\<rparr>, m))"
    by (rule abs_update [OF pre])
  then have pre1: "abs_spool js ?fs i = Some (q\<lparr>qm_metadata := ?md\<rparr>, m)" by simp
  have eq: "deliver_message js io_reliable de i fs = settle js io_reliable de i q ?md m (attempt de q m) ?fs"
    by (rule deliver_message_eq [OF Inr [unfolded x] refl upd])
  note htf = abs_handle_temp_fail [OF pre1, simplified]
  note spec = abs_deliver_def pre option.case prod.case Let_def
  show ?thesis
  proof (cases "attempt de q m")
    case (Inl err)
    then show ?thesis
      unfolding eq spec by (simp add: settle_def htf abs1 abs_bounce_upd split: option.split)
  next
    case (Inr r)
    then show ?thesis
      unfolding eq spec
      by (cases r) (simp_all add: settle_def abs1 abs_remove abs_enqueue_bounce abs_bounce_upd)
  qed
qed

end

text \<open>C12. The spool implements an abstract queue of messages: on a reliable file system one delivery
  removes the message when it is delivered or refused for good, adding a bounce in the second case,
  and otherwise either defers it with its next time, attempt count and error, or replaces it by a
  bounce when it is expired or out of attempts; no other message changes.\<close>

theorem deliver_message_refines:
  assumes "queue_json_law js"
  shows "abs_spool js (snd (deliver_message js io_reliable de i fs)) = abs_deliver de i (abs_spool js fs)"
proof -
  have "queue_json js" using assms by unfold_locales
  then show ?thesis by (rule queue_json.deliver_refines)
qed

section \<open>Every message leaves the queue\<close>

lemma abs_deliver_other: "j \<noteq> i \<Longrightarrow> de_bounce_id de \<noteq> i \<Longrightarrow> abs_deliver de j \<sigma> i = \<sigma> i"
  by (auto simp: abs_deliver_def abs_bounce_def Let_def split: option.split sum.split delivery_result.split)

lemma abs_deliver_self:
  assumes "\<sigma> i = Some (q, m)" "abs_deliver de i \<sigma> i = Some (q', m')"
  shows "mm_attempts (qm_metadata q') = mm_attempts (qm_metadata q) + 1 \<and>
    mm_attempts (qm_metadata q') < rs_max_attempts (de_scheduler de)"
  using assms
  by (auto simp: abs_deliver_def Let_def retry_at_def next_retry_time_def
      split: option.splits sum.splits delivery_result.splits if_splits)

lemma abs_deliver_None: "\<sigma> i = None \<Longrightarrow> de_bounce_id de \<noteq> i \<Longrightarrow> abs_deliver de j \<sigma> i = None"
  by (cases "j = i") (simp_all add: abs_deliver_other, simp add: abs_deliver_def)

definition run_deliveries :: "(delivery_env \<times> str) list \<Rightarrow> abs_queue \<Rightarrow> abs_queue" where
  "run_deliveries steps \<sigma> = foldl (\<lambda>\<sigma> (de, j). abs_deliver de j \<sigma>) \<sigma> steps"

lemma run_deliveries_Cons: "run_deliveries ((de, j) # steps) \<sigma> = run_deliveries steps (abs_deliver de j \<sigma>)"
  by (simp add: run_deliveries_def)

lemma run_deliveries_None:
  "\<sigma> i = None \<Longrightarrow> \<forall>(de, j) \<in> set steps. de_bounce_id de \<noteq> i \<Longrightarrow> run_deliveries steps \<sigma> i = None"
proof (induction steps arbitrary: \<sigma>)
  case Nil
  then show ?case by (simp add: run_deliveries_def)
next
  case (Cons x steps)
  then show ?case by (cases x) (simp add: run_deliveries_Cons abs_deliver_None)
qed

text \<open>The number of attempts still possible decreases with every delivery of the message.\<close>

lemma run_deliveries_measure:
  assumes "\<sigma> i = Some (q, m)" "mm_attempts (qm_metadata q) = 0 \<or> mm_attempts (qm_metadata q) < M"
    and "\<forall>(de, j) \<in> set steps. de_bounce_id de \<noteq> i \<and> rs_max_attempts (de_scheduler de) \<le> M"
    and "max 1 (unat M - unat (mm_attempts (qm_metadata q))) \<le> length (filter (\<lambda>(de, j). j = i) steps)"
  shows "run_deliveries steps \<sigma> i = None"
  using assms
proof (induction steps arbitrary: \<sigma> q m)
  case Nil
  then show ?case by simp
next
  case (Cons x steps)
  obtain de j where x: "x = (de, j)" by (cases x)
  have ids: "\<forall>(de, j) \<in> set steps. de_bounce_id de \<noteq> i \<and> rs_max_attempts (de_scheduler de) \<le> M"
    "de_bounce_id de \<noteq> i" "rs_max_attempts (de_scheduler de) \<le> M"
    using Cons.prems(3) by (auto simp: x)
  show ?case
  proof (cases "j = i")
    case False
    then have "abs_deliver de j \<sigma> i = Some (q, m)"
      using abs_deliver_other [of j i de \<sigma>] ids(2) Cons.prems(1) by simp
    from Cons.IH [of "abs_deliver de j \<sigma>" q m, OF this Cons.prems(2) ids(1)] show ?thesis
      using Cons.prems(4) False by (simp add: x run_deliveries_Cons)
  next
    case True
    show ?thesis
    proof (cases "abs_deliver de i \<sigma> i")
      case None
      then show ?thesis
        using run_deliveries_None [of "abs_deliver de i \<sigma>" i steps] ids(1) True
        by (auto simp: x run_deliveries_Cons)
    next
      case (Some y)
      obtain q' m' where y: "y = (q', m')" by (cases y)
      let ?a = "mm_attempts (qm_metadata q)" and ?a' = "mm_attempts (qm_metadata q')"
      have a': "?a' = ?a + 1" "?a' < M"
        using abs_deliver_self [OF Cons.prems(1) Some [unfolded y]] ids(3) by auto
      have "unat ?a < unat M \<or> ?a = 0" using Cons.prems(2) by (auto simp: word_less_nat_alt)
      moreover have "unat M < 2 ^ 32" using unsigned_less [of M, where 'a = nat] by simp
      ultimately have "unat ?a' = unat ?a + 1"
        unfolding a'(1) by (auto simp: unat_word_ariths)
      moreover have "unat ?a' < unat M" using a'(2) by (simp add: word_less_nat_alt)
      ultimately have "max 1 (unat M - unat ?a') \<le> length (filter (\<lambda>(de, j). j = i) steps)"
        using Cons.prems(4) True by (simp add: x)
      from Cons.IH [of "abs_deliver de i \<sigma>" q' m', OF Some [unfolded y] _ ids(1) this] a'(2) show ?thesis
        using True by (simp add: x run_deliveries_Cons)
    qed
  qed
qed

definition deliver_all :: "queue_json_lib \<Rightarrow> (delivery_env \<times> str) list \<Rightarrow> spool_fs \<Rightarrow> spool_fs" where
  "deliver_all js steps fs = foldl (\<lambda>fs (de, j). snd (deliver_message js io_reliable de j fs)) fs steps"

lemma deliver_all_refines:
  "queue_json js \<Longrightarrow> abs_spool js (deliver_all js steps fs) = run_deliveries steps (abs_spool js fs)"
proof (induction steps arbitrary: fs)
  case Nil
  then show ?case by (simp add: deliver_all_def run_deliveries_def)
next
  case (Cons x steps)
  then show ?case
    by (cases x) (simp add: deliver_all_def run_deliveries_def queue_json.deliver_refines)
qed

text \<open>C6. Every message leaves the queue: whatever the network, DNS and the other messages do, a message
  that has not been tried yet is gone after as many deliveries as the scheduler allows attempts (at
  least one), in any interleaving with deliveries of other messages.\<close>

theorem message_leaves_queue:
  assumes "queue_json_law js" "spool_dequeue js io_reliable i fs = Inr (q, m)" "mm_attempts (qm_metadata q) = 0"
    and "\<forall>(de, j) \<in> set steps. de_bounce_id de \<noteq> i \<and> rs_max_attempts (de_scheduler de) \<le> M"
    and "max 1 (unat M) \<le> length (filter (\<lambda>(de, j). j = i) steps)"
  shows "\<exists>e. spool_dequeue js io_reliable i (deliver_all js steps fs) = Inl e"
proof -
  have js: "queue_json js" using assms(1) by unfold_locales
  have "abs_spool js fs i = Some (q, m)" using assms(2) by (simp add: abs_spool_def result_option_def)
  then have "abs_spool js (deliver_all js steps fs) i = None"
    using run_deliveries_measure [of "abs_spool js fs" i q m M steps] assms(3-5)
    by (simp add: deliver_all_refines [OF js])
  then show ?thesis by (simp add: abs_spool_def result_option_def split: sum.splits)
qed

definition demo_delivery :: delivery_env where
  "demo_delivery =
     \<lparr>de_scheduler = \<lparr>rs_intervals = [], rs_max_age = 1000, rs_max_attempts = 2\<rparr>,
      de_sender = \<lparr>sn_hostname = ''relay'', sn_tls = None\<rparr>,
      de_bounce_gen = bounce_generator_new None True, de_now = 0,
      de_network = \<lparr>nw_connect = (\<lambda>_. None), nw_handshake = (\<lambda>_ _. Inl [])\<rparr>,
      de_dns = \<lparr>dns_mx = (\<lambda>_. None), dns_ip = (\<lambda>_. None)\<rparr>,
      de_bounce_id = ''B1'',
      de_stamp = \<lparr>bs_timestamp = 0, bs_timestamp_millis = 0, bs_uuid = ''u'', bs_date = ''d''\<rparr>\<rparr>"

theorem message_leaves_queue_witness:
  "\<exists>e. spool_dequeue codec_lib io_reliable ''Q1''
     (deliver_all codec_lib [(demo_delivery, ''Q1''), (demo_delivery, ''Q2''), (demo_delivery, ''Q1'')]
       (snd (spool_enqueue codec_lib io_reliable ''Q1'' 0 demo_envelope ''body'' []))) = Inl e"
proof -
  let ?q = "new_queued_message ''Q1'' 0 demo_envelope ''body''"
  let ?fs = "snd (spool_enqueue codec_lib io_reliable ''Q1'' 0 demo_envelope ''body'' [])"
  have "result_option (spool_dequeue codec_lib io_reliable ''Q1'' ?fs) = Some (?q, ''body'')"
    by (simp add: spool_enqueue_def codec.dequeue_store)
  then have "spool_dequeue codec_lib io_reliable ''Q1'' ?fs = Inr (?q, ''body'')"
    by (simp add: result_option_def split: sum.splits)
  from message_leaves_queue [OF codec_lib_law this, where M = 2 and
      steps = "[(demo_delivery, ''Q1''), (demo_delivery, ''Q2''), (demo_delivery, ''Q1'')]"]
  show ?thesis by (simp add: new_queued_message_def demo_delivery_def)
qed

theorem deliver_message_refines_witness:
  "abs_spool codec_lib (snd (deliver_message codec_lib io_reliable demo_delivery ''Q1''
     (snd (spool_enqueue codec_lib io_reliable ''Q1'' 0 demo_envelope ''body'' [])))) =
   abs_deliver demo_delivery ''Q1''
     (abs_spool codec_lib (snd (spool_enqueue codec_lib io_reliable ''Q1'' 0 demo_envelope ''body'' [])))"
  by (rule deliver_message_refines [OF codec_lib_law])

section \<open>Which bounces there are\<close>

text \<open>A bounce answers the sender of the failed message and is sent from the configured bounce
  address; it is itself bounced again exactly when that address is set to something other than a null
  sender, so the default configuration has no bounce of a bounce.\<close>

theorem bounce_of_bounce:
  assumes "bounce_generate (bounce_generator_new cfg incl) st env err m = Some (e, b)"
  shows "env_rcpt_to e = [env_mail_from env] \<and> \<not> is_null_sender (env_mail_from env) \<and>
    (bounce_generate bg st' e err' m' = None \<longleftrightarrow> (case cfg of None \<Rightarrow> True | Some s \<Rightarrow> is_null_sender s))"
  using assms
  by (auto simp: bounce_generate_def bounce_generator_new_def is_null_sender_def Let_def
      split: if_splits option.splits)

theorem bounce_of_bounce_witness:
  "(case bounce_generate (bounce_generator_new (Some ''p@q'') False)
        \<lparr>bs_timestamp = 0, bs_timestamp_millis = 0, bs_uuid = [], bs_date = []\<rparr> demo_envelope ''550 no'' [] of
      Some (e, b) \<Rightarrow> bounce_generate (bounce_generator_new (Some ''p@q'') False)
        \<lparr>bs_timestamp = 0, bs_timestamp_millis = 0, bs_uuid = [], bs_date = []\<rparr> e ''550 no'' [] \<noteq> None
    | None \<Rightarrow> False)"
proof -
  let ?st = "\<lparr>bs_timestamp = 0, bs_timestamp_millis = 0, bs_uuid = [], bs_date = []\<rparr>"
  let ?bg = "bounce_generator_new (Some ''p@q'') False"
  obtain e b where eb: "bounce_generate ?bg ?st demo_envelope ''550 no'' [] = Some (e, b)"
    by (simp add: bounce_generate_def is_null_sender_def eq_ignore_ascii_case_def demo_envelope_def Let_def)
  from bounce_of_bounce [OF this, of ?bg ?st "''550 no''" "[]"] show ?thesis
    unfolding eb by (simp add: is_null_sender_def eq_ignore_ascii_case_def)
qed

section \<open>No return to plain text\<close>

named_theorems stays_secure \<open>conversations that write only inside TLS once it is on\<close>

definition keeps_secure :: "'a conversation \<Rightarrow> bool" where
  "keeps_secure m \<longleftrightarrow> (\<forall>c. cn_secure c \<longrightarrow> cn_secure (snd (m c)) \<and> cn_out (snd (m c)) = cn_out c)"

lemma keeps_secure_basic [stays_secure]:
  "keeps_secure (conv_return a)" "keeps_secure (conv_fail e)" "keeps_secure (conv_write s)"
  "keeps_secure read_response" "keeps_secure (ensure_positive r)"
  by (auto simp: keeps_secure_def conv_return_def conv_fail_def conv_write_def read_response_def
      ensure_positive_def split: prod.split)

lemma keeps_secure_bind [stays_secure]:
  "keeps_secure m \<Longrightarrow> (\<And>a. keeps_secure (f a)) \<Longrightarrow> keeps_secure (conv_bind m f)"
  unfolding keeps_secure_def conv_bind_def by (simp split: prod.split sum.split) (metis snd_conv)

lemma keeps_secure_if [stays_secure]:
  "keeps_secure m \<Longrightarrow> keeps_secure n \<Longrightarrow> keeps_secure (if b then m else n)"
  by simp

lemma keeps_secure_command [stays_secure]: "keeps_secure (command_ok cmd)"
  unfolding command_ok_def by (intro stays_secure)

lemma keeps_secure_rcpts [stays_secure]: "keeps_secure (rcpt_commands rs)"
  by (induction rs) (auto intro: stays_secure)

lemma keeps_secure_conversation [stays_secure]: "keeps_secure (smtp_conversation mf rs m)"
  unfolding smtp_conversation_def by (intro stays_secure)

lemma conv_bind_Inr: "m c = (Inr a, c1) \<Longrightarrow> conv_bind m f c = f a c1"
  by (simp add: conv_bind_def)

lemma command_ok_Inr:
  assumes "read_response_lines [] (cn_in c) = (Inr r, rest)" "starts_with r ''2''" "\<not> cn_secure c"
  shows "command_ok cmd c = (Inr r, c\<lparr>cn_in := rest, cn_out := cn_out c @ write_cmd cmd\<rparr>)"
  using assms
  by (simp add: command_ok_def conv_bind_def conv_write_def read_response_def ensure_positive_def conv_return_def)


section \<open>Reading replies\<close>

lemma read_line_crlf: "LF \<notin> set x \<Longrightarrow> read_line (x @ CRLF @ r) = (x @ CRLF, r)"
  using read_line_at [of "x @ [CR]" r] by (simp add: CRLF_def)

lemma utf8_valid_crlf: "utf8_valid x \<Longrightarrow> utf8_valid (x @ CRLF)"
  using utf8_valid_ascii [of CRLF] byte_line_ends by (simp add: utf8_valid_append CRLF_def)

text \<open>The last line of a reply, a line before it, and a line that has a code and no text.\<close>

lemma read_response_last:
  assumes "LF \<notin> set x" "utf8_valid x" "4 \<le> length x" "x ! 3 = CHR '' ''"
  shows "read_response_lines acc (x @ CRLF @ r) = (Inr (trim (acc @ x @ CRLF)), r)"
proof -
  have "(x @ CRLF) ! 3 = CHR '' ''" using assms(3,4) by (simp add: nth_append)
  moreover have "x @ CRLF @ r \<noteq> []" by (simp add: CRLF_def)
  ultimately show ?thesis
    using read_line_crlf [OF assms(1)] utf8_valid_crlf [OF assms(2)] assms(3)
    by (subst read_response_lines.simps) (simp add: CRLF_def)
qed

lemma read_response_more:
  assumes "LF \<notin> set x" "utf8_valid x" "3 \<le> length x" "length x \<noteq> 3 \<Longrightarrow> x ! 3 \<noteq> CHR '' ''"
  shows "read_response_lines acc (x @ CRLF @ r) = read_response_lines (acc @ x @ CRLF) r"
proof -
  have n: "(x @ CRLF) ! 3 \<noteq> CHR '' ''"
    using assms(3,4) by (cases "length x = 3") (auto simp: nth_append CRLF_def CR_def)
  have "x @ CRLF @ r \<noteq> []" by (simp add: CRLF_def)
  then show ?thesis
    using read_line_crlf [OF assms(1)] utf8_valid_crlf [OF assms(2)] n assms(3)
    by (subst read_response_lines.simps) (simp add: CRLF_def)
qed

text \<open>A reply that is a bare code is not recognised as complete: the client goes on reading, so it
  takes the next reply as a part of this one, and fails when the peer waits for the next command.\<close>

theorem bare_code_not_final:
  "read_response_lines [] (''250'' @ CRLF @ rest) = read_response_lines (''250'' @ CRLF) rest \<and>
   read_response_lines [] (''250'' @ CRLF) = (Inl ''connection closed unexpectedly'', [])"
proof -
  have "LF \<notin> set ''250''" by (simp add: LF_def)
  moreover have "utf8_valid ''250''" by (simp add: utf8_valid_ascii byte_def)
  ultimately have "read_response_lines [] (''250'' @ CRLF @ r) = read_response_lines (''250'' @ CRLF) r" for r
    using read_response_more [of "''250''" "[]" r] by simp
  from this this [of "[]"] show ?thesis by (simp add: read_response_lines.simps [of _ "[]"])
qed

section \<open>The order of mail hosts\<close>

lemma map_filter_SomeD: "y \<in> set (List.map_filter g xs) \<Longrightarrow> \<exists>x \<in> set xs. g x = Some y"
  by (auto simp: List.map_filter_def)

lemma sort_key_map_filter_mono:
  "sorted (map f (List.map_filter g xs))" if "sorted (map h xs)" "\<And>x y. g x = Some y \<Longrightarrow> f y = h x"
  using that(1)
proof (induction xs)
  case Nil
  then show ?case by (simp add: List.map_filter_simps)
next
  case (Cons x xs)
  have "h x \<le> f y" if "y \<in> set (List.map_filter g xs)" for y
    using that Cons.prems \<open>\<And>x y. g x = Some y \<Longrightarrow> f y = h x\<close>
    by (fastforce simp: List.map_filter_def)
  with Cons show ?case
    using \<open>\<And>x y. g x = Some y \<Longrightarrow> f y = h x\<close> by (auto simp: List.map_filter_simps split: option.split)
qed

text \<open>Resolution never returns an empty list or a host without addresses, orders the hosts by
  preference, lowest first, and each is an exchange of the domain, or the domain itself.\<close>

theorem mx_resolve_sorted:
  assumes "mx_resolve dns domain = Inr hosts"
  shows "hosts \<noteq> [] \<and> (\<forall>h \<in> set hosts. mx_addresses h \<noteq> [] \<and> dns_ip dns (mx_hostname h) = Some (mx_addresses h)) \<and>
    sorted (map mx_priority hosts) \<and>
    (\<forall>h \<in> set hosts. mx_hostname h = domain \<or>
       (\<exists>records e. dns_mx dns domain = Some records \<and> (mx_priority h, e) \<in> set records \<and>
          mx_hostname h = trim_end_char (CHR ''.'') e))"
proof -
  have fallback: ?thesis if "fallback_a_record dns domain = Inr hosts"
    using that by (auto simp: fallback_a_record_def split: option.splits if_splits)
  show ?thesis
  proof (cases "dns_mx dns domain")
    case None
    with assms have "fallback_a_record dns domain = Inr hosts" by (simp add: mx_resolve_def)
    then show ?thesis by (rule fallback)
  next
    case (Some records)
    let ?f = "\<lambda>(pref, exch). (pref, trim_end_char (CHR ''.'') exch)"
    let ?hosts = "sort_key fst (map ?f records)"
    show ?thesis
    proof (cases "List.map_filter (mx_entry dns) ?hosts = []")
      case True
      with Some assms have "fallback_a_record dns domain = Inr hosts" by (simp add: mx_resolve_def)
      then show ?thesis by (rule fallback)
    next
      case False
      then have hosts: "hosts = List.map_filter (mx_entry dns) ?hosts" "hosts \<noteq> []"
        using Some assms by (auto simp: mx_resolve_def)
      have entry: "mx_priority h = fst x \<and> mx_hostname h = snd x \<and> mx_addresses h \<noteq> [] \<and>
          dns_ip dns (mx_hostname h) = Some (mx_addresses h)" if "mx_entry dns x = Some h" for x h
        using that by (auto simp: mx_entry_def Let_def split: if_splits option.splits)
      have "sorted (map mx_priority hosts)"
        unfolding hosts(1) by (rule sort_key_map_filter_mono [where h = fst]) (auto dest: entry)
      moreover have "mx_addresses h \<noteq> [] \<and> dns_ip dns (mx_hostname h) = Some (mx_addresses h) \<and>
          (\<exists>e. (mx_priority h, e) \<in> set records \<and> mx_hostname h = trim_end_char (CHR ''.'') e)"
        if "h \<in> set hosts" for h
      proof -
        from that obtain x where x: "x \<in> set ?hosts" "mx_entry dns x = Some h"
          unfolding hosts(1) by (blast dest: map_filter_SomeD)
        then obtain p e where "(p, e) \<in> set records" "x = (p, trim_end_char (CHR ''.'') e)" by auto
        with entry [OF x(2)] show ?thesis by auto
      qed
      ultimately show ?thesis using hosts(2) Some by blast
    qed
  qed
qed

theorem mx_resolve_sorted_witness:
  "sorted (map mx_priority [\<lparr>mx_hostname = ''a'', mx_priority = 5, mx_addresses = [V4 1 1 1 1]\<rparr>,
     \<lparr>mx_hostname = ''b'', mx_priority = 9, mx_addresses = [V4 1 1 1 1]\<rparr>])"
  using mx_resolve_sorted [of "\<lparr>dns_mx = (\<lambda>_. Some [(9, ''b.''), (5, ''a.'')]), dns_ip = (\<lambda>_. Some [V4 1 1 1 1])\<rparr>" "''d''"
      "[\<lparr>mx_hostname = ''a'', mx_priority = 5, mx_addresses = [V4 1 1 1 1]\<rparr>,
        \<lparr>mx_hostname = ''b'', mx_priority = 9, mx_addresses = [V4 1 1 1 1]\<rparr>]"]
  by (simp add: mx_resolve_def mx_entry_def List.map_filter_simps trim_end_char_def)

lemma ascii_line: "list_all (\<lambda>c. byte c < 128 \<and> c \<noteq> LF) x \<Longrightarrow> utf8_valid x \<and> LF \<notin> set x"
  by (auto intro!: utf8_valid_ascii simp: list_all_iff)


section \<open>Messages left active\<close>

text \<open>Every metadata file is named after the message in it, as enqueueing leaves it.\<close>

definition spool_named :: "queue_json_lib \<Rightarrow> spool_fs \<Rightarrow> bool" where
  "spool_named js fs \<longleftrightarrow>
     (\<forall>name b q. map_of fs name = Some b \<longrightarrow> path_extension name = Some ''meta'' \<longrightarrow>
        qj_from_slice js b = Some q \<longrightarrow> name = meta_path (qm_id q))"

lemma process_queue_other:
  assumes "queue_json js" "\<forall>j. de_bounce_id (de j) \<noteq> i" "\<forall>msg \<in> set msgs. qm_id msg \<noteq> i"
  shows "abs_spool js (foldl (\<lambda>fs1 msg. snd (deliver_message js io_reliable (de (qm_id msg)) (qm_id msg) fs1)) fs msgs) i =
    abs_spool js fs i"
  using assms(3)
  by (induction msgs arbitrary: fs)
    (simp_all add: queue_json.deliver_refines [OF assms(1)] abs_deliver_other assms(2))

text \<open>A message that is still marked active, because the process ended or an operation failed during
  its delivery, is never tried again: no scan of the queue, at any time, touches it.\<close>

theorem active_message_stranded:
  assumes "queue_json_law js" "spool_named js fs" "spool_dequeue js io_reliable i fs = Inr (q, m)"
    and "mm_status (qm_metadata q) = Active" "\<forall>j. de_bounce_id (de j) \<noteq> i"
  shows "spool_dequeue js io_reliable i (snd (process_queue js io_reliable de now fs)) = Inr (q, m)"
proof -
  have js: "queue_json js" using assms(1) by unfold_locales
  have fetch: "abs_spool js fs i = Some (q, m)" using assms(3) by (simp add: abs_spool_def result_option_def)
  then obtain b where b: "map_of fs (meta_path i) = Some b" "qj_from_slice js b = Some q"
    by (auto simp: abs_spool_def queue_json.dequeue_unfold [OF js] bind_eq_Some_conv)
  obtain msgs where msgs: "spool_list js io_reliable fs = Inr msgs"
    by (simp add: spool_list_def io_reliable_def)
  have "qm_id msg \<noteq> i" if "msg \<in> set (filter (is_due now) msgs)" for msg
  proof
    assume id: "qm_id msg = i"
    from that have "msg \<in> set msgs" and due: "is_due now msg" by simp_all
    then obtain name where "path_extension name = Some ''meta''"
        "Option.bind (map_of fs name) (qj_from_slice js) = Some msg"
      using msgs by (auto simp: spool_list_def dest!: map_filter_SomeD split: if_splits)
    then obtain b' where b': "map_of fs name = Some b'" "qj_from_slice js b' = Some msg" "name = meta_path i"
      using assms(2) id by (auto simp: spool_named_def bind_eq_Some_conv)
    with b have "msg = q" by simp
    with due assms(4) show False by (simp add: is_due_def)
  qed
  then have "abs_spool js (snd (process_queue js io_reliable de now fs)) i = Some (q, m)"
    using process_queue_other [OF js assms(5), of "filter (is_due now) msgs" fs] fetch msgs
    by (simp add: process_queue_def)
  then show ?thesis by (simp add: abs_spool_def result_option_def split: sum.splits)
qed

definition demo_active :: queued_message where
  "demo_active = (new_queued_message ''Q1'' 0 demo_envelope ''b'')
     \<lparr>qm_metadata := (qm_metadata (new_queued_message ''Q1'' 0 demo_envelope ''b''))\<lparr>mm_status := Active\<rparr>\<rparr>"

theorem active_message_stranded_witness:
  "spool_dequeue codec_lib io_reliable ''Q1''
     (snd (process_queue codec_lib io_reliable (\<lambda>_. demo_delivery) 99
        [(msg_path ''Q1'', ''b''), (meta_path ''Q1'', codec_encode demo_active)])) = Inr (demo_active, ''b'')"
proof -
  let ?fs = "[(msg_path ''Q1'', ''b''), (meta_path ''Q1'', codec_encode demo_active)]"
  have "path_extension (msg_path ''Q1'') \<noteq> Some ''meta''"
    using path_extension_append [of "''msg''" "''Q1''"] by (auto simp: msg_path_def)
  then have named: "spool_named codec_lib ?fs"
    by (auto simp: spool_named_def codec_lib_def codec_inverse demo_active_def new_queued_message_def)
  have deq: "spool_dequeue codec_lib io_reliable ''Q1'' ?fs = Inr (demo_active, ''b'')"
    by (simp add: spool_dequeue_def codec_lib_def codec_inverse)
  show ?thesis
    by (rule active_message_stranded [OF codec_lib_law named deq])
      (simp_all add: demo_active_def demo_delivery_def)
qed

end
