(* ===== verification/Relay_Hop.thy ===== *)
theory Relay_Hop
  imports Relay_Receiver Relay_Delivery
begin

text \<open>
  The two sides of the relay together: one hop from the delivery client of one relay to the receiver
  of the next.  The bytes the client writes are the input of the session, and the bytes the session
  writes are what the client reads.
\<close>

section \<open>The bytes of a hop\<close>

definition clean :: "str \<Rightarrow> bool" where
  "clean s \<longleftrightarrow> LF \<notin> set s \<and> utf8_valid s"

definition ehlo_cmd :: "str \<Rightarrow> str" where "ehlo_cmd h = ''EHLO '' @ h"
definition mail_cmd :: "str \<Rightarrow> str" where "mail_cmd mf = ''MAIL FROM:<'' @ mf @ ''>''"
definition rcpt_cmd :: "str \<Rightarrow> str" where "rcpt_cmd r = ''RCPT TO:<'' @ r @ ''>''"
definition data_cmd :: str where "data_cmd = ''DATA''"
definition quit_cmd :: str where "quit_cmd = ''QUIT''"

definition client_bytes :: "str \<Rightarrow> str \<Rightarrow> str list \<Rightarrow> str \<Rightarrow> str" where
  "client_bytes h mf rs m =
     write_cmd (ehlo_cmd h) @ write_cmd (mail_cmd mf) @ concat (map (\<lambda>r. write_cmd (rcpt_cmd r)) rs) @
     write_cmd data_cmd @ smtp_body m @ write_cmd quit_cmd"

text \<open>The replies of the receiver.\<close>

definition banner_line :: "str \<Rightarrow> str" where "banner_line h = ''220 '' @ h @ '' ESMTP''"
definition ehlo_first :: "str \<Rightarrow> str" where "ehlo_first h = ''250-'' @ h"
definition ehlo_more :: "str list" where
  "ehlo_more = [''250-SIZE 26214400'', ''250-8BITMIME'', ''250-PIPELINING'']"
definition ehlo_last :: str where "ehlo_last = ''250 OK''"
definition mail_ok :: str where "mail_ok = ''250 2.1.0 OK''"
definition rcpt_ok :: str where "rcpt_ok = ''250 2.1.5 OK''"
definition data_go :: str where "data_go = ''354 Start mail input; end with <CRLF>.<CRLF>''"
definition queued_line :: "str \<Rightarrow> str" where "queued_line q = ''250 2.0.0 OK queued as '' @ q"
definition bye_line :: str where "bye_line = ''221 2.0.0 Bye''"

definition eol :: "str \<Rightarrow> str" where "eol x = x @ CRLF"

lemmas line_defs = ehlo_cmd_def mail_cmd_def rcpt_cmd_def data_cmd_def quit_cmd_def banner_line_def
  ehlo_first_def ehlo_more_def ehlo_last_def mail_ok_def rcpt_ok_def data_go_def queued_line_def bye_line_def

lemma clean_append [simp]: "clean a \<Longrightarrow> clean b \<Longrightarrow> clean (a @ b)"
  by (simp add: clean_def utf8_valid_append)

lemma clean_ascii: "list_all (\<lambda>c. byte c < 128 \<and> c \<noteq> LF) x \<Longrightarrow> clean x"
  using ascii_line by (auto simp: clean_def)

lemma clean_lines [simp]:
  "clean h \<Longrightarrow> clean (ehlo_cmd h)" "clean h \<Longrightarrow> clean (mail_cmd h)" "clean h \<Longrightarrow> clean (rcpt_cmd h)"
  "clean data_cmd" "clean quit_cmd" "clean h \<Longrightarrow> clean (banner_line h)" "clean h \<Longrightarrow> clean (ehlo_first h)"
  "list_all clean ehlo_more" "clean ehlo_last" "clean mail_ok" "clean rcpt_ok" "clean data_go"
  "clean h \<Longrightarrow> clean (queued_line h)" "clean bye_line"
proof -
  have lit: "clean ''EHLO ''" "clean ''MAIL FROM:<''" "clean ''RCPT TO:<''" "clean ''>''" "clean ''DATA''"
    "clean ''QUIT''" "clean ''220 ''" "clean '' ESMTP''" "clean ''250-''" "clean ''250-SIZE 26214400''"
    "clean ''250-8BITMIME''" "clean ''250-PIPELINING''" "clean ''250 OK''" "clean ''250 2.1.0 OK''"
    "clean ''250 2.1.5 OK''" "clean ''354 Start mail input; end with <CRLF>.<CRLF>''"
    "clean ''250 2.0.0 OK queued as ''" "clean ''221 2.0.0 Bye''"
    by (rule clean_ascii, simp add: byte_def LF_def)+
  show "clean h \<Longrightarrow> clean (ehlo_cmd h)" "clean h \<Longrightarrow> clean (mail_cmd h)" "clean h \<Longrightarrow> clean (rcpt_cmd h)"
    "clean h \<Longrightarrow> clean (banner_line h)" "clean h \<Longrightarrow> clean (ehlo_first h)" "clean h \<Longrightarrow> clean (queued_line h)"
    unfolding line_defs by (intro clean_append lit; assumption?)+
  show "clean data_cmd" "clean quit_cmd" "list_all clean ehlo_more" "clean ehlo_last" "clean mail_ok"
    "clean rcpt_ok" "clean data_go" "clean bye_line"
    unfolding line_defs using lit by simp_all
qed

section \<open>The server side\<close>

lemma run_command:
  assumes "clean x" "ss_open s" "ss_input s = write_cmd x @ rest"
  shows "session_run rv s w =
    (case handle_command rv (parse_command (write_cmd x)) (s\<lparr>ss_input := rest\<rparr>) w of
       (s', w') \<Rightarrow> session_run rv s' w')"
proof -
  have rl: "read_line (ss_input s) = (write_cmd x, rest)"
    using assms(1,3) read_line_crlf [of x rest] by (simp add: write_cmd_def clean_def)
  have "ss_input s \<noteq> []" using assms(3) by (simp add: write_cmd_def CRLF_def)
  moreover have "utf8_valid (write_cmd x)" using assms(1) by (simp add: write_cmd_def clean_def utf8_valid_crlf)
  ultimately have "session_step rv s w = handle_command rv (parse_command (write_cmd x)) (s\<lparr>ss_input := rest\<rparr>) w"
    using rl by (simp add: session_step_def)
  then show ?thesis using assms(2) by (subst session_run.simps) (simp add: case_prod_beta)
qed

lemma trim_keeps:
  assumes "\<not> is_ws (hd x)" "\<not> is_ws (last x)" "2 \<le> length x"
  shows "trim (x @ CRLF) = x"
proof -
  obtain a s z where x: "x = a # s @ [z]"
    using assms(3) by (cases x; cases "tl x" rule: rev_cases) auto
  then show ?thesis using assms trim_bracketed [of a z CRLF s] ws_CRLF by simp
qed

lemma parse_ehlo:
  assumes "h \<noteq> []" "\<not> is_ws (last h)"
  shows "\<exists>d. parse_command (write_cmd (ehlo_cmd h)) = Ehlo d"
proof -
  have "trim (write_cmd (''EHLO '' @ h)) = ''EHLO '' @ h"
    using trim_keeps [of "''EHLO '' @ h"] assms by (simp add: write_cmd_def is_ws_def)
  moreover have "to_upper (''EHLO '' @ h) = ''EHLO '' @ to_upper h"
    by (simp add: to_upper_def upper_char_def)
  ultimately show ?thesis by (simp add: parse_command_def strip_prefix_def Let_def ehlo_cmd_def)
qed

lemma parse_data_quit:
  "parse_command (write_cmd data_cmd) = Data" "parse_command (write_cmd quit_cmd) = Quit"
proof -
  have "trim (write_cmd ''DATA'') = ''DATA''" "trim (write_cmd ''QUIT'') = ''QUIT''"
    using trim_keeps [of "''DATA''"] trim_keeps [of "''QUIT''"] by (simp_all add: write_cmd_def is_ws_def)
  then show "parse_command (write_cmd data_cmd) = Data" "parse_command (write_cmd quit_cmd) = Quit"
    by (simp_all add: parse_command_def strip_prefix_def to_upper_def upper_char_def starts_with_def
        data_cmd_def quit_cmd_def)
qed

lemma handle_rcpt_cmd:
  assumes "ss_state s = SMailFrom mf \<and> acc = [] \<or> ss_state s = SRcptTo mf acc"
    and "recipient_limit_check (pc_recipient_limit (rw_policy w)) (Suc (length acc)) = Inr ()"
  shows "handle_command rv (parse_command (write_cmd (rcpt_cmd r))) s w =
    (s\<lparr>ss_state := SRcptTo mf (acc @ [r]), ss_output := ss_output s @ eol rcpt_ok\<rparr>, w)"
proof -
  have "(case ss_state s of SMailFrom mf \<Rightarrow> Some (mf, []) | SRcptTo mf r \<Rightarrow> Some (mf, r) | _ \<Rightarrow> None) = Some (mf, acc)"
    using assms(1) by auto
  then show ?thesis
    using assms(2)
    by (simp only: rcpt_cmd_def parse_rcpt_to handle_command_def smtp_command.case handle_rcpt_to_def option.case
        prod.case Let_def extract_bracketed length_append_singleton sum.case rcpt_ok_def)
      (simp add: reply_def eol_def)
qed

lemma run_rcpts:
  assumes "ss_open s" "ss_input s = concat (map (\<lambda>r. write_cmd (rcpt_cmd r)) rs) @ rest"
    and "ss_state s = SMailFrom mf \<and> acc = [] \<or> ss_state s = SRcptTo mf acc" "list_all clean rs" "rs \<noteq> []"
    and "recipient_limit_check (pc_recipient_limit (rw_policy w)) (length acc + length rs) = Inr ()"
  shows "session_run rv s w =
    session_run rv (s\<lparr>ss_input := rest, ss_state := SRcptTo mf (acc @ rs),
                      ss_output := ss_output s @ concat (map (\<lambda>_. eol rcpt_ok) rs)\<rparr>) w"
  using assms
proof (induction rs arbitrary: s acc)
  case Nil
  then show ?case by simp
next
  case (Cons r rs)
  let ?rest = "concat (map (\<lambda>r. write_cmd (rcpt_cmd r)) rs) @ rest"
  let ?s = "s\<lparr>ss_input := ?rest, ss_state := SRcptTo mf (acc @ [r]), ss_output := ss_output s @ eol rcpt_ok\<rparr>"
  have lim: "recipient_limit_check (pc_recipient_limit (rw_policy w)) (Suc (length acc)) = Inr ()"
    using Cons.prems(6) by (simp add: recipient_limit_check_def split: if_splits)
  have step: "session_run rv s w = session_run rv ?s w"
    using run_command [of "rcpt_cmd r" s ?rest rv w] Cons.prems(1-4)
      handle_rcpt_cmd [of "s\<lparr>ss_input := ?rest\<rparr>" mf acc w rv r] lim
    by simp
  show ?case
  proof (cases "rs = []")
    case True
    with step show ?thesis by simp
  next
    case False
    have "session_run rv ?s w = session_run rv (?s\<lparr>ss_input := rest, ss_state := SRcptTo mf ((acc @ [r]) @ rs),
        ss_output := ss_output ?s @ concat (map (\<lambda>_. eol rcpt_ok) rs)\<rparr>) w"
      by (rule Cons.IH) (use Cons.prems False in simp_all)
    with step show ?thesis by simp
  qed
qed

definition server_bytes :: "str \<Rightarrow> str list \<Rightarrow> str \<Rightarrow> str" where
  "server_bytes host rs q =
     eol (banner_line host) @ eol (ehlo_first host) @ concat (map eol ehlo_more) @ eol ehlo_last @ eol mail_ok @
     concat (map (\<lambda>_. eol rcpt_ok) rs) @ eol data_go @ eol (queued_line q) @ eol bye_line"

lemma handle_ehlo_cmd:
  assumes "h \<noteq> []" "\<not> is_ws (last h)"
  shows "handle_command rv (parse_command (write_cmd (ehlo_cmd h))) s w =
    (s\<lparr>ss_state := SGreeted,
       ss_output := ss_output s @ eol (ehlo_first (rv_hostname rv)) @ concat (map eol ehlo_more) @ eol ehlo_last\<rparr>, w)"
proof -
  obtain d where "parse_command (write_cmd (ehlo_cmd h)) = Ehlo d" using parse_ehlo [OF assms] ..
  then show ?thesis
    by (simp add: handle_command_def reply_def ehlo_first_def ehlo_more_def ehlo_last_def eol_def)
qed

lemma handle_mail_cmd:
  assumes "ss_state s = SGreeted"
    and "spf_alignment_check_check (pc_spf_alignment (rw_policy w)) (rsplit_first (CHR ''@'') mf) = Inr ()"
  shows "handle_command rv (parse_command (write_cmd (mail_cmd mf))) s w =
    (s\<lparr>ss_state := SMailFrom mf, ss_output := ss_output s @ eol mail_ok\<rparr>, w)"
  using assms
  by (simp only: mail_cmd_def parse_mail_from handle_command_def smtp_command.case handle_mail_from_def
      Let_def extract_bracketed sum.case session_state.distinct if_False mail_ok_def)
    (simp add: reply_def eol_def)

lemma handle_data_cmd:
  assumes "ss_state s = SRcptTo mf rs" "rs \<noteq> []" "ss_input s = smtp_body m @ rest" "utf8_valid m"
    and "outbound_policy_checker_check (rv_clock rv (rw_handled w)) (rsplit_first (CHR ''@'') mf) (length rs)
           (crlf_lines m) (rw_policy w) = (Inr (), pc)"
    and "spool_enqueue (rv_json rv) (rv_io rv)
           (generate_queue_id (of_int (rv_clock rv (rw_handled w))) (rv_random rv (rw_handled w)))
           (rv_clock rv (rw_handled w)) \<lparr>env_mail_from = mf, env_rcpt_to = rs\<rparr>
           (final_message rv (rsplit_first (CHR ''@'') mf) (crlf_lines m)) (rw_spool w) = (Inr q, fs)"
  shows "\<exists>w'. handle_command rv (parse_command (write_cmd data_cmd)) s w =
      (s\<lparr>ss_input := rest, ss_state := SGreeted, ss_output := ss_output s @ eol data_go @ eol (queued_line q)\<rparr>, w') \<and>
    rw_spool w' = fs \<and> rw_policy w' = pc \<and>
    rw_accepted w' = rw_accepted w @
      [\<lparr>am_peer = ss_peer s, am_time = rv_clock rv (rw_handled w), am_queue_id = q,
        am_envelope = \<lparr>env_mail_from = mf, env_rcpt_to = rs\<rparr>, am_received = crlf_lines m,
        am_stored = final_message rv (rsplit_first (CHR ''@'') mf) (crlf_lines m)\<rparr>]"
proof -
  have body: "read_data [] (ss_input s) = DataDone (crlf_lines m) rest"
    using read_data_lines [OF split_char_no_sep utf8_split_lines [OF assms(4)], of "[]" rest]
    by (simp add: assms(3) smtp_body_def crlf_lines_def)
  let ?s = "(reply ''354 Start mail input; end with <CRLF>.<CRLF>'' s)\<lparr>ss_input := rest\<rparr>"
  have "handle_command rv (parse_command (write_cmd data_cmd)) s w = handle_message rv mf rs (crlf_lines m) ?s w"
    using assms(1,2) body by (simp add: parse_data_quit handle_command_def handle_data_def)
  moreover have "handle_message rv mf rs (crlf_lines m) ?s w =
    ((reply (''250 2.0.0 OK queued as '' @ q) ?s)\<lparr>ss_state := SGreeted\<rparr>,
     w\<lparr>rw_handled := Suc (rw_handled w), rw_policy := pc, rw_spool := fs,
       rw_accepted := rw_accepted w @
         [\<lparr>am_peer = ss_peer ?s, am_time = rv_clock rv (rw_handled w), am_queue_id = q,
           am_envelope = \<lparr>env_mail_from = mf, env_rcpt_to = rs\<rparr>, am_received = crlf_lines m,
           am_stored = final_message rv (rsplit_first (CHR ''@'') mf) (crlf_lines m)\<rparr>]\<rparr>)"
    unfolding handle_message_def Let_def assms(5) prod.case sum.case assms(6) by simp
  ultimately show ?thesis by (simp add: reply_def data_go_def queued_line_def eol_def)
qed

lemma server_run:
  assumes "is_trusted (rv_cidr rv) (rv_trusted_hosts rv) peer" "\<not> th_require_tls (rv_trusted_hosts rv)"
    and "clean h" "h \<noteq> []" "\<not> is_ws (last h)" "clean mf" "list_all clean rs" "rs \<noteq> []" "utf8_valid m"
    and pol: "outbound_policy_checker_check (rv_clock rv (rw_handled w)) (rsplit_first (CHR ''@'') mf) (length rs)
           (crlf_lines m) (rw_policy w) = (Inr (), pc)"
    and enq: "spool_enqueue (rv_json rv) (rv_io rv)
           (generate_queue_id (of_int (rv_clock rv (rw_handled w))) (rv_random rv (rw_handled w)))
           (rv_clock rv (rw_handled w)) \<lparr>env_mail_from = mf, env_rcpt_to = rs\<rparr>
           (final_message rv (rsplit_first (CHR ''@'') mf) (crlf_lines m)) (rw_spool w) = (Inr q, fs)"
  shows "\<exists>s' w'. session_run rv (session_open rv peer (client_bytes h mf rs m)) w = (s', w') \<and>
    ss_output s' = server_bytes (rv_hostname rv) rs q \<and> rw_spool w' = fs \<and>
    rw_accepted w' = rw_accepted w @
      [\<lparr>am_peer = peer, am_time = rv_clock rv (rw_handled w), am_queue_id = q,
        am_envelope = \<lparr>env_mail_from = mf, env_rcpt_to = rs\<rparr>, am_received = crlf_lines m,
        am_stored = final_message rv (rsplit_first (CHR ''@'') mf) (crlf_lines m)\<rparr>]"
proof -
  let ?S = "\<lambda>st inp out. \<lparr>ss_peer = peer, ss_state = st, ss_input = inp, ss_output = out, ss_open = True\<rparr>"
  let ?tail = "smtp_body m @ write_cmd quit_cmd"
  let ?i3 = "write_cmd data_cmd @ ?tail"
  let ?i2 = "concat (map (\<lambda>r. write_cmd (rcpt_cmd r)) rs) @ ?i3"
  let ?i1 = "write_cmd (mail_cmd mf) @ ?i2"
  let ?o0 = "eol (banner_line (rv_hostname rv))"
  let ?o1 = "?o0 @ eol (ehlo_first (rv_hostname rv)) @ concat (map eol ehlo_more) @ eol ehlo_last"
  let ?o2 = "?o1 @ eol mail_ok"
  let ?o3 = "?o2 @ concat (map (\<lambda>_. eol rcpt_ok) rs)"
  let ?o4 = "?o3 @ eol data_go @ eol (queued_line q)"
  have spf: "spf_alignment_check_check (pc_spf_alignment (rw_policy w)) (rsplit_first (CHR ''@'') mf) = Inr ()"
    and lim: "recipient_limit_check (pc_recipient_limit (rw_policy w)) (length rs) = Inr ()"
    using pol by (auto simp: outbound_policy_checker_check_def split: sum.splits)
  have s0: "session_open rv peer (client_bytes h mf rs m) = ?S SConnected (write_cmd (ehlo_cmd h) @ ?i1) ?o0"
    using assms(1,2) by (simp add: session_open_def reply_def client_bytes_def banner_line_def eol_def)
  have s1: "session_run rv (?S SConnected (write_cmd (ehlo_cmd h) @ ?i1) ?o0) w = session_run rv (?S SGreeted ?i1 ?o1) w"
    using assms(3) by (subst run_command [of "ehlo_cmd h" _ ?i1]) (simp_all add: handle_ehlo_cmd [OF assms(4,5)])
  have s2: "session_run rv (?S SGreeted ?i1 ?o1) w = session_run rv (?S (SMailFrom mf) ?i2 ?o2) w"
    using assms(6) spf by (subst run_command [of "mail_cmd mf" _ ?i2]) (simp_all add: handle_mail_cmd)
  have s3: "session_run rv (?S (SMailFrom mf) ?i2 ?o2) w = session_run rv (?S (SRcptTo mf rs) ?i3 ?o3) w"
    using run_rcpts [of "?S (SMailFrom mf) ?i2 ?o2" rs ?i3 mf "[]" w rv] assms(7,8) lim by simp
  obtain w' where w': "handle_command rv (parse_command (write_cmd data_cmd)) (?S (SRcptTo mf rs) ?tail ?o3) w =
      (?S SGreeted (write_cmd quit_cmd) ?o4, w')"
    "rw_spool w' = fs"
    "rw_accepted w' = rw_accepted w @
      [\<lparr>am_peer = peer, am_time = rv_clock rv (rw_handled w), am_queue_id = q,
        am_envelope = \<lparr>env_mail_from = mf, env_rcpt_to = rs\<rparr>, am_received = crlf_lines m,
        am_stored = final_message rv (rsplit_first (CHR ''@'') mf) (crlf_lines m)\<rparr>]"
    using handle_data_cmd [OF _ assms(8) _ assms(9) pol enq, of "?S (SRcptTo mf rs) ?tail ?o3" "write_cmd quit_cmd"]
    by auto
  have s4: "session_run rv (?S (SRcptTo mf rs) ?i3 ?o3) w = session_run rv (?S SGreeted (write_cmd quit_cmd) ?o4) w'"
    using w'(1) run_command [of data_cmd "?S (SRcptTo mf rs) ?i3 ?o3" ?tail rv w] by simp
  let ?e = "(?S SGreeted [] (?o4 @ eol bye_line))\<lparr>ss_open := False\<rparr>"
  have s5: "session_run rv (?S SGreeted (write_cmd quit_cmd) ?o4) w' = (?e, w')"
    by (subst run_command [of quit_cmd _ "[]"])
      (simp_all add: parse_data_quit handle_command_def reply_def bye_line_def eol_def session_run.simps)
  have "session_run rv (session_open rv peer (client_bytes h mf rs m)) w = (?e, w')"
    by (simp only: s0 s1 s2 s3 s4 s5)
  then show ?thesis
    by (intro exI [of _ ?e] exI [of _ w']) (simp add: w'(2,3) server_bytes_def)
qed

section \<open>The client side\<close>

lemma starts_with_trim:
  assumes "\<not> is_ws c"
  shows "starts_with (trim (c # t)) [c]"
proof -
  have "dropWhile is_ws (rev t @ [c]) = dropWhile is_ws (rev t) @ [c]"
    using assms by (cases "\<forall>x \<in> set (rev t). is_ws x") (auto simp: dropWhile_append)
  then show ?thesis using assms by (simp add: trim_def trim_start_def trim_end_def starts_with_def)
qed

lemma read_reply:
  assumes "clean x" "4 \<le> length x" "x ! 3 = CHR '' ''"
  shows "read_response_lines acc (eol x @ r) = (Inr (trim (acc @ eol x)), r)"
  using read_response_last [of x acc r] assms by (simp add: clean_def eol_def)

lemma read_reply_more:
  assumes "clean x" "4 \<le> length x" "x ! 3 \<noteq> CHR '' ''"
  shows "read_response_lines acc (eol x @ r) = read_response_lines (acc @ eol x) r"
  using read_response_more [of x acc r] assms by (simp add: clean_def eol_def)

lemma read_ehlo_reply:
  assumes "clean host"
  shows "read_response_lines [] (eol (ehlo_first host) @ concat (map eol ehlo_more) @ eol ehlo_last @ r) =
    (Inr (trim (eol (ehlo_first host) @ concat (map eol ehlo_more) @ eol ehlo_last)), r)"
proof -
  have f: "read_response_lines [] (eol (ehlo_first host) @ r) = read_response_lines ([] @ eol (ehlo_first host)) r" for r
    by (rule read_reply_more) (use assms in simp, simp_all add: ehlo_first_def)
  have "read_response_lines acc (concat (map eol xs) @ r) = read_response_lines (acc @ concat (map eol xs)) r"
    if "list_all (\<lambda>x. clean x \<and> 4 \<le> length x \<and> x ! 3 \<noteq> CHR '' '') xs" for acc xs r
    using that
  proof (induction xs arbitrary: acc)
    case (Cons x xs)
    then show ?case using read_reply_more [of x acc "concat (map eol xs) @ r"] by simp
  qed simp
  moreover have "list_all (\<lambda>x. clean x \<and> 4 \<le> length x \<and> x ! 3 \<noteq> CHR '' '') ehlo_more"
    using clean_lines(8) by (simp add: ehlo_more_def)
  moreover have "read_response_lines acc (eol ehlo_last @ r) = (Inr (trim (acc @ eol ehlo_last)), r)" for acc
    by (rule read_reply) (simp, simp_all add: ehlo_last_def)
  ultimately show ?thesis by (simp add: f)
qed

abbreviation conn :: "str \<Rightarrow> str \<Rightarrow> connection" where
  "conn inp out \<equiv> \<lparr>cn_in = inp, cn_out = out, cn_tls_out = [], cn_secure = False\<rparr>"

lemma command_ok_run:
  assumes "read_response_lines [] inp = (Inr r, rest)" "starts_with r ''2''"
  shows "command_ok cmd (conn inp out) = (Inr r, conn rest (out @ write_cmd cmd))"
  using command_ok_Inr [of "conn inp out" r rest cmd] assms by simp

lemma positive_lines:
  "starts_with (trim (eol (banner_line h))) ''2''" "starts_with (trim (eol mail_ok)) ''2''"
  "starts_with (trim (eol rcpt_ok)) ''2''" "starts_with (trim (eol (queued_line q))) ''2''"
  "starts_with (trim (eol data_go)) ''3''" "starts_with (trim (eol (ehlo_first h) @ t)) ''2''"
  unfolding banner_line_def mail_ok_def rcpt_ok_def queued_line_def data_go_def ehlo_first_def eol_def append_Cons
  by (rule starts_with_trim, simp add: is_ws_def)+

lemma reply_shape:
  "4 \<le> length (banner_line h) \<and> banner_line h ! 3 = CHR '' ''" "4 \<le> length mail_ok \<and> mail_ok ! 3 = CHR '' ''"
  "4 \<le> length rcpt_ok \<and> rcpt_ok ! 3 = CHR '' ''" "4 \<le> length data_go \<and> data_go ! 3 = CHR '' ''"
  "4 \<le> length (queued_line q) \<and> queued_line q ! 3 = CHR '' ''"
  by (simp_all add: line_defs)

lemma final_lines:
  "clean h \<Longrightarrow> read_response_lines acc (eol (banner_line h) @ r) = (Inr (trim (acc @ eol (banner_line h))), r)"
  "read_response_lines acc (eol mail_ok @ r) = (Inr (trim (acc @ eol mail_ok)), r)"
  "read_response_lines acc (eol rcpt_ok @ r) = (Inr (trim (acc @ eol rcpt_ok)), r)"
  "read_response_lines acc (eol data_go @ r) = (Inr (trim (acc @ eol data_go)), r)"
  "clean q \<Longrightarrow> read_response_lines acc (eol (queued_line q) @ r) = (Inr (trim (acc @ eol (queued_line q))), r)"
  using reply_shape by (simp_all add: read_reply)

lemma rcpt_commands_run:
  "rcpt_commands rs (conn (concat (map (\<lambda>_. eol rcpt_ok) rs) @ rest) out) =
     (Inr (), conn rest (out @ concat (map (\<lambda>r. write_cmd (rcpt_cmd r)) rs)))"
proof (induction rs arbitrary: out)
  case Nil
  then show ?case by (simp add: conv_return_def)
next
  case (Cons r rs)
  have "command_ok (rcpt_cmd r) (conn (eol rcpt_ok @ concat (map (\<lambda>_. eol rcpt_ok) rs) @ rest) out) =
      (Inr (trim (eol rcpt_ok)), conn (concat (map (\<lambda>_. eol rcpt_ok) rs) @ rest) (out @ write_cmd (rcpt_cmd r)))"
    using command_ok_run [OF final_lines(3) [of "[]"]] positive_lines(3) by simp
  then show ?case
    unfolding rcpt_commands.simps rcpt_cmd_def [symmetric]
    using Cons.IH [of "out @ write_cmd (rcpt_cmd r)"] by (simp add: conv_bind_def)
qed

lemma conversation_run:
  assumes "clean q"
  shows "smtp_conversation mf rs m
      (conn (eol mail_ok @ concat (map (\<lambda>_. eol rcpt_ok) rs) @ eol data_go @ eol (queued_line q) @ rest) out) =
    (Inr (trim (eol (queued_line q))),
     conn rest (out @ write_cmd (mail_cmd mf) @ concat (map (\<lambda>r. write_cmd (rcpt_cmd r)) rs) @ write_cmd data_cmd @
       smtp_body m @ write_cmd quit_cmd))"
proof -
  let ?i1 = "concat (map (\<lambda>_. eol rcpt_ok) rs) @ eol data_go @ eol (queued_line q) @ rest"
  have mail: "command_ok (mail_cmd mf) (conn (eol mail_ok @ ?i1) out) =
      (Inr (trim (eol mail_ok)), conn ?i1 (out @ write_cmd (mail_cmd mf)))"
    using command_ok_run [OF final_lines(2) [of "[]"]] positive_lines(2) by simp
  note rcpts = rcpt_commands_run [of rs "eol data_go @ eol (queued_line q) @ rest" "out @ write_cmd (mail_cmd mf)"]
  show ?thesis
    unfolding smtp_conversation_def mail_cmd_def [symmetric] data_cmd_def [symmetric] quit_cmd_def [symmetric]
    using final_lines(4) [of "[]" "eol (queued_line q) @ rest"] final_lines(5) [OF assms, of "[]" rest]
      positive_lines(4,5)
    by (simp add: conv_bind_def mail rcpts conv_write_def read_response_def ensure_positive_def conv_return_def)
qed

lemma client_run:
  assumes "clean host" "clean q" "sn_tls sn \<noteq> Some True"
    and "nw_connect nw addr = Some (server_bytes host rs q)"
  shows "send_inner nw sn addr mx mf rs m =
    (Inr (trim (eol (queued_line q))), conn (eol bye_line) (client_bytes (sn_hostname sn) mf rs m))"
proof -
  let ?i2 = "eol mail_ok @ concat (map (\<lambda>_. eol rcpt_ok) rs) @ eol data_go @ eol (queued_line q) @ eol bye_line"
  let ?i1 = "eol (ehlo_first host) @ concat (map eol ehlo_more) @ eol ehlo_last @ ?i2"
  let ?er = "trim (eol (ehlo_first host) @ concat (map eol ehlo_more) @ eol ehlo_last)"
  have banner: "read_response (conn (server_bytes host rs q) []) = (Inr (trim (eol (banner_line host))), conn ?i1 [])"
    using final_lines(1) [OF assms(1), of "[]" ?i1] by (simp add: read_response_def server_bytes_def)
  have ehlo: "command_ok (ehlo_cmd h) (conn ?i1 []) = (Inr ?er, conn ?i2 (write_cmd (ehlo_cmd h)))" for h
    using command_ok_run [OF read_ehlo_reply [OF assms(1), of ?i2] positive_lines(6), of "ehlo_cmd h" "[]"] by simp
  show ?thesis
    unfolding send_inner_def assms(4) option.case ehlo_cmd_def [symmetric]
    using assms(3) positive_lines(1) [of host] conversation_run [OF assms(2), of mf rs m "eol bye_line"]
    by (simp add: conv_bind_def banner ensure_positive_def conv_return_def ehlo client_bytes_def)
qed

lemma hex_upper_clean: "d < 16 \<Longrightarrow> byte (hex_upper d) < 128 \<and> hex_upper d \<noteq> LF \<and> \<not> is_ws (hex_upper d)"
proof -
  assume "d < 16"
  then have "d \<in> {0, 1, 2, 3, 4, 5, 6, 7, 8, 9, 10, 11, 12, 13, 14, 15}"
    unfolding insert_iff empty_iff by presburger
  then have "byte (hex_upper d) < 128 \<and> \<not> is_ws (hex_upper d)"
    by (auto simp: hex_upper_def byte_def is_ws_def)
  moreover have "is_ws LF" by (simp add: is_ws_def LF_def)
  ultimately show ?thesis by auto
qed

lemma hex_digits_clean: "list_all (\<lambda>c. byte c < 128 \<and> c \<noteq> LF \<and> \<not> is_ws c) (hex_digits w n)"
  by (induction w arbitrary: n) (simp_all add: hex_upper_clean)

lemma queue_id_clean:
  "clean (generate_queue_id ts r)" "\<not> is_ws (last (generate_queue_id ts r))" "generate_queue_id ts r \<noteq> []"
proof -
  let ?q = "generate_queue_id ts r"
  have "length ?q = 12" by (simp add: generate_queue_id_def)
  then show ne: "?q \<noteq> []" by auto
  have all: "list_all (\<lambda>c. byte c < 128 \<and> c \<noteq> LF \<and> \<not> is_ws c) ?q"
    unfolding generate_queue_id_def list_all_append using hex_digits_clean by blast
  then show "clean ?q" by (intro clean_ascii) (auto simp: list_all_iff)
  show "\<not> is_ws (last ?q)" using all ne last_in_set [of ?q] by (auto simp: list_all_iff)
qed

lemma queued_line_trim:
  assumes "q \<noteq> []" "\<not> is_ws (last q)"
  shows "trim (eol (queued_line q)) = queued_line q"
  unfolding eol_def by (rule trim_keeps) (use assms in \<open>simp_all add: queued_line_def is_ws_def\<close>)

section \<open>A hop\<close>

text \<open>C13. One hop from relay to relay works end to end: when the receiving relay trusts the peer, its
  policy admits the message and its spool takes it, the client reports success with the queue
  identifier, having written exactly the bytes the session read, and the receiving relay has accepted
  and spooled exactly the envelope the client was given and the message with its lines ended by
  CRLF.\<close>

theorem relay_hop:
  fixes rv :: "('net, 'key) smtp_receiver" and w :: relay_world and mf m :: str
  defines "dmn \<equiv> rsplit_first (CHR ''@'') mf"
    and "now \<equiv> rv_clock rv (rw_handled w)"
  assumes "is_trusted (rv_cidr rv) (rv_trusted_hosts rv) peer" "\<not> th_require_tls (rv_trusted_hosts rv)"
    and "clean (rv_hostname rv)" "clean (sn_hostname sn)" "sn_hostname sn \<noteq> []" "\<not> is_ws (last (sn_hostname sn))"
    and "sn_tls sn \<noteq> Some True" "clean mf" "list_all clean rs" "rs \<noteq> []" "utf8_valid m"
    and "outbound_policy_checker_check now dmn (length rs) (crlf_lines m) (rw_policy w) = (Inr (), pc)"
    and "spool_enqueue (rv_json rv) (rv_io rv) (generate_queue_id (of_int now) (rv_random rv (rw_handled w))) now
           \<lparr>env_mail_from = mf, env_rcpt_to = rs\<rparr> (final_message rv dmn (crlf_lines m)) (rw_spool w) = (Inr q, fs)"
    and "session_run rv (session_open rv peer (client_bytes (sn_hostname sn) mf rs m)) w = (s', w')"
    and "nw_connect nw addr = Some (ss_output s')"
  shows "smtp_send nw sn addr mx mf rs m = Success (''250 2.0.0 OK queued as '' @ q) \<and>
    cn_out (snd (send_inner nw sn addr mx mf rs m)) = client_bytes (sn_hostname sn) mf rs m \<and>
    rw_spool w' = fs \<and>
    rw_accepted w' = rw_accepted w @
      [\<lparr>am_peer = peer, am_time = now, am_queue_id = q,
        am_envelope = \<lparr>env_mail_from = mf, env_rcpt_to = rs\<rparr>,
        am_received = crlf_lines m, am_stored = final_message rv dmn (crlf_lines m)\<rparr>]"
proof -
  have q: "q = generate_queue_id (of_int now) (rv_random rv (rw_handled w))"
    using assms(15)
    by (auto simp: spool_enqueue_def spool_store_def split: option.splits prod.splits bool.splits)
  note idc = queue_id_clean [of "of_int now" "rv_random rv (rw_handled w)", folded q]
  have srv: "ss_output s' = server_bytes (rv_hostname rv) rs q" "rw_spool w' = fs"
    "rw_accepted w' = rw_accepted w @
      [\<lparr>am_peer = peer, am_time = now, am_queue_id = q, am_envelope = \<lparr>env_mail_from = mf, env_rcpt_to = rs\<rparr>,
        am_received = crlf_lines m, am_stored = final_message rv dmn (crlf_lines m)\<rparr>]"
    using server_run [OF assms(3,4,6-8,10-13) assms(14) [unfolded dmn_def now_def] assms(15) [unfolded dmn_def now_def]]
      assms(16) unfolding dmn_def now_def by auto
  have "send_inner nw sn addr mx mf rs m =
      (Inr (queued_line q), conn (eol bye_line) (client_bytes (sn_hostname sn) mf rs m))"
    using client_run [OF assms(5) idc(1) assms(9)] assms(17) srv(1) queued_line_trim [OF idc(3,2)] by simp
  then show ?thesis using srv(2,3) by (simp add: smtp_send_def queued_line_def)
qed

section \<open>A concrete hop\<close>

definition demo_receiver :: "(str, unit) smtp_receiver" where
  "demo_receiver =
     \<lparr>rv_hostname = ''mx'',
      rv_trusted_hosts = trusted_hosts_new prefix_cidr_lib \<lparr>thc_hosts = [''10.''], thc_require_tls = False\<rparr>,
      rv_dkim_enabled = False, rv_dkim_key_store = [],
      rv_dkim_lib = \<lparr>dl_read_key = (\<lambda>_. None), dl_ed25519 = (\<lambda>_. None), dl_rsa_pkcs8 = (\<lambda>_. None),
                     dl_rsa_pem = (\<lambda>_. None), dl_sign = (\<lambda>_ _ _ _ _. None)\<rparr>,
      rv_cidr = prefix_cidr_lib, rv_json = codec_lib, rv_io = io_reliable,
      rv_clock = int, rv_random = (\<lambda>_. 0)\<rparr>"

abbreviation demo_world :: relay_world where
  "demo_world \<equiv> relay_world_init outbound_policy_config_empty_section []"

abbreviation demo_session :: smtp_session where
  "demo_session \<equiv> session_open demo_receiver (V4 10 0 0 1) (client_bytes ''c'' ''a@b'' [''d@e''] ''hi'')"

lemma demo_trusted:
  "is_trusted (rv_cidr demo_receiver) (rv_trusted_hosts demo_receiver) (V4 10 0 0 1)"
  "\<not> th_require_tls (rv_trusted_hosts demo_receiver)"
proof -
  have "trim ''10.'' = ''10.''" by (simp add: trim_def trim_start_def trim_end_def is_ws_def)
  then show "is_trusted (rv_cidr demo_receiver) (rv_trusted_hosts demo_receiver) (V4 10 0 0 1)"
    by (simp add: demo_receiver_def is_trusted_new entry_trusts_def prefix_cidr_lib_def show_v4_def show_u8_def
        show_nat.simps digit_char_def char_of_def bit_Suc_0_iff)
  show "\<not> th_require_tls (rv_trusted_hosts demo_receiver)"
    by (simp add: demo_receiver_def require_tls_new)
qed

lemma demo_policy:
  "\<exists>pc. outbound_policy_checker_check 0 ''b'' 1 (crlf_lines ''hi'') (rw_policy demo_world) = (Inr (), pc)"
proof -
  have c: "crlf_lines ''hi'' = ''hi'' @ CRLF" by (simp add: crlf_lines_def strip_cr_def LF_def CR_def)
  have "from_utf8_lossy (''hi'' @ CRLF) = ''hi'' @ CRLF"
    by (rule from_utf8_lossy_ascii) (simp add: byte_def CRLF_def CR_def LF_def)
  then have l: "lines (from_utf8_lossy (crlf_lines ''hi'')) = [''hi'']"
    by (simp add: c lines_def CRLF_def CR_def LF_def strip_cr_def)
  have "outbound_content_policy_check (outbound_content_policy_new outbound_policy_config_empty_section)
      (crlf_lines ''hi'') = Inr ()"
    unfolding content_policy_ok_iff l find_map_None_iff
    by (simp add: c outbound_policy_config_empty_section_def default_max_message_size_def CRLF_def
        dangerous_extension_in_def contains_def sublist_code)
  then show ?thesis
    by (simp add: relay_world_init_def outbound_policy_checker_check_def build_policy_def
        outbound_policy_config_empty_section_def spf_alignment_check_check_def spf_alignment_check_new_def
        recipient_limit_check_def recipient_limit_new_def outbound_rate_limit_check_def
        outbound_rate_limit_new_def retain_last_hour_def default_max_recipients_def default_domain_rate_def)
qed

lemma demo_enqueue:
  "\<exists>q fs. spool_enqueue (rv_json demo_receiver) (rv_io demo_receiver)
     (generate_queue_id (of_int 0) (rv_random demo_receiver 0)) 0 env msg [] = (Inr q, fs)"
  using codec.store_unfold [of _ _ msg "[]"] by (auto simp: demo_receiver_def spool_enqueue_def) metis

lemma demo_clean: "clean ''mx''" "clean ''c''" "clean ''a@b''" "clean ''d@e''" "utf8_valid ''hi''"
  by (rule clean_ascii, simp add: byte_def LF_def)+ (rule utf8_valid_ascii, simp add: byte_def)

theorem relay_hop_witness:
  "\<exists>q. smtp_send \<lparr>nw_connect = (\<lambda>_. Some (ss_output (fst (session_run demo_receiver demo_session demo_world)))),
                   nw_handshake = (\<lambda>_ _. Inl [])\<rparr>
      \<lparr>sn_hostname = ''c'', sn_tls = None\<rparr> \<lparr>sa_ip = V4 10 0 0 2, sa_port = 25\<rparr> ''mx'' ''a@b'' [''d@e''] ''hi'' =
    Success (''250 2.0.0 OK queued as '' @ q)"
proof -
  let ?sn = "\<lparr>sn_hostname = ''c'', sn_tls = None\<rparr>"
  have z: "rw_handled demo_world = 0" "rv_clock demo_receiver 0 = 0" "rw_spool demo_world = []"
      "rsplit_first (CHR ''@'') ''a@b'' = ''b''" "length [''d@e''] = 1"
    by (simp_all add: relay_world_init_def demo_receiver_def rsplit_first_def)
  obtain pc where pc: "outbound_policy_checker_check 0 ''b'' 1 (crlf_lines ''hi'') (rw_policy demo_world) = (Inr (), pc)"
    using demo_policy ..
  obtain q fs where q: "spool_enqueue (rv_json demo_receiver) (rv_io demo_receiver)
     (generate_queue_id (of_int 0) (rv_random demo_receiver 0)) 0
     \<lparr>env_mail_from = ''a@b'', env_rcpt_to = [''d@e'']\<rparr> (final_message demo_receiver ''b'' (crlf_lines ''hi'')) [] = (Inr q, fs)"
    using demo_enqueue by blast
  show ?thesis
    using relay_hop [where rv = demo_receiver and sn = ?sn and w = demo_world and peer = "V4 10 0 0 1"
        and mf = "''a@b''" and rs = "[''d@e'']" and m = "''hi''" and pc = pc and q = q and fs = fs
        and s' = "fst (session_run demo_receiver demo_session demo_world)"
        and w' = "snd (session_run demo_receiver demo_session demo_world)", unfolded z,
        OF demo_trusted _ _ _ _ _ demo_clean(3) _ _ demo_clean(5) pc q]
      demo_clean by (auto simp: demo_receiver_def is_ws_def)
qed

lemma session_run_reachable:
  "(relay_step rv)\<^sup>*\<^sup>* ([s], w) ([fst (session_run rv s w)], snd (session_run rv s w))"
proof (induction rv s w rule: session_run.induct)
  case (1 rv s w)
  show ?case
  proof (cases "ss_open s")
    case False
    then show ?thesis by (simp add: session_run.simps)
  next
    case True
    have "relay_step rv ([s], w) ([fst (session_step rv s w)], snd (session_step rv s w))"
      using relay_step.Command [of 0 "[s]" rv w] True by simp
    with 1 [simplified, OF True] show ?thesis
      using True by (simp add: session_run.simps [of rv s w] converse_rtranclp_into_rtranclp)
  qed
qed


end
