(* ===== verification/Smtp_Proxy_Runs.thy ===== *)
theory Smtp_Proxy_Runs
  imports Smtp_Proxy Relay_Hop
begin

text \<open>
  Runs of the SMTP proxy: what it writes to the backend, how the DATA section passes through it from
  the relay's client to the relay's server, and sessions that show where the lists and the filter
  do not apply.
\<close>

section \<open>The conversation with the backend\<close>

lemma read_line_valid:
  "utf8_valid s \<Longrightarrow> utf8_valid (fst (read_line s)) \<and> utf8_valid (snd (read_line s))"
proof (cases "LF \<in> set s")
  case False
  then have "read_line s = (s, [])" by (induction s) auto
  then show "utf8_valid s \<Longrightarrow> ?thesis" by simp
next
  case True
  then obtain a b where s: "s = a @ LF # b" "LF \<notin> set a" by (metis split_list_first)
  assume "utf8_valid s"
  then have "utf8_valid a" "utf8_valid b" using s(1) utf8_valid_ascii_split [OF byte_line_ends(1)] by blast+
  then show ?thesis
    using read_line_at [OF s(2), of b] s(1) utf8_valid_ascii_split [OF byte_line_ends(1), of a "[]"] by simp
qed

text \<open>A backend whose bytes are UTF-8 never stops the conversation.\<close>

definition keeps_going :: "'a backend_io \<Rightarrow> str \<Rightarrow> bool" where
  "keeps_going m out \<longleftrightarrow> (\<forall>c. utf8_valid (bc_in c) \<longrightarrow>
     (\<exists>a c'. m c = (Some a, c') \<and> utf8_valid (bc_in c') \<and> bc_out c' = bc_out c @ out))"

lemma keeps_read: "keeps_going bk_read []"
  unfolding keeps_going_def bk_read_def
  by (auto dest: read_line_valid split: prod.splits)

lemma keeps_write: "keeps_going (bk_write x) x"
  by (simp add: keeps_going_def bk_write_def)

lemma keeps_return: "keeps_going (bk_return a) []"
  by (simp add: keeps_going_def bk_return_def)

lemma keeps_bind:
  assumes "keeps_going m x" "\<And>a. keeps_going (f a) y"
  shows "keeps_going (bk_bind m f) (x @ y)"
  unfolding keeps_going_def
proof (intro allI impI)
  fix c :: backend_conn
  assume "utf8_valid (bc_in c)"
  then obtain a c' where 1: "m c = (Some a, c')" "utf8_valid (bc_in c')" "bc_out c' = bc_out c @ x"
    using assms(1) unfolding keeps_going_def by blast
  then obtain b c'' where "f a c' = (Some b, c'')" "utf8_valid (bc_in c'')" "bc_out c'' = bc_out c' @ y"
    using assms(2) [of a] unfolding keeps_going_def by blast
  with 1 show "\<exists>a c'. bk_bind m f c = (Some a, c') \<and> utf8_valid (bc_in c') \<and> bc_out c' = bc_out c @ x @ y"
    by (simp add: bk_bind_def)
qed

lemma keeps_ehlo: "keeps_going read_ehlo []"
  unfolding keeps_going_def
proof (intro allI impI)
  fix c :: backend_conn
  assume "utf8_valid (bc_in c)"
  then show "\<exists>a c'. read_ehlo c = (Some a, c') \<and> utf8_valid (bc_in c') \<and> bc_out c' = bc_out c @ []"
  proof (induction c rule: read_ehlo.induct)
    case (1 c)
    obtain l c' where r: "bk_read c = (Some l, c')" "utf8_valid (bc_in c')" "bc_out c' = bc_out c"
      using keeps_read 1(2) unfolding keeps_going_def by fastforce
    show ?case
    proof (cases "bc_in c = [] \<or> (4 \<le> length l \<and> l ! 3 = CHR '' '')")
      case True
      then show ?thesis using r by (auto simp: read_ehlo.simps [of c])
    next
      case False
      have "read_ehlo c = read_ehlo c'" using False r(1) by (subst read_ehlo.simps) auto
      then show ?thesis using 1(1) [OF r(1) [symmetric] refl False r(2)] r(3) by simp
    qed
  qed
qed

lemma keeps_rcpts: "keeps_going (forward_rcpts rs) (concat (map (\<lambda>r. write_cmd (rcpt_cmd r)) rs))"
proof (induction rs)
  case Nil
  show ?case by (simp add: keeps_return)
next
  case (Cons r rs)
  have "keeps_going (bk_bind (bk_write (''RCPT TO:<'' @ r @ ''>'' @ CRLF)) (\<lambda>_. bk_bind bk_read (\<lambda>_. forward_rcpts rs)))
      ((''RCPT TO:<'' @ r @ ''>'' @ CRLF) @ [] @ concat (map (\<lambda>r. write_cmd (rcpt_cmd r)) rs))"
    by (intro keeps_bind keeps_write keeps_read Cons)
  then show ?case by (simp add: write_cmd_def rcpt_cmd_def)
qed

text \<open>What the proxy sends for a message.\<close>

definition backend_bytes :: "smtp_proxy \<Rightarrow> str \<Rightarrow> str \<Rightarrow> str \<Rightarrow> str list \<Rightarrow> spam_report \<Rightarrow> ip_addr \<Rightarrow> str" where
  "backend_bytes sx date m mf rs report ip =
     write_cmd (ehlo_cmd (sx_hostname sx)) @ write_cmd (mail_cmd mf) @ concat (map (\<lambda>r. write_cmd (rcpt_cmd r)) rs) @
     write_cmd data_cmd @ header_bytes (injected_headers sx date report ip) @ m @ CRLF @ write_cmd ''.'' @ write_cmd quit_cmd"

lemma keeps_conversation:
  "keeps_going (forward_conversation sx date m mf rs report ip) (backend_bytes sx date m mf rs report ip)"
proof -
  have "keeps_going (forward_conversation sx date m mf rs report ip)
     ([] @ (''EHLO '' @ sx_hostname sx @ CRLF) @ [] @ (''MAIL FROM:<'' @ mf @ ''>'' @ CRLF) @ [] @
      concat (map (\<lambda>r. write_cmd (rcpt_cmd r)) rs) @ (''DATA'' @ CRLF) @ [] @
      header_bytes (injected_headers sx date report ip) @ m @ (CRLF @ ''.'' @ CRLF) @ [] @ (''QUIT'' @ CRLF) @ [])"
    unfolding forward_conversation_def
    by (intro keeps_bind keeps_write keeps_read keeps_ehlo keeps_rcpts keeps_return)
  then show ?thesis
    by (simp add: backend_bytes_def write_cmd_def ehlo_cmd_def mail_cmd_def data_cmd_def quit_cmd_def)
qed


section \<open>The DATA section\<close>

definition unstuff :: "str \<Rightarrow> str" where
  "unstuff l = (if starts_with l ''..'' then drop 1 l else l)"

lemma starts_with_crlf: "starts_with (l @ CRLF) ''..'' = starts_with l ''..''"
  by (cases l rule: list.exhaust [case_names Nil Cons]; cases "tl l")
    (auto simp: starts_with_def CRLF_def CR_def LF_def)

lemma proxy_read_data_line:
  assumes "clean l" "l \<noteq> ''.''"
  shows "proxy_read_data acc n (l @ CRLF @ r) = proxy_read_data (acc @ unstuff l @ CRLF) (n + of_nat (length l + 2)) r"
proof -
  have rl: "read_line (l @ CRLF @ r) = (l @ CRLF, r)"
    using read_line_at [of "l @ [CR]" r] assms(1) by (simp add: CRLF_def clean_def)
  have "l @ CRLF \<noteq> ''.'' @ CRLF" using assms(2) by simp
  moreover have "l @ CRLF \<noteq> ''.'' @ [LF]" by (cases l) (auto simp: CRLF_def CR_def LF_def)
  moreover have "utf8_valid (l @ CRLF)"
    using assms(1) byte_line_ends utf8_valid_ascii [of CRLF] by (simp add: clean_def utf8_valid_append CRLF_def)
  moreover have "drop 1 (l @ CRLF) = drop 1 l @ CRLF" if "starts_with l ''..''"
    using that by (cases l) (auto simp: starts_with_def)
  moreover have "l @ CRLF @ r \<noteq> []" by (simp add: CRLF_def)
  ultimately show ?thesis
    using rl by (subst proxy_read_data.simps)
      (simp add: Let_def starts_with_crlf unstuff_def CRLF_def [THEN arg_cong [of _ _ length]] del: append_is_Nil_conv)
qed

lemma proxy_read_data_end: "proxy_read_data acc n (''.'' @ CRLF @ r) = Some (acc, r, n + 3)"
proof -
  have "read_line (''.'' @ CRLF @ r) = (''.'' @ CRLF, r)"
    using read_line_at [of "[CHR ''.'', CR]" r] by (simp add: CRLF_def LF_def CR_def)
  moreover have "utf8_valid (''.'' @ CRLF)"
    using byte_line_ends by (intro utf8_valid_ascii) (simp add: CRLF_def)
  ultimately show ?thesis by (subst proxy_read_data.simps) (simp add: CRLF_def)
qed

abbreviation crlf_text :: "str list \<Rightarrow> str" where
  "crlf_text ls \<equiv> concat (map (\<lambda>l. l @ CRLF) ls)"

lemma proxy_read_data_lines:
  assumes "list_all (\<lambda>l. clean l \<and> l \<noteq> ''.'') ls"
  shows "\<exists>n'. proxy_read_data acc n (crlf_text ls @ r) = proxy_read_data (acc @ crlf_text (map unstuff ls)) n' r"
  using assms
proof (induction ls arbitrary: acc n)
  case (Cons l ls)
  then obtain n' where "proxy_read_data (acc @ unstuff l @ CRLF) (n + of_nat (length l + 2)) (crlf_text ls @ r) =
      proxy_read_data ((acc @ unstuff l @ CRLF) @ crlf_text (map unstuff ls)) n' r" by fastforce
  then show ?case using Cons.prems by (intro exI [of _ n']) (simp add: proxy_read_data_line)
qed auto

lemma unstuff_stuffed: "unstuff ((if starts_with l ''.'' then ''.'' else []) @ l) = l"
  by (cases l) (auto simp: unstuff_def starts_with_def)

text \<open>The message of a conforming client arrives at the filter unchanged: from the body the relay's client
  writes for any UTF-8 message the proxy collects the lines of the message, each ended by CRLF, and
  stops at the final dot.\<close>

theorem proxy_body_roundtrip:
  assumes "utf8_valid m"
  shows "\<exists>n. proxy_read_data [] 0 (smtp_body m @ r) = Some (crlf_lines m, r, n)"
proof -
  let ?st = "\<lambda>l. (if starts_with (strip_cr l) ''.'' then ''.'' else []) @ strip_cr l"
  let ?ls = "map ?st (split_char LF m)"
  have "clean (?st l) \<and> ?st l \<noteq> ''.''" if "l \<in> set (split_char LF m)" for l
  proof
    have "LF \<notin> set l" "utf8_valid l"
      using that split_char_no_sep [of LF m] utf8_split_lines [OF assms] by (auto simp: list_all_iff)
    then show "clean (?st l)"
      using set_strip_cr [of l] utf8_strip_cr [of l] clean_ascii [of "''.''"]
      by (auto simp: clean_def utf8_valid_append LF_def byte_def)
    show "?st l \<noteq> ''.''" by (auto simp: starts_with_def)
  qed
  then have "list_all (\<lambda>l. clean l \<and> l \<noteq> ''.'') ?ls" by (auto simp: list_all_iff)
  from proxy_read_data_lines [OF this, of "[]" 0 "''.'' @ CRLF @ r"]
  obtain n where "proxy_read_data [] 0 (crlf_text ?ls @ ''.'' @ CRLF @ r) =
      proxy_read_data (crlf_text (map unstuff ?ls)) n (''.'' @ CRLF @ r)" by auto
  moreover have "smtp_body m @ r = crlf_text ?ls @ ''.'' @ CRLF @ r"
    using arg_cong [of "map stuff_line (split_char LF m)" "map (\<lambda>l. ?st l @ CRLF) (split_char LF m)" concat]
    by (simp add: smtp_body_def stuff_line_eq comp_def cong: map_cong)
  moreover have "crlf_text (map unstuff ?ls) = crlf_lines m"
    by (simp add: crlf_lines_def comp_def unstuff_stuffed)
  ultimately show ?thesis by (auto simp: proxy_read_data_end simp del: append.append_Cons)
qed

theorem proxy_body_roundtrip_witness:
  "\<exists>n. proxy_read_data [] 0 (smtp_body ''.a'' @ ''QUIT'') = Some (''.a'' @ CRLF, ''QUIT'', n)"
  using proxy_body_roundtrip [of "''.a''" "''QUIT''"]
  by (simp add: utf8_valid_ascii byte_def crlf_lines_def strip_cr_def CR_def LF_def)

text \<open>A message cut off by a lost connection is treated like a complete one: without the final dot the
  proxy hands the same message to the filter, where the relay's receiver gives up.\<close>

theorem truncated_message_accepted:
  assumes "list_all (\<lambda>l. clean l \<and> l \<noteq> ''.'') ls"
  shows "\<exists>n n'. proxy_read_data [] 0 (crlf_text ls) = Some (crlf_text (map unstuff ls), [], n) \<and>
     proxy_read_data [] 0 (crlf_text ls @ ''.'' @ CRLF) = Some (crlf_text (map unstuff ls), [], n')"
proof -
  obtain n where "proxy_read_data [] 0 (crlf_text ls) = proxy_read_data (crlf_text (map unstuff ls)) n []"
    using proxy_read_data_lines [OF assms, of "[]" 0 "[]"] by auto
  moreover obtain n' where "proxy_read_data [] 0 (crlf_text ls @ ''.'' @ CRLF) =
      proxy_read_data (crlf_text (map unstuff ls)) n' (''.'' @ CRLF @ [])"
    using proxy_read_data_lines [OF assms, of "[]" 0 "''.'' @ CRLF"] by auto
  ultimately show ?thesis
    unfolding proxy_read_data_end by (simp add: proxy_read_data.simps [of _ _ "[]"])
qed

theorem truncated_message_accepted_witness:
  "\<exists>n n'. proxy_read_data [] 0 (''hi'' @ CRLF) = Some (''hi'' @ CRLF, [], n) \<and>
     proxy_read_data [] 0 (''hi'' @ CRLF @ ''.'' @ CRLF) = Some (''hi'' @ CRLF, [], n')"
  using truncated_message_accepted [of "[''hi'']"] clean_ascii [of "''hi''"]
  by (simp add: byte_def LF_def unstuff_def starts_with_def)

text \<open>The relay's server on lines without leading dots.\<close>

lemma read_data_plain:
  assumes "list_all (\<lambda>l. clean l \<and> \<not> starts_with l ''.'') ls"
  shows "read_data acc (crlf_text ls @ r) = read_data (acc @ crlf_text ls) r"
  using assms
proof (induction ls arbitrary: acc)
  case (Cons l ls)
  have "stuff_line (l @ [CR]) = l @ CRLF"
    using Cons.prems by (simp add: stuff_line_eq strip_cr_def)
  then have "read_data acc ((l @ CRLF) @ r') = read_data (acc @ l @ CRLF) r'" for r'
    using read_data_line [of "l @ [CR]" acc r'] Cons.prems utf8_valid_ascii_split [OF byte_line_ends(2), of l "[]"]
    by (simp add: clean_def strip_cr_def)
  then show ?case using Cons by simp
qed simp



section \<open>Sessions\<close>

text \<open>One command line.\<close>

lemma proxy_turn_line:
  assumes "clean x" "px_input s = write_cmd x @ rest"
  shows "proxy_turn sx s w = proxy_command sx (parse_command (write_cmd x))
    (s\<lparr>px_input := rest, px_bytes_from_client := px_bytes_from_client s + of_nat (length (write_cmd x)),
       px_command_count := px_command_count s + 1\<rparr>) w"
proof -
  have "read_line (px_input s) = (write_cmd x, rest)"
    using assms read_line_crlf [of x rest] by (simp add: write_cmd_def clean_def)
  moreover have "px_input s \<noteq> []" using assms(2) by (simp add: write_cmd_def CRLF_def)
  moreover have "utf8_valid (write_cmd x)" using assms(1) by (simp add: write_cmd_def clean_def utf8_valid_crlf)
  ultimately show ?thesis by (simp add: proxy_turn_def)
qed

lemma parse_lines:
  "parse_command (write_cmd (mail_cmd a)) = MailFrom (''<'' @ a @ ''>'')"
  "parse_command (write_cmd (rcpt_cmd a)) = RcptTo (''<'' @ a @ ''>'')"
  unfolding mail_cmd_def rcpt_cmd_def by (rule parse_mail_from parse_rcpt_to)+

lemma loop_reachable:
  "(proxy_loop sx ^^ n) (proxy_open sx peer now input, proxy_world_init p) = (s, w) \<Longrightarrow>
   (proxy_step sx)\<^sup>*\<^sup>* ([], proxy_world_init p) ([(sx, s)], w)"
proof (induction n arbitrary: s w)
  case 0
  have "proxy_step sx ([], proxy_world_init p) ([] @ [(sx, proxy_open sx peer now input)], proxy_world_init p)"
    by (rule proxy_step.Accept [where a = "sx_backend_addr sx" and t = "sx_backend_tag sx" and j = "sx_ja3_fingerprint sx"]) simp
  then show ?case using 0 by auto
next
  case (Suc n)
  obtain s1 w1 where n: "(proxy_loop sx ^^ n) (proxy_open sx peer now input, proxy_world_init p) = (s1, w1)"
    by (metis surj_pair)
  then have turn: "proxy_loop sx (s1, w1) = (s, w)" using Suc.prems by simp
  show ?case
  proof (cases "px_open s1")
    case True
    then have "proxy_turn sx s1 w1 = (s, w)" using turn by (simp add: proxy_loop_def)
    with True have "proxy_step sx ([(sx, s1)], w1) ([(sx, s1)][0 := (sx, s)], w)"
      by (intro proxy_step.Command [of 0 _ sx s1]) simp_all
    then show ?thesis using Suc.IH [OF n] by (simp add: rtranclp.rtrancl_into_rtrancl)
  next
    case False
    then show ?thesis using turn Suc.IH [OF n] by (simp add: proxy_loop_def)
  qed
qed

text \<open>A complete message in a session whose client is not on the allow list and that the filter lets
  through is forwarded.\<close>

lemma proxy_message_delivers:
  assumes "run_pre_data (sx_libs sx) (sx_clock sx (pw_evaluated w)) (session_envelope sx s) (pw_pipeline w) =
      ((PContinue, sc, xs), p')"
    and "\<not> px_allowed s"
    and "run_post_data (sx_libs sx) \<lparr>mc_envelope = session_envelope sx s, mc_raw_message = m\<rparr> sc xs
      authentication_results_default p' = Inr report" "sr_verdict report \<noteq> Spam"
  shows "\<exists>f. pw_forwarded (snd (proxy_message sx m s w)) = pw_forwarded w @ [f] \<and>
    fw_envelope f = session_envelope sx s \<and> fw_message f = m \<and> fw_report f = report"
proof -
  let ?w = "w\<lparr>pw_pipeline := p', pw_evaluated := Suc (pw_evaluated w)\<rparr>"
  obtain b s2 w2 where fwd: "proxy_forward sx (pw_evaluated w) m report False (pw_pipeline w) s ?w = (b, s2, w2)"
    by (metis prod.collapse)
  then have "pw_forwarded (snd (proxy_message sx m s w)) = pw_forwarded w2"
    using assms by (simp add: proxy_message_def proxy_post_data_def)
  with proxy_forward_forwarded [OF fwd] show ?thesis by auto
qed

text \<open>The same on the allow list, whatever the message checks say; the session stays allowed.\<close>

lemma proxy_message_allowed:
  assumes "run_pre_data (sx_libs sx) (sx_clock sx (pw_evaluated w)) (session_envelope sx s) (pw_pipeline w) =
      ((PContinue, sc, xs), p')" "px_allowed s"
  shows "px_allowed (fst (proxy_message sx m s w)) \<and>
    (\<exists>f. pw_forwarded (snd (proxy_message sx m s w)) = pw_forwarded w @ [f] \<and>
      fw_envelope f = session_envelope sx s \<and> fw_message f = m \<and> fw_report f = clean_report)"
proof -
  let ?w = "w\<lparr>pw_pipeline := p', pw_evaluated := Suc (pw_evaluated w)\<rparr>"
  obtain b s2 w2 where fwd: "proxy_forward sx (pw_evaluated w) m clean_report True (pw_pipeline w) s ?w = (b, s2, w2)"
    by (metis prod.collapse)
  then have "proxy_message sx m s w = (end_transaction s2, w2)"
    using assms by (simp add: proxy_message_def)
  with proxy_forward_forwarded [OF fwd] proxy_forward_same [OF fwd] assms(2) show ?thesis
    by (auto simp: same_client_def)
qed

definition rcpt_only_envelope :: "smtp_proxy \<Rightarrow> ip_addr \<Rightarrow> int \<Rightarrow> str \<Rightarrow> envelope_context" where
  "rcpt_only_envelope sx peer now r =
     \<lparr>ec_client_ip = peer, ec_helo_domain = [], ec_mail_from = [], ec_rcpt_to = [r], ec_early_talker = True,
      ec_connect_time = now, ec_banner_sent_time = now, ec_command_count = 2, ec_pipelining_detected = False,
      ec_ja3_fingerprint = sx_ja3_fingerprint sx\<rparr>"

lemma rcpt_first_run:
  assumes "\<not> mail_block_list_contains_recipient (sx_block_list sx) r" "clean r" "trim_angles (''<'' @ r @ ''>'') = r"
    and "\<not> mail_allow_list_matches (sx_allow_list sx) peer []"
    and "proxy_read_data [] 0 body = Some (m, rest, n)"
    and "run_pre_data (sx_libs sx) (sx_clock sx 0) (rcpt_only_envelope sx peer now r) p = ((PContinue, sc, xs), p')"
    and "run_post_data (sx_libs sx) \<lparr>mc_envelope = rcpt_only_envelope sx peer now r, mc_raw_message = m\<rparr> sc xs
      authentication_results_default p' = Inr report" "sr_verdict report \<noteq> Spam"
  shows "\<exists>s w f. (proxy_loop sx ^^ 2) (proxy_open sx peer now (write_cmd (rcpt_cmd r) @ write_cmd data_cmd @ body),
          proxy_world_init p) = (s, w) \<and>
       pw_forwarded w = [f] \<and> fw_envelope f = rcpt_only_envelope sx peer now r \<and> fw_message f = m"
proof -
  define s0 where "s0 = proxy_open sx peer now (write_cmd (rcpt_cmd r) @ write_cmd data_cmd @ body)"
  have s0: "px_input s0 = write_cmd (rcpt_cmd r) @ write_cmd data_cmd @ body" "px_open s0" "px_allowed s0 = False"
    "px_mail_from s0 = []" "px_peer s0 = peer" "px_early_talker s0" "px_command_count s0 = 0" "px_rcpt_to s0 = []"
    "px_helo_domain s0 = []" "px_connect_time s0 = now" "px_banner_sent_time s0 = now"
    by (simp_all add: s0_def proxy_open_def write_cmd_def CRLF_def respond_def)
  define s1 where "s1 = fst (proxy_turn sx s0 (proxy_world_init p))"
  have t1: "proxy_turn sx s0 (proxy_world_init p) = (s1, proxy_world_init p)"
    unfolding s1_def proxy_turn_line [OF clean_lines(3) [OF assms(2)] s0(1)] parse_lines
    by (simp add: proxy_command_def)
  have s1: "px_input s1 = write_cmd data_cmd @ body" "px_open s1" "px_state s1 = StRcptTo"
    "px_allowed s1 = False" "px_mail_from s1 = []" "px_peer s1 = peer" "px_early_talker s1" "px_command_count s1 = 1"
    "px_rcpt_to s1 = [r]" "px_helo_domain s1 = []" "px_connect_time s1 = now" "px_banner_sent_time s1 = now"
    unfolding s1_def proxy_turn_line [OF clean_lines(3) [OF assms(2)] s0(1)] parse_lines
    using s0 assms(1,3,4) by (simp_all add: proxy_command_def proxy_rcpt_to_def respond_def)
  obtain s2 where s2: "proxy_turn sx s1 (proxy_world_init p) = proxy_message sx m s2 (proxy_world_init p)"
    "session_envelope sx s2 = rcpt_only_envelope sx peer now r" "\<not> px_allowed s2"
    unfolding proxy_turn_line [OF clean_lines(4) s1(1)] parse_data_quit
    using s1 assms(5)
    by (simp add: proxy_command_def proxy_data_def respond_def session_envelope_def rcpt_only_envelope_def)
  have "(proxy_loop sx ^^ 2) (s0, proxy_world_init p) = proxy_message sx m s2 (proxy_world_init p)"
    using t1 s0(2) s1(2) s2(1) by (simp add: numeral_2_eq_2 proxy_loop_def)
  moreover have "\<exists>f. pw_forwarded (snd (proxy_message sx m s2 (proxy_world_init p))) = pw_forwarded (proxy_world_init p) @ [f] \<and>
    fw_envelope f = session_envelope sx s2 \<and> fw_message f = m \<and> fw_report f = report"
    using proxy_message_delivers [of sx "proxy_world_init p" s2 sc xs p' m report] assms(6-8) s2(2,3)
    by (simp add: proxy_world_init_def)
  ultimately show ?thesis
    using s2(2) unfolding s0_def by (metis append_Nil prod.collapse proxy_world.select_convs(3) proxy_world_init_def)
qed

text \<open>The block list is consulted at MAIL FROM only: a client whose address is on it, and that starts with
  RCPT TO, gets its message forwarded with an empty sender when the filter lets it through.\<close>

theorem blocked_client_skips_mail:
  assumes "ip_to_string peer \<in> set (mbl_ips (sx_block_list sx))"
    and "\<not> mail_block_list_contains_recipient (sx_block_list sx) r" "clean r" "trim_angles (''<'' @ r @ ''>'') = r"
    and "\<not> mail_allow_list_matches (sx_allow_list sx) peer []"
    and "proxy_read_data [] 0 body = Some (m, rest, n)"
    and "run_pre_data (sx_libs sx) (sx_clock sx 0) (rcpt_only_envelope sx peer now r) p = ((PContinue, sc, xs), p')"
    and "run_post_data (sx_libs sx) \<lparr>mc_envelope = rcpt_only_envelope sx peer now r, mc_raw_message = m\<rparr> sc xs
      authentication_results_default p' = Inr report" "sr_verdict report \<noteq> Spam"
  shows "(\<forall>sender. mail_block_list_matches (sx_block_list sx) peer sender) \<and>
    (\<exists>s w f. (proxy_loop sx ^^ 2) (proxy_open sx peer now (write_cmd (rcpt_cmd r) @ write_cmd data_cmd @ body),
          proxy_world_init p) = (s, w) \<and>
       pw_forwarded w = [f] \<and> fw_envelope f = rcpt_only_envelope sx peer now r \<and> fw_message f = m)"
  using assms(1) rcpt_first_run [OF assms(2-)] by (simp add: mail_block_list_matches_def)

section \<open>Concrete sessions\<close>

definition demo_proxy :: smtp_proxy where
  "demo_proxy = \<lparr>sx_backend_addr = \<lparr>sa_ip = V4 10 0 0 1, sa_port = 25\<rparr>, sx_backend_tag = ''b1'',
     sx_allow_list = mail_allow_list_from_config [] [''friend@ok''] [],
     sx_block_list = mail_block_list_from_config [''192.0.2.1''] [] [] [],
     sx_hostname = ''wall'', sx_ja3_fingerprint = None,
     sx_smtp_headers = \<lparr>shc_add_received = False, shc_x_forwarded_for = False\<rparr>,
     sx_libs = demo_libs, sx_clock = (\<lambda>_ _. 0), sx_date = (\<lambda>_. []), sx_backend = (\<lambda>_. Some (''250 ok'' @ CRLF))\<rparr>"

definition quiet_filter :: antispam_pipeline where
  "quiet_filter = demo_filter\<lparr>ap_pre_data_checks := [], ap_post_data_checks := []\<rparr>"

lemma quiet_filter_passes:
  "run_pre_data ml clock env quiet_filter = ((PContinue, 0, []), quiet_filter)"
  "\<exists>report. run_post_data ml ctx 0 [] auth quiet_filter = Inr report \<and> sr_verdict report \<noteq> Spam"
  by (simp_all add: quiet_filter_def demo_filter_def run_pre_data_def run_post_data_def spam_score_verdict_def
      spam_score_percentage_def DEFAULT_MAX_SCORE_def spam_threshold_def find_override_def antispam_config_default_def
      Let_def)

lemma demo_body: "proxy_read_data [] 0 (''hi'' @ CRLF @ ''.'' @ CRLF) = Some (''hi'' @ CRLF, [], 7)"
  using proxy_read_data_line [of "''hi''" "[]" 0 "''.'' @ CRLF"] proxy_read_data_end [of "''hi'' @ CRLF" 4 "[]"]
    clean_ascii [of "''hi''"]
  by (simp add: byte_def LF_def unstuff_def starts_with_def)

lemma demo_facts:
  "ip_to_string (V4 192 0 2 1) \<in> set (mbl_ips (sx_block_list demo_proxy))"
  "\<not> mail_block_list_contains_recipient (sx_block_list demo_proxy) ''c@d''" "clean ''c@d''"
  "trim_angles (''<'' @ ''c@d'' @ ''>'') = ''c@d''" "\<not> mail_allow_list_matches (sx_allow_list demo_proxy) (V4 192 0 2 1) []"
proof -
  show "ip_to_string (V4 192 0 2 1) \<in> set (mbl_ips (sx_block_list demo_proxy))"
    by (simp add: demo_proxy_def mail_block_list_from_config_def show_v4_def show_u8_def show_nat.simps digit_char_def
        char_of_def bit_Suc_0_iff)
  show "clean ''c@d''" by (rule clean_ascii) (simp add: byte_def LF_def)
qed (simp_all add: demo_proxy_def mail_block_list_from_config_def mail_allow_list_from_config_def
    mail_block_list_contains_recipient_def mail_allow_list_matches_def list_contains_domain_def sender_domain_def
    rsplit_once_def trim_angles_def to_lower_def)

theorem blocked_client_skips_mail_witness:
  "\<exists>s w f. (proxy_loop demo_proxy ^^ 2)
      (proxy_open demo_proxy (V4 192 0 2 1) 0 (write_cmd (rcpt_cmd ''c@d'') @ write_cmd data_cmd @ ''hi'' @ CRLF @ ''.'' @ CRLF),
       proxy_world_init quiet_filter) = (s, w) \<and>
     pw_forwarded w = [f] \<and> ec_client_ip (fw_envelope f) = V4 192 0 2 1 \<and> fw_message f = ''hi'' @ CRLF \<and>
     mail_block_list_matches (sx_block_list demo_proxy) (V4 192 0 2 1) ''a@b''"
proof -
  let ?ctx = "\<lparr>mc_envelope = rcpt_only_envelope demo_proxy (V4 192 0 2 1) 0 ''c@d'', mc_raw_message = ''hi'' @ CRLF\<rparr>"
  obtain report where r: "run_post_data (sx_libs demo_proxy) ?ctx 0 [] authentication_results_default quiet_filter = Inr report"
    "sr_verdict report \<noteq> Spam" using quiet_filter_passes(2) by blast
  from blocked_client_skips_mail [OF demo_facts demo_body quiet_filter_passes(1) r]
  show ?thesis by (fastforce simp: rcpt_only_envelope_def)
qed

lemma demo_reachable:
  "\<exists>s w f. (proxy_step demo_proxy)\<^sup>*\<^sup>* ([], proxy_world_init quiet_filter) ([(demo_proxy, s)], w) \<and>
     pw_forwarded w = [f] \<and> fw_envelope f = rcpt_only_envelope demo_proxy (V4 192 0 2 1) 0 ''c@d''"
proof -
  let ?ctx = "\<lparr>mc_envelope = rcpt_only_envelope demo_proxy (V4 192 0 2 1) 0 ''c@d'', mc_raw_message = ''hi'' @ CRLF\<rparr>"
  obtain report where r: "run_post_data (sx_libs demo_proxy) ?ctx 0 [] authentication_results_default quiet_filter = Inr report"
    "sr_verdict report \<noteq> Spam" using quiet_filter_passes(2) by blast
  from rcpt_first_run [OF demo_facts(2-5) demo_body quiet_filter_passes(1) r] show ?thesis
    using loop_reachable by blast
qed


theorem every_client_talks_early_witness:
  "\<exists>s w f. (proxy_step demo_proxy)\<^sup>*\<^sup>* ([], proxy_world_init quiet_filter) ([(demo_proxy, s)], w) \<and> f \<in> set (pw_forwarded w) \<and>
     ec_early_talker (fw_envelope f)"
proof -
  obtain s w f where r: "(proxy_step demo_proxy)\<^sup>*\<^sup>* ([], proxy_world_init quiet_filter) ([(demo_proxy, s)], w)"
    and f: "f \<in> set (pw_forwarded w)" using demo_reachable by fastforce
  from every_client_talks_early [OF r f] r f show ?thesis by blast
qed


section \<open>The allow list outlives its transaction\<close>

text \<open>A session that was once matched by the allow list stays allowed: a later message of a sender that is
  not on the list is forwarded with a clean report and no message check, whatever those would say, and
  the session is still allowed afterwards.\<close>

theorem allow_list_sticks:
  assumes "px_allowed s" "px_open s"
    and "px_input s = write_cmd (mail_cmd a) @ write_cmd (rcpt_cmd r) @ write_cmd data_cmd @ body"
    and "clean a" "trim_angles (''<'' @ a @ ''>'') = a" "clean r" "trim_angles (''<'' @ r @ ''>'') = r"
    and "\<not> mail_block_list_matches (sx_block_list sx) (px_peer s) a"
    and "\<not> mail_block_list_contains_recipient (sx_block_list sx) r"
    and "\<not> mail_allow_list_matches (sx_allow_list sx) (px_peer s) a"
    and "proxy_read_data [] 0 body = Some (m, rest, n)"
    and "\<And>env. fst (fst (run_pre_data (sx_libs sx) (sx_clock sx (pw_evaluated w)) env (pw_pipeline w))) = PContinue"
  shows "\<exists>s' w' f. (proxy_loop sx ^^ 3) (s, w) = (s', w') \<and> px_allowed s' \<and>
    pw_forwarded w' = pw_forwarded w @ [f] \<and> ec_mail_from (fw_envelope f) = a \<and> fw_message f = m \<and> fw_report f = clean_report"
proof -
  define s1 where "s1 = fst (proxy_turn sx s w)"
  note t1 = proxy_turn_line [OF clean_lines(2) [OF assms(4)] assms(3), of sx w, unfolded parse_lines]
  have w1: "proxy_turn sx s w = (s1, w)" unfolding s1_def t1 by (simp add: proxy_command_def)
  have s1: "px_input s1 = write_cmd (rcpt_cmd r) @ write_cmd data_cmd @ body" "px_open s1" "px_allowed s1"
    "px_mail_from s1 = a" "px_peer s1 = px_peer s"
    unfolding s1_def t1 using assms by (simp_all add: proxy_command_def proxy_mail_from_def respond_def)
  define s2 where "s2 = fst (proxy_turn sx s1 w)"
  note t2 = proxy_turn_line [OF clean_lines(3) [OF assms(6)] s1(1), of sx w, unfolded parse_lines]
  have w2: "proxy_turn sx s1 w = (s2, w)" unfolding s2_def t2 by (simp add: proxy_command_def)
  have s2: "px_input s2 = write_cmd data_cmd @ body" "px_open s2" "px_allowed s2" "px_mail_from s2 = a" "px_state s2 = StRcptTo"
    unfolding s2_def t2 using s1 assms by (simp_all add: proxy_command_def proxy_rcpt_to_def respond_def)
  obtain s3 where s3: "proxy_turn sx s2 w = proxy_message sx m s3 w" "px_allowed s3" "px_mail_from s3 = a"
    unfolding proxy_turn_line [OF clean_lines(4) s2(1)] parse_data_quit
    using s2 assms(11) by (simp add: proxy_command_def proxy_data_def respond_def)
  obtain sc xs p' where "run_pre_data (sx_libs sx) (sx_clock sx (pw_evaluated w)) (session_envelope sx s3) (pw_pipeline w) =
      ((PContinue, sc, xs), p')" using assms(12) [of "session_envelope sx s3"] by (metis prod.collapse)
  from proxy_message_allowed [OF this s3(2), of m]
  have "px_allowed (fst (proxy_turn sx s2 w)) \<and> (\<exists>f. pw_forwarded (snd (proxy_turn sx s2 w)) = pw_forwarded w @ [f] \<and>
      ec_mail_from (fw_envelope f) = a \<and> fw_message f = m \<and> fw_report f = clean_report)"
    unfolding s3(1) using s3(3) by (auto simp: session_envelope_def)
  moreover have "(proxy_loop sx ^^ 3) (s, w) = proxy_turn sx s2 w"
    using w1 w2 assms(2) s1(2) s2(2) by (simp add: numeral_3_eq_3 proxy_loop_def)
  ultimately show ?thesis by (metis prod.collapse)
qed

theorem allow_list_sticks_witness:
  "\<exists>s' w' f. (proxy_loop demo_proxy ^^ 3)
      ((proxy_open demo_proxy (V4 9 9 9 9) 0 (write_cmd (mail_cmd ''e@f'') @ write_cmd (rcpt_cmd ''c@d'') @
          write_cmd data_cmd @ ''hi'' @ CRLF @ ''.'' @ CRLF))\<lparr>px_allowed := True\<rparr>, proxy_world_init quiet_filter) = (s', w') \<and>
     pw_forwarded w' = [f] \<and> ec_mail_from (fw_envelope f) = ''e@f'' \<and> fw_report f = clean_report \<and>
     \<not> mail_allow_list_matches (sx_allow_list demo_proxy) (V4 9 9 9 9) ''e@f''"
proof -
  let ?s = "(proxy_open demo_proxy (V4 9 9 9 9) 0 (write_cmd (mail_cmd ''e@f'') @ write_cmd (rcpt_cmd ''c@d'') @
          write_cmd data_cmd @ ''hi'' @ CRLF @ ''.'' @ CRLF))\<lparr>px_allowed := True\<rparr>"
  have s: "px_allowed ?s" "px_open ?s" "px_peer ?s = V4 9 9 9 9"
    "px_input ?s = write_cmd (mail_cmd ''e@f'') @ write_cmd (rcpt_cmd ''c@d'') @ write_cmd data_cmd @ ''hi'' @ CRLF @ ''.'' @ CRLF"
    by (simp_all add: proxy_open_def)
  have e: "clean ''e@f''" by (rule clean_ascii) (simp add: byte_def LF_def)
  have t: "trim_angles (''<'' @ ''e@f'' @ ''>'') = ''e@f''" by (simp add: trim_angles_def)
  have ip: "ip_to_string (V4 9 9 9 9) = ''9.9.9.9''"
    by (simp add: show_v4_def show_u8_def show_nat.simps digit_char_def char_of_def bit_Suc_0_iff)
  have lists: "\<not> mail_block_list_matches (sx_block_list demo_proxy) (px_peer ?s) ''e@f''"
    "\<not> mail_allow_list_matches (sx_allow_list demo_proxy) (px_peer ?s) ''e@f''"
    unfolding s(3) mail_block_list_matches_def mail_allow_list_matches_def ip
    by (simp_all add: demo_proxy_def mail_block_list_from_config_def mail_allow_list_from_config_def list_contains_domain_def
        to_lower_def lower_char_def split: option.split)
  have pre: "fst (fst (run_pre_data (sx_libs demo_proxy) c env (pw_pipeline (proxy_world_init quiet_filter)))) = PContinue" for c env
    by (simp add: proxy_world_init_def quiet_filter_passes)
  from allow_list_sticks [OF s(1,2,4) e t demo_facts(3,4) lists(1) demo_facts(2) lists(2) demo_body pre]
  show ?thesis using lists(2) s(3) by (auto simp: proxy_world_init_def)
qed

section \<open>The filter switched off\<close>

text \<open>With the spam filter switched off, or without a section for it, the proxy refuses every message of
  a client that is not on the allow list as spam.\<close>

theorem disabled_filter_refuses_mail:
  assumes "\<not> asc_enabled cfg" "pw_pipeline w = build_antispam_pipeline compiles cfg" "\<not> px_allowed s"
  shows "pw_forwarded (snd (proxy_message sx m s w)) = pw_forwarded w \<and>
    px_output (fst (proxy_message sx m s w)) = px_output s @ ''550 5.7.1 Message rejected as spam'' @ CRLF"
proof -
  let ?p = "build_antispam_pipeline compiles cfg"
  let ?env = "session_envelope sx s"
  obtain report where "run_post_data (sx_libs sx) \<lparr>mc_envelope = ?env, mc_raw_message = m\<rparr> 0 []
      authentication_results_default ?p = Inr report" "sr_verdict report = Spam"
    using disabled_filter_is_spam [OF assms(1)] by blast
  moreover have "run_pre_data (sx_libs sx) (sx_clock sx (pw_evaluated w)) ?env ?p = ((PContinue, 0, []), ?p)"
    using disabled_filter_is_spam [OF assms(1)] by blast
  ultimately show ?thesis
    using assms(2,3) by (simp add: proxy_message_def proxy_post_data_def respond_def end_transaction_def)
qed

theorem disabled_filter_refuses_mail_witness:
  "pw_forwarded (snd (proxy_message demo_proxy ''hi'' (proxy_open demo_proxy (V4 9 9 9 9) 0 [])
     (proxy_world_init (build_antispam_pipeline (\<lambda>_. True) antispam_config_default)))) = []"
  using disabled_filter_refuses_mail [of antispam_config_default
      "proxy_world_init (build_antispam_pipeline (\<lambda>_. True) antispam_config_default)" "\<lambda>_. True"
      "proxy_open demo_proxy (V4 9 9 9 9) 0 []" demo_proxy "''hi''"]
  by (simp add: antispam_config_default_def proxy_world_init_def proxy_open_def)

end
