(* ===== verification/Access_Log.thy ===== *)
theory Access_Log
  imports Frontend_Config Utf8
begin

text \<open>
  The log line formatters: \<^verbatim>\<open>serverwall-core/src/logging\<close> (Apache combined, Postfix, protocol)
  and the access-log lines that the HTTP, TCP and Stratum frontends write
  (\<^verbatim>\<open>serverwall-proxy/src/proxy/http_proxy.rs\<close>, \<^verbatim>\<open>server.rs\<close>).  A time stamp is passed in
  the rendering that \<^verbatim>\<open>chrono\<close> gives it; \<^verbatim>\<open>{}\<close> of an \<^verbatim>\<open>f64\<close> is an argument too.
\<close>

definition DQ :: char where "DQ = CHR 0x22"

definition quoted :: "str \<Rightarrow> str" where
  "quoted s = DQ # s @ [DQ]"

definition show_count :: "u64 \<Rightarrow> str" where
  "show_count n = show_nat (unat n)"

section \<open>Apache combined lines\<close>

record apache_log_entry =
  al_client_ip :: ip_addr
  al_ident :: str
  al_user :: str
  al_timestamp :: str
  al_method :: str
  al_path :: str
  al_protocol :: str
  al_status :: u16
  al_bytes :: u64
  al_referer :: "str option"
  al_user_agent :: "str option"

definition or_dash :: "str option \<Rightarrow> str" where
  "or_dash x = (case x of Some s \<Rightarrow> s | None \<Rightarrow> ''-'')"

definition apache_log_entry_format :: "apache_log_entry \<Rightarrow> str" where
  "apache_log_entry_format e =
     ip_to_string (al_client_ip e) @ '' '' @ al_ident e @ '' '' @ al_user e @ '' ['' @ al_timestamp e @ ''] '' @
     quoted (al_method e @ '' '' @ al_path e @ '' '' @ al_protocol e) @ '' '' @
     show_nat (unat (al_status e)) @ '' '' @ show_count (al_bytes e) @ '' '' @
     quoted (or_dash (al_referer e)) @ '' '' @ quoted (or_dash (al_user_agent e))"

definition apache_log_formatter_format ::
  "str \<Rightarrow> ip_addr \<Rightarrow> str \<Rightarrow> str \<Rightarrow> u16 \<Rightarrow> u64 \<Rightarrow> str option \<Rightarrow> str option \<Rightarrow> str" where
  "apache_log_formatter_format now client_ip method path status bytes referer user_agent =
     apache_log_entry_format
       \<lparr>al_client_ip = client_ip, al_ident = ''-'', al_user = ''-'', al_timestamp = now,
        al_method = method, al_path = path, al_protocol = ''HTTP/1.1'', al_status = status,
        al_bytes = bytes, al_referer = referer, al_user_agent = user_agent\<rparr>"

section \<open>Postfix lines\<close>

record postfix_log_entry =
  pl_timestamp :: str
  pl_hostname :: str
  pl_service_name :: str
  pl_pid :: u32
  pl_queue_id :: str
  pl_sender :: str
  pl_recipient :: str
  pl_relay :: str
  pl_spam_score :: real
  pl_status :: str
  pl_detail :: str

definition postfix_log_entry_format :: "(real \<Rightarrow> str) \<Rightarrow> postfix_log_entry \<Rightarrow> str" where
  "postfix_log_entry_format show_f64 e =
     pl_timestamp e @ '' '' @ pl_hostname e @ '' '' @ pl_service_name e @ ''['' @ show_nat (unat (pl_pid e)) @
     '']: '' @ pl_queue_id e @ '': from=<'' @ pl_sender e @ ''>, to=<'' @ pl_recipient e @ ''>, relay='' @
     pl_relay e @ '', spam_score='' @ show_f64 (pl_spam_score e) @ '', status='' @ pl_status e @ '' ('' @
     pl_detail e @ '')''"

definition postfix_log_formatter_format :: "str \<Rightarrow> str \<Rightarrow> str \<Rightarrow> str \<Rightarrow> str" where
  "postfix_log_formatter_format now service_name queue_id message =
     now @ '' '' @ service_name @ '': '' @ queue_id @ '': '' @ message"

section \<open>Protocol lines\<close>

text \<open>\<^verbatim>\<open>{:.3}\<close> of a value that is not negative, rounded to the nearest thousandth.\<close>

definition show_f3 :: "real \<Rightarrow> str" where
  "show_f3 x =
     (let n = nat (round (x * 1000)); f = n mod 1000
      in show_nat (n div 1000) @ ''.'' @
         [digit_char (f div 100), digit_char (f div 10 mod 10), digit_char (f mod 10)])"

record protocol_log_entry =
  ple_timestamp :: str
  ple_client :: socket_addr
  ple_backend :: socket_addr
  ple_bytes_in :: u64
  ple_bytes_out :: u64
  ple_duration_secs :: real

definition protocol_log_entry_format :: "protocol_log_entry \<Rightarrow> str" where
  "protocol_log_entry_format e =
     ple_timestamp e @ '' '' @ socket_addr_to_string (ple_client e) @ '' -> '' @
     socket_addr_to_string (ple_backend e) @ '' bytes_in='' @ show_count (ple_bytes_in e) @ '' bytes_out='' @
     show_count (ple_bytes_out e) @ '' duration='' @ show_f3 (ple_duration_secs e)"

datatype direction = ClientToBackend | BackendToClient

definition protocol_log_formatter_format ::
  "str \<Rightarrow> bool \<Rightarrow> direction \<Rightarrow> socket_addr \<Rightarrow> socket_addr \<Rightarrow> str \<Rightarrow> str \<Rightarrow> str option \<Rightarrow> str" where
  "protocol_log_formatter_format now include_payload dir client backend protocol summary payload =
     (let arrow = (case dir of ClientToBackend \<Rightarrow> ''->'' | BackendToClient \<Rightarrow> ''<-'');
          line = now @ '' ['' @ protocol @ ''] '' @ socket_addr_to_string client @ '' '' @ arrow @ '' '' @
                 socket_addr_to_string backend @ '' '' @ summary
      in if include_payload
         then (case payload of
                 Some payload \<Rightarrow> line @ '' | '' @ from_utf8_lossy (take (min (length payload) 256) payload)
               | None \<Rightarrow> line)
         else line)"

section \<open>The access log of a frontend\<close>

definition json_field :: "str \<Rightarrow> str \<Rightarrow> str" where
  "json_field k v = quoted k @ '':'' @ v"

definition json_object :: "(str \<times> str) list \<Rightarrow> str" where
  "json_object fs = ''{'' @ join '','' (map (\<lambda>(k, v). json_field k v) fs) @ ''}''"

text \<open>The line of a proxied request; \<open>utc\<close> and \<open>now\<close> are the two renderings of the time.\<close>

definition http_access_line ::
  "log_format \<Rightarrow> str \<Rightarrow> str \<Rightarrow> ip_addr \<Rightarrow> str \<Rightarrow> str \<Rightarrow> str \<Rightarrow> u16 \<Rightarrow> u64 \<Rightarrow> str \<Rightarrow> str option \<Rightarrow> str option \<Rightarrow> str" where
  "http_access_line fmt utc now client_ip method uri path_and_query status bytes tag referer user_agent =
     (if fmt = LF_Json
      then json_object
             [(''time'', quoted utc), (''client'', quoted (ip_to_string client_ip)), (''method'', quoted method),
              (''uri'', quoted uri), (''status'', show_nat (unat status)), (''bytes'', show_count bytes),
              (''backend'', quoted tag)] @ [LF]
      else apache_log_formatter_format now client_ip method path_and_query status bytes referer user_agent @ [LF])"

definition tcp_access_line ::
  "log_format \<Rightarrow> str \<Rightarrow> str \<Rightarrow> socket_addr \<Rightarrow> str \<Rightarrow> u64 \<Rightarrow> u64 \<Rightarrow> real \<Rightarrow> str" where
  "tcp_access_line fmt utc now client tag bytes_in bytes_out duration_secs =
     (if fmt = LF_Json
      then json_object
             [(''time'', quoted utc), (''client'', quoted (socket_addr_to_string client)),
              (''backend'', quoted tag), (''bytes_in'', show_count bytes_in), (''bytes_out'', show_count bytes_out),
              (''duration_secs'', show_f3 duration_secs)] @ [LF]
      else ip_to_string (sa_ip client) @ '' - - ['' @ now @ ''] '' @ quoted (''TCP CONNECT '' @ tag) @ '' - '' @
           show_count (bytes_in + bytes_out) @ [LF])"

definition stratum_access_line ::
  "log_format \<Rightarrow> str \<Rightarrow> str \<Rightarrow> socket_addr \<Rightarrow> str \<Rightarrow> str option \<Rightarrow> u64 \<Rightarrow> u64 \<Rightarrow> real \<Rightarrow> str" where
  "stratum_access_line fmt utc now client tag worker bytes_in bytes_out duration_secs =
     (if fmt = LF_Json
      then json_object
             [(''time'', quoted utc), (''client'', quoted (socket_addr_to_string client)),
              (''worker'', quoted (or_dash worker)), (''backend'', quoted tag),
              (''bytes_in'', show_count bytes_in), (''bytes_out'', show_count bytes_out),
              (''duration_secs'', show_f3 duration_secs)] @ [LF]
      else ip_to_string (sa_ip client) @ '' - '' @ or_dash worker @ '' ['' @ now @ ''] '' @
           quoted (''STRATUM '' @ tag) @ '' - '' @ show_count (bytes_in + bytes_out) @ [LF])"

end
