(* ===== verification/Http_Proxy.thy ===== *)
theory Http_Proxy
  imports Request_Pipeline Waf_Engine Waf_Rate_Limit Access_Log
begin

text \<open>
  The HTTP reverse proxy (\<^verbatim>\<open>serverwall-proxy/src/proxy/http_proxy.rs\<close>): screening of a request,
  choice of a backend, the request sent to it and the response sent to the client.  A header map of
  \<^verbatim>\<open>hyper\<close> is the list of its name and value pairs in insertion order; what \<^verbatim>\<open>hyper\<close>,
  \<^verbatim>\<open>http\<close> and \<^verbatim>\<open>flate2\<close> compute is the record \<open>http_lib\<close>.
\<close>

section \<open>Messages and libraries\<close>

record http_uri =
  hu_path :: str
  hu_path_and_query :: "str option"
  hu_text :: str

text \<open>A body that cannot be read is \<open>None\<close>.\<close>

record http_request =
  hq_method :: str
  hq_uri :: http_uri
  hq_headers :: "(str \<times> str) list"
  hq_body :: "str option"

record outbound_request =
  oq_method :: str
  oq_uri :: str
  oq_headers :: "(str \<times> str) list"
  oq_body :: str

record backend_response =
  br_status :: u16
  br_headers :: "(str \<times> str) list"
  br_body :: "str option"

record http_response =
  hr_status :: u16
  hr_headers :: "(str \<times> str) list"
  hr_body :: str

text \<open>\<^verbatim>\<open>HeaderValue::to_str\<close>, the validation of header names (which gives the canonical name) and
  values, of a target, \<^verbatim>\<open>GzEncoder\<close>, and the three steps of an exchange with a backend.\<close>

record ('s, 'c) http_lib =
  header_to_str :: "str \<Rightarrow> str option"
  header_name :: "str \<Rightarrow> str option"
  header_value :: "str \<Rightarrow> str option"
  uri_valid :: "str \<Rightarrow> bool"
  gzip :: "str \<Rightarrow> str option"
  http_connect :: "socket_addr \<Rightarrow> (str, 's) result"
  http_handshake :: "'s \<Rightarrow> (str, 'c) result"
  http_send_request :: "'c \<Rightarrow> outbound_request \<Rightarrow> (str, backend_response) result"

text \<open>Documented facts about header names and values: a name that is lower case and accepted stands for
  itself; text read from a header value can be written to one, unchanged.\<close>

definition http_lib_law :: "('s, 'c) http_lib \<Rightarrow> bool" where
  "http_lib_law lib \<longleftrightarrow>
     (\<forall>n n'. header_name lib n = Some n' \<longrightarrow> n' = to_lower n) \<and>
     (\<forall>v s. header_to_str lib v = Some s \<longrightarrow> s = v \<and> header_value lib v = Some v) \<and>
     (\<forall>v v'. header_value lib v = Some v' \<longrightarrow> v' = v)"

section \<open>The proxy\<close>

record ('re, 'rs) http_proxy =
  hp_waf :: "'rs waf_engine option"
  hp_frontend_config :: frontend_config
  hp_security_headers :: security_headers_config
  hp_path_acl :: "'re path_acl option"
  hp_bot_detection :: bot_detection_config
  hp_hsts_max_age :: "u64 option"
  hp_hsts_include_subdomains :: bool
  hp_cookie_security :: cookie_security_config
  hp_log_writer :: bool
  hp_log_format :: log_format
  hp_acl_bypass_waf :: bool
  hp_domain_allow :: "str list"
  hp_domain_block :: "str list"

text \<open>The state behind the proxy: the pipeline with its pool, the rate limiters, the lines of the
  access log, and every request handed to a connection, with the position of its backend.\<close>

record ('net, 'db) http_state =
  hs_pipeline :: "('net, 'db) request_pipeline"
  hs_rate_limiters :: "(rate_limiter \<times> rate_limit_key) list"
  hs_log :: "str list"
  hs_sent :: "(nat \<times> outbound_request) list"

record ('re, 'rs, 'net, 's, 'c) http_env =
  he_regex :: "('re, 'rs) regex_lib"
  he_cidr :: "'net cidr_lib"
  he_hash :: "ip_addr \<Rightarrow> u64"
  he_http :: "('s, 'c) http_lib"

text \<open>What a call takes from its connection and from the clocks.\<close>

record http_arrival =
  ha_client_ip :: ip_addr
  ha_ja3 :: "str option"
  ha_now :: real
  ha_request_id :: str
  ha_utc :: str
  ha_log_time :: str

definition HOP_BY_HOP_HEADERS :: "str list" where
  "HOP_BY_HOP_HEADERS =
     [''connection'', ''keep-alive'', ''proxy-authenticate'', ''proxy-authorization'', ''proxy-connection'',
      ''te'', ''trailer'', ''transfer-encoding'', ''upgrade'']"

definition FINGERPRINT_HEADERS :: "str list" where
  "FINGERPRINT_HEADERS =
     [''x-aspnet-version'', ''x-aspnetmvc-version'', ''x-generator'', ''x-runtime'', ''x-rack-cache'',
      ''x-pingback'', ''x-powered-cms'', ''x-cf-powered-by'']"

definition error_response :: "u16 \<Rightarrow> str \<Rightarrow> http_response" where
  "error_response status body =
     \<lparr>hr_status = status, hr_headers = [(''content-type'', ''text/plain'')], hr_body = body\<rparr>"

section \<open>Screening\<close>

definition header_map_of :: "('s, 'c) http_lib \<Rightarrow> (str \<times> str) list \<Rightarrow> header_map" where
  "header_map_of lib hs =
     foldl (\<lambda>m (name, value). case header_to_str lib value of
                Some val \<Rightarrow> AList.update (to_lower name) val m
              | None \<Rightarrow> m) [] hs"

definition path_denied :: "('re, 'rs) regex_lib \<Rightarrow> ('re, 'rs) http_proxy \<Rightarrow> http_uri \<Rightarrow> bool" where
  "path_denied rl hp uri =
     (case hp_path_acl hp of
        Some acl \<Rightarrow> path_acl_check rl acl (hu_path uri) = Some Acl_Deny
      | None \<Rightarrow> False)"

definition request_host :: "header_map \<Rightarrow> str" where
  "request_host hm =
     (case map_of hm ''host'' of
        Some h \<Rightarrow> to_lower (hd (split_char (CHR '':'') h))
      | None \<Rightarrow> [])"

definition domain_denied :: "('re, 'rs) http_proxy \<Rightarrow> header_map \<Rightarrow> bool" where
  "domain_denied hp hm =
     (if hp_domain_allow hp \<noteq> [] \<or> hp_domain_block hp \<noteq> []
      then let host = request_host hm in
           if host \<noteq> []
           then list_ex (\<lambda>d. host = to_lower d) (hp_domain_block hp) \<or>
                (hp_domain_allow hp \<noteq> [] \<and> \<not> list_ex (\<lambda>d. host = to_lower d) (hp_domain_allow hp))
           else False
      else False)"

definition KNOWN_BAD_BOT_SIGNATURES :: "str list" where
  "KNOWN_BAD_BOT_SIGNATURES =
     [''masscan'', ''nikto'', ''sqlmap'', ''nmap'', ''zgrab'', ''python-requests'', ''go-http-client'',
      ''curl/'', ''wget/'', ''libwww-perl'', ''scrapy'', ''semrushbot'', ''ahrefsbot'', ''mj12bot'',
      ''dotbot'', ''blexbot'', ''majestic'', ''petalbot'', ''bytespider'', ''claudebot'']"

definition is_blocked_bot :: "str \<Rightarrow> bot_detection_config \<Rightarrow> bool" where
  "is_blocked_bot agent cfg =
     (let ua_lower = to_lower agent in
      if list_ex (\<lambda>good. contains ua_lower (to_lower good)) (bd_known_good_bots cfg) then False
      else list_ex (\<lambda>sig. contains ua_lower sig) KNOWN_BAD_BOT_SIGNATURES)"

definition bot_denied :: "('re, 'rs) http_proxy \<Rightarrow> header_map \<Rightarrow> str option \<Rightarrow> bool" where
  "bot_denied hp hm ja3 =
     (let cfg = hp_bot_detection hp in
      bd_enabled cfg \<and>
      (is_blocked_bot (case map_of hm ''user-agent'' of Some ua \<Rightarrow> ua | None \<Rightarrow> []) cfg \<or>
       (case ja3 of
          Some j \<Rightarrow> list_ex (\<lambda>b. b = j) (bd_ja3_fingerprint_block_list cfg)
        | None \<Rightarrow> False)))"

fun rate_key :: "ip_addr \<Rightarrow> header_map \<Rightarrow> rate_limit_key \<Rightarrow> str" where
  "rate_key ip hm ClientIp = ip_to_string ip"
| "rate_key ip hm (Header h) = (case map_of hm (to_lower h) of Some v \<Rightarrow> v | None \<Rightarrow> [])"

fun check_rate_limiters ::
  "real \<Rightarrow> ip_addr \<Rightarrow> header_map \<Rightarrow> (rate_limiter \<times> rate_limit_key) list \<Rightarrow>
   bool \<times> (rate_limiter \<times> rate_limit_key) list" where
  "check_rate_limiters now ip hm [] = (True, [])"
| "check_rate_limiters now ip hm ((limiter, key) # rls) =
     (let k = rate_key ip hm key in
      if k \<noteq> []
      then (case check_key now k limiter of
              (False, limiter') \<Rightarrow> (False, (limiter', key) # rls)
            | (True, limiter') \<Rightarrow>
                (case check_rate_limiters now ip hm rls of
                   (ok, rls') \<Rightarrow> (ok, (limiter', key) # rls')))
      else (case check_rate_limiters now ip hm rls of
              (ok, rls') \<Rightarrow> (ok, (limiter, key) # rls')))"

definition waf_context :: "http_arrival \<Rightarrow> http_request \<Rightarrow> header_map \<Rightarrow> str \<Rightarrow> http_request_context" where
  "waf_context a rq hm body =
     from_parts (hq_method rq) (hu_text (hq_uri rq)) hm body (ha_client_ip a) (ha_ja3 a)"

definition waf_blocks ::
  "('re, 'rs, 'net, 's, 'c) http_env \<Rightarrow> ('re, 'rs) http_proxy \<Rightarrow> ('net, 'db) request_pipeline \<Rightarrow>
   http_arrival \<Rightarrow> http_request \<Rightarrow> header_map \<Rightarrow> str \<Rightarrow> bool" where
  "waf_blocks env hp p a rq hm body =
     (let waf_bypassed = hp_acl_bypass_waf hp \<and> is_globally_allowed (he_cidr env) p (ha_client_ip a)
      in case hp_waf hp of
           Some waf_engine \<Rightarrow>
             fc_waf_enabled (hp_frontend_config hp) \<and> \<not> waf_bypassed \<and>
             waf_decision_is_blocked (wv_decision (inspect (he_regex env) waf_engine (waf_context a rq hm body)))
         | None \<Rightarrow> False)"

text \<open>The tests before a backend is chosen: the response of the first one that fails, if any, and the
  limiters afterwards.\<close>

definition http_screen ::
  "('re, 'rs, 'net, 's, 'c) http_env \<Rightarrow> ('re, 'rs) http_proxy \<Rightarrow> http_arrival \<Rightarrow> http_request \<Rightarrow>
   header_map \<Rightarrow> str \<Rightarrow> ('net, 'db) http_state \<Rightarrow> http_response option \<times> ('net, 'db) http_state" where
  "http_screen env hp a rq hm body st =
     (if path_denied (he_regex env) hp (hq_uri rq) then (Some (error_response 403 ''Forbidden''), st)
      else if domain_denied hp hm then (Some (error_response 403 ''Forbidden''), st)
      else if bot_denied hp hm (ha_ja3 a) then (Some (error_response 403 ''Forbidden''), st)
      else case check_rate_limiters (ha_now a) (ha_client_ip a) hm (hs_rate_limiters st) of
             (ok, rls) \<Rightarrow>
               let st = st\<lparr>hs_rate_limiters := rls\<rparr> in
               if \<not> ok then (Some (error_response 429 ''Too Many Requests''), st)
               else if waf_blocks env hp (hs_pipeline st) a rq hm body
               then (Some (error_response 403 ''Forbidden''), st)
               else (None, st))"

section \<open>Choice of a backend\<close>

fun find_cookie :: "str \<Rightarrow> str list \<Rightarrow> str option" where
  "find_cookie name [] = None"
| "find_cookie name (pair # pairs) =
     (case split_once (CHR ''='') (trim pair) of
        Some (k, v) \<Rightarrow> if trim k = name then Some (trim v) else find_cookie name pairs
      | None \<Rightarrow> find_cookie name pairs)"

definition parse_cookie :: "header_map \<Rightarrow> str \<Rightarrow> str option" where
  "parse_cookie hm name =
     (case map_of hm ''cookie'' of
        Some cookie_header \<Rightarrow> find_cookie name (split_char (CHR '';'') cookie_header)
      | None \<Rightarrow> None)"

definition is_sticky :: "('re, 'rs) http_proxy \<Rightarrow> bool" where
  "is_sticky hp = (fc_balancer (hp_frontend_config hp) = BM_StickySession)"

definition sticky_tag :: "('re, 'rs) http_proxy \<Rightarrow> header_map \<Rightarrow> str option" where
  "sticky_tag hp hm =
     (if is_sticky hp then parse_cookie hm (fc_session_cookie (hp_frontend_config hp)) else None)"

definition http_route ::
  "('re, 'rs, 'net, 's, 'c) http_env \<Rightarrow> ('re, 'rs) http_proxy \<Rightarrow> ip_addr \<Rightarrow> header_map \<Rightarrow>
   ('net, 'db) request_pipeline \<Rightarrow> (server_wall_error, nat) result \<times> ('net, 'db) request_pipeline" where
  "http_route env hp ip hm p =
     (case sticky_tag hp hm of
        Some tag \<Rightarrow>
          (case find_backend_by_tag p tag of
             Some b \<Rightarrow> (Inr b, p\<lparr>rp_backends := connection_guard_new (rp_backends p) b\<rparr>)
           | None \<Rightarrow> select_backend (he_hash env) p ip)
      | None \<Rightarrow> select_backend (he_hash env) p ip)"

section \<open>The request to the backend\<close>

text \<open>A builder that was given an invalid name or value is \<open>None\<close> from then on; its
  \<^verbatim>\<open>body()\<close> fails.\<close>

type_synonym header_builder = "(str \<times> str) list option"

definition hb_append :: "str \<Rightarrow> str \<Rightarrow> header_builder \<Rightarrow> header_builder" where
  "hb_append n v b = map_option (\<lambda>hs. hs @ [(n, v)]) b"

definition hb_header :: "('s, 'c) http_lib \<Rightarrow> str \<Rightarrow> str \<Rightarrow> header_builder \<Rightarrow> header_builder" where
  "hb_header lib n v b =
     (case b of
        None \<Rightarrow> None
      | Some hs \<Rightarrow>
          (case header_name lib n of
             None \<Rightarrow> None
           | Some n' \<Rightarrow> (case header_value lib v of None \<Rightarrow> None | Some v' \<Rightarrow> Some (hs @ [(n', v')]))))"

definition try_append :: "('s, 'c) http_lib \<Rightarrow> str \<Rightarrow> str \<Rightarrow> header_builder \<Rightarrow> header_builder" where
  "try_append lib n v b =
     (case header_name lib n of
        Some n' \<Rightarrow> (case header_value lib v of Some v' \<Rightarrow> hb_append n' v' b | None \<Rightarrow> b)
      | None \<Rightarrow> b)"

definition copy_request_headers :: "('s, 'c) http_lib \<Rightarrow> header_map \<Rightarrow> header_builder \<Rightarrow> header_builder" where
  "copy_request_headers lib hm b =
     foldl (\<lambda>b (name, value).
              if to_lower name \<in> set HOP_BY_HOP_HEADERS then b else try_append lib name value b) b hm"

definition forwarded_for :: "ip_addr \<Rightarrow> header_map \<Rightarrow> str" where
  "forwarded_for ip hm =
     (case map_of hm ''x-forwarded-for'' of
        Some existing \<Rightarrow> existing @ '', '' @ ip_to_string ip
      | None \<Rightarrow> ip_to_string ip)"

definition inject_headers ::
  "('s, 'c) http_lib \<Rightarrow> frontend_config \<Rightarrow> ip_addr \<Rightarrow> str \<Rightarrow> header_map \<Rightarrow> header_builder \<Rightarrow> header_builder" where
  "inject_headers lib fc ip request_id hm b =
     (let cfg = fc_headers fc;
          b = (if fhc_x_forwarded_for cfg then hb_header lib ''X-Forwarded-For'' (forwarded_for ip hm) b else b);
          b = (if fhc_x_real_ip cfg then hb_header lib ''X-Real-IP'' (ip_to_string ip) b else b);
          b = (if fhc_x_forwarded_proto cfg
               then hb_header lib ''X-Forwarded-Proto''
                      (if fc_protocol fc = PT_Https then ''https'' else ''http'') b
               else b);
          b = (if fhc_x_forwarded_host cfg
               then (case map_of hm ''host'' of Some host \<Rightarrow> hb_header lib ''X-Forwarded-Host'' host b | None \<Rightarrow> b)
               else b);
          b = (if fhc_x_forwarded_port cfg
               then (case map_of hm ''host'' of
                       Some host \<Rightarrow> hb_header lib ''X-Forwarded-Port'' (rsplit_first (CHR '':'') host) b
                     | None \<Rightarrow> b)
               else b);
          b = (if fhc_x_request_id cfg then hb_header lib ''X-Request-ID'' request_id b else b)
      in foldl (\<lambda>b c. try_append lib (ch_name c) (ch_value c) b) b (fhc_custom cfg))"

definition build_outbound ::
  "('s, 'c) http_lib \<Rightarrow> ('re, 'rs) http_proxy \<Rightarrow> http_arrival \<Rightarrow> http_request \<Rightarrow> header_map \<Rightarrow> str \<Rightarrow>
   backend \<Rightarrow> outbound_request option" where
  "build_outbound lib hp a rq hm body b =
     (let backend_uri = ''http://'' @ socket_addr_to_string (be_address b) @
            (case hu_path_and_query (hq_uri rq) of Some pq \<Rightarrow> pq | None \<Rightarrow> ''/'');
          builder = (if uri_valid lib backend_uri then Some [] else None)
      in case inject_headers lib (hp_frontend_config hp) (ha_client_ip a) (ha_request_id a) hm
                (copy_request_headers lib hm builder) of
           Some hs \<Rightarrow>
             Some \<lparr>oq_method = hq_method rq, oq_uri = backend_uri, oq_headers = hs, oq_body = body\<rparr>
         | None \<Rightarrow> None)"

definition http_forward_to_backend ::
  "('s, 'c) http_lib \<Rightarrow> outbound_request \<Rightarrow> backend \<Rightarrow> (str, backend_response) result" where
  "http_forward_to_backend lib rq b =
     bind_result (http_connect lib (be_address b)) (\<lambda>stream.
     bind_result (http_handshake lib stream) (\<lambda>sender. http_send_request lib sender rq))"

section \<open>The response to the client\<close>

text \<open>\<^verbatim>\<open>HeaderMap::get\<close> reads the first value of a name.\<close>

definition should_compress :: "('s, 'c) http_lib \<Rightarrow> ('re, 'rs) http_proxy \<Rightarrow> header_map \<Rightarrow> backend_response \<Rightarrow> str \<Rightarrow> bool" where
  "should_compress lib hp hm resp body =
     (let sh = hp_security_headers hp;
          wants_gzip = (case map_of hm ''accept-encoding'' of Some v \<Rightarrow> contains v ''gzip'' | None \<Rightarrow> False);
          backend_has_encoding = (map_of (br_headers resp) ''content-encoding'' \<noteq> None);
          content_type = (case Option.bind (map_of (br_headers resp) ''content-type'') (header_to_str lib) of
                            Some t \<Rightarrow> t | None \<Rightarrow> []);
          compressible_type = list_ex (\<lambda>t. starts_with content_type t) (shd_compress_types sh)
      in shd_compress_responses sh \<and> wants_gzip \<and> \<not> backend_has_encoding \<and> compressible_type \<and>
         shd_compress_min_size sh \<le> length body)"

definition compress_body ::
  "('s, 'c) http_lib \<Rightarrow> ('re, 'rs) http_proxy \<Rightarrow> header_map \<Rightarrow> backend_response \<Rightarrow> str \<Rightarrow> str \<times> bool" where
  "compress_body lib hp hm resp body =
     (if should_compress lib hp hm resp body
      then (case gzip lib body of Some compressed \<Rightarrow> (compressed, True) | None \<Rightarrow> (body, False))
      else (body, False))"

definition enforce_set_cookie :: "str \<Rightarrow> cookie_security_config \<Rightarrow> bool \<Rightarrow> str option" where
  "enforce_set_cookie value cfg is_tls =
     (let parts = split_char (CHR '';'') value;
          name_value = trim (hd parts)
      in if 0 < csc_max_cookie_size cfg \<and> csc_max_cookie_size cfg < length name_value then None
         else
           let attrs = map trim (tl parts);
               lower = map to_lower attrs;
               attrs = (if csc_enforce_secure_flag cfg \<and> is_tls \<and> \<not> list_ex (\<lambda>a. a = ''secure'') lower
                        then attrs @ [''Secure''] else attrs);
               attrs = (if csc_enforce_httponly_flag cfg \<and> \<not> list_ex (\<lambda>a. a = ''httponly'') lower
                        then attrs @ [''HttpOnly''] else attrs);
               attrs = (case csc_enforce_samesite cfg of
                          Some samesite \<Rightarrow>
                            filter (\<lambda>a. \<not> starts_with (to_lower a) ''samesite'') attrs @ [''SameSite='' @ samesite]
                        | None \<Rightarrow> attrs)
           in Some (foldl (\<lambda>result attr. result @ ''; '' @ attr) name_value attrs))"

definition is_tls :: "('re, 'rs) http_proxy \<Rightarrow> bool" where
  "is_tls hp = (fc_protocol (hp_frontend_config hp) = PT_Https)"

definition copy_response_header ::
  "('s, 'c) http_lib \<Rightarrow> ('re, 'rs) http_proxy \<Rightarrow> bool \<Rightarrow> header_builder \<Rightarrow> str \<times> str \<Rightarrow> header_builder" where
  "copy_response_header lib hp did_compress b h =
     (case h of (name, value) \<Rightarrow>
        let lower = to_lower name in
        if lower \<in> set HOP_BY_HOP_HEADERS then b
        else if lower = ''server'' then b
        else if lower = ''content-length'' \<and> did_compress then b
        else if lower = ''x-powered-by'' \<and> shd_remove_x_powered_by (hp_security_headers hp) then b
        else if lower \<in> set FINGERPRINT_HEADERS then b
        else if lower = ''set-cookie''
        then (case header_to_str lib value of
                Some v \<Rightarrow>
                  (case enforce_set_cookie v (hp_cookie_security hp) (is_tls hp) of
                     Some rewritten \<Rightarrow> hb_header lib ''Set-Cookie'' rewritten b
                   | None \<Rightarrow> b)
              | None \<Rightarrow> b)
        else hb_append name value b)"

definition session_cookie :: "('re, 'rs) http_proxy \<Rightarrow> backend \<Rightarrow> str" where
  "session_cookie hp b =
     fc_session_cookie (hp_frontend_config hp) @ ''='' @ be_tag b @ ''; Path=/; HttpOnly; SameSite=Lax'' @
     (if is_tls hp then ''; Secure'' else [])"

definition optional_header ::
  "('s, 'c) http_lib \<Rightarrow> str \<Rightarrow> str option \<Rightarrow> header_builder \<Rightarrow> header_builder" where
  "optional_header lib name v b = (case v of Some v \<Rightarrow> hb_header lib name v b | None \<Rightarrow> b)"

definition security_response_headers ::
  "('s, 'c) http_lib \<Rightarrow> ('re, 'rs) http_proxy \<Rightarrow> backend \<Rightarrow> header_builder \<Rightarrow> header_builder" where
  "security_response_headers lib hp be b =
     (let sh = hp_security_headers hp;
          b = (if shd_add_x_content_type_options sh then hb_header lib ''X-Content-Type-Options'' ''nosniff'' b else b);
          b = optional_header lib ''X-Frame-Options'' (shd_add_x_frame_options sh) b;
          b = optional_header lib ''Referrer-Policy'' (shd_add_referrer_policy sh) b;
          b = optional_header lib ''Content-Security-Policy'' (shd_add_content_security_policy sh) b;
          b = (if is_sticky hp then hb_header lib ''Set-Cookie'' (session_cookie hp be) b else b)
      in case hp_hsts_max_age hp of
           Some max_age \<Rightarrow>
             hb_header lib ''Strict-Transport-Security''
               (''max-age='' @ show_count max_age @
                (if hp_hsts_include_subdomains hp then ''; includeSubDomains'' else [])) b
         | None \<Rightarrow> b)"

definition compression_headers :: "('s, 'c) http_lib \<Rightarrow> str \<Rightarrow> bool \<Rightarrow> header_builder \<Rightarrow> header_builder" where
  "compression_headers lib body did_compress b =
     (if did_compress
      then hb_header lib ''Content-Length'' (show_nat (length body))
             (hb_header lib ''Vary'' ''Accept-Encoding'' (hb_header lib ''Content-Encoding'' ''gzip'' b))
      else b)"

definition client_response ::
  "('s, 'c) http_lib \<Rightarrow> ('re, 'rs) http_proxy \<Rightarrow> header_map \<Rightarrow> backend \<Rightarrow> backend_response \<Rightarrow> str \<Rightarrow>
   http_response option" where
  "client_response lib hp hm be resp body =
     (case compress_body lib hp hm resp body of (body, did_compress) \<Rightarrow>
        case compression_headers lib body did_compress
               (security_response_headers lib hp be
                  (foldl (copy_response_header lib hp did_compress) (Some []) (br_headers resp))) of
          Some hs \<Rightarrow> Some \<lparr>hr_status = br_status resp, hr_headers = hs, hr_body = body\<rparr>
        | None \<Rightarrow> None)"

definition access_line ::
  "('s, 'c) http_lib \<Rightarrow> ('re, 'rs) http_proxy \<Rightarrow> http_arrival \<Rightarrow> http_request \<Rightarrow> header_map \<Rightarrow> backend \<Rightarrow>
   backend_response \<Rightarrow> http_response \<Rightarrow> str" where
  "access_line lib hp a rq hm be resp final_response =
     http_access_line (hp_log_format hp) (ha_utc a) (ha_log_time a) (ha_client_ip a) (hq_method rq)
       (hu_text (hq_uri rq)) (case hu_path_and_query (hq_uri rq) of Some pq \<Rightarrow> pq | None \<Rightarrow> ''/'')
       (hr_status final_response) (of_nat (length (hr_body final_response))) (be_tag be)
       (Option.bind (map_of (br_headers resp) ''referer'') (header_to_str lib)) (map_of hm ''user-agent'')"

text \<open>The exchange with the chosen backend, while the connection guard is held.\<close>

definition http_exchange ::
  "('s, 'c) http_lib \<Rightarrow> ('re, 'rs) http_proxy \<Rightarrow> http_arrival \<Rightarrow> http_request \<Rightarrow> header_map \<Rightarrow> str \<Rightarrow>
   nat \<Rightarrow> ('net, 'db) http_state \<Rightarrow> http_response \<times> ('net, 'db) http_state" where
  "http_exchange lib hp a rq hm body i st =
     (let be = rp_backends (hs_pipeline st) ! i in
      case build_outbound lib hp a rq hm body be of
        None \<Rightarrow> (error_response 500 ''Internal Server Error'', st)
      | Some outbound_req \<Rightarrow>
          let st = st\<lparr>hs_sent := hs_sent st @ [(i, outbound_req)]\<rparr> in
          case http_forward_to_backend lib outbound_req be of
            Inl e \<Rightarrow> (error_response 502 ''Bad Gateway'', st)
          | Inr resp \<Rightarrow>
              (case br_body resp of
                 None \<Rightarrow> (error_response 502 ''Bad Gateway'', st)
               | Some resp_body \<Rightarrow>
                   (case client_response lib hp hm be resp resp_body of
                      None \<Rightarrow> (error_response 500 ''Internal Server Error'', st)
                    | Some final_response \<Rightarrow>
                        (final_response,
                         if hp_log_writer hp
                         then st\<lparr>hs_log := hs_log st @ [access_line lib hp a rq hm be resp final_response]\<rparr>
                         else st))))"

section \<open>A request\<close>

definition set_backends :: "backend list \<Rightarrow> ('net, 'db) http_state \<Rightarrow> ('net, 'db) http_state" where
  "set_backends bs st = st\<lparr>hs_pipeline := (hs_pipeline st)\<lparr>rp_backends := bs\<rparr>\<rparr>"

definition handle_request ::
  "('re, 'rs, 'net, 's, 'c) http_env \<Rightarrow> ('re, 'rs) http_proxy \<Rightarrow> http_arrival \<Rightarrow> http_request \<Rightarrow>
   ('net, 'db) http_state \<Rightarrow> http_response \<times> ('net, 'db) http_state" where
  "handle_request env hp a rq st =
     (let hm = header_map_of (he_http env) (hq_headers rq) in
      case hq_body rq of
        None \<Rightarrow> (error_response 400 ''Bad Request'', st)
      | Some body \<Rightarrow>
          (case http_screen env hp a rq hm body st of
             (Some rejection, st) \<Rightarrow> (rejection, st)
           | (None, st) \<Rightarrow>
               (case http_route env hp (ha_client_ip a) hm (hs_pipeline st) of
                  (Inl e, p) \<Rightarrow> (error_response 502 ''Bad Gateway'', st\<lparr>hs_pipeline := p\<rparr>)
                | (Inr i, p) \<Rightarrow>
                    (case http_exchange (he_http env) hp a rq hm body i (st\<lparr>hs_pipeline := p\<rparr>) of
                       (r, st) \<Rightarrow>
                         (r, set_backends (connection_guard_drop (rp_backends (hs_pipeline st)) i) st)))))"

text \<open>A connection: the access check of the listener, then the requests of the connection in turn.\<close>

fun serve_requests ::
  "('re, 'rs, 'net, 's, 'c) http_env \<Rightarrow> ('re, 'rs) http_proxy \<Rightarrow> (http_arrival \<times> http_request) list \<Rightarrow>
   ('net, 'db) http_state \<Rightarrow> http_response list \<times> ('net, 'db) http_state" where
  "serve_requests env hp [] st = ([], st)"
| "serve_requests env hp ((a, rq) # rqs) st =
     (case handle_request env hp a rq st of
        (r, st) \<Rightarrow> (case serve_requests env hp rqs st of (rs, st) \<Rightarrow> (r # rs, st)))"

definition https_connection ::
  "'db geo_lib \<Rightarrow> ('re, 'rs, 'net, 's, 'c) http_env \<Rightarrow> ('re, 'rs) http_proxy \<Rightarrow> ip_addr \<Rightarrow>
   (http_arrival \<times> http_request) list \<Rightarrow> ('net, 'db) http_state \<Rightarrow> http_response list \<times> ('net, 'db) http_state" where
  "https_connection gl env hp ip rqs st =
     (case check_acl (he_cidr env) gl (hs_pipeline st) ip of
        Inl e \<Rightarrow> ([], st)
      | Inr _ \<Rightarrow>
          serve_requests env hp (map (\<lambda>(a, rq). (a\<lparr>ha_client_ip := ip\<rparr>, rq)) rqs) st)"

end
