(* ===== verification/Simulation.thy ===== *)
theory Simulation
  imports Main
begin

text \<open>
  Forward simulation between two step relations.  A concrete system whose steps the abstract one can
  match, by steps or by staying put, reaches only states related to reachable abstract ones; so
  abstract invariants hold of it.
\<close>

locale simulation =
  fixes step :: "'s \<Rightarrow> 's \<Rightarrow> bool"
    and abstract_step :: "'t \<Rightarrow> 't \<Rightarrow> bool"
    and related :: "'s \<Rightarrow> 't \<Rightarrow> bool"
  assumes simulates: "related s t \<Longrightarrow> step s s' \<Longrightarrow> \<exists>t'. abstract_step\<^sup>*\<^sup>* t t' \<and> related s' t'"
begin

lemma reaches:
  assumes "step\<^sup>*\<^sup>* s s'" "related s t"
  shows "\<exists>t'. abstract_step\<^sup>*\<^sup>* t t' \<and> related s' t'"
  using assms
proof (induction rule: rtranclp_induct)
  case base
  then show ?case by blast
next
  case (step u v)
  then obtain t' where "abstract_step\<^sup>*\<^sup>* t t'" "related u t'" by blast
  with simulates [OF this(2) step.hyps(2)] show ?case
    by (meson rtranclp_trans)
qed

lemma transfers:
  assumes "step\<^sup>*\<^sup>* s s'" "related s t" "I t"
    and inv: "\<And>t t'. abstract_step t t' \<Longrightarrow> I t \<Longrightarrow> I t'"
  obtains t' where "abstract_step\<^sup>*\<^sup>* t t'" "related s' t'" "I t'"
proof -
  obtain t' where t': "abstract_step\<^sup>*\<^sup>* t t'" "related s' t'"
    using reaches [OF assms(1,2)] by blast
  from t'(1) assms(3) have "I t'" by induction (auto intro: inv)
  with t' show thesis by (rule that)
qed

end

end
