(* ===== verification/Http_Requests.thy ===== *)
theory Http_Requests
  imports Http_Proxy Simulation "HOL-Library.Multiset"
begin

text \<open>
  What the HTTP proxy does with its requests: a request reaches a backend only when every test lets it
  pass, under every interleaving of the connections, and the connection counts of the pool follow the
  requests in flight.
\<close>

section \<open>Screening\<close>

text \<open>The tests, stated on the configuration.\<close>

definition host_permitted :: "('re, 'rs) http_proxy \<Rightarrow> header_map \<Rightarrow> bool" where
  "host_permitted hp hm \<longleftrightarrow>
     request_host hm = [] \<or>
     (request_host hm \<notin> to_lower ` set (hp_domain_block hp) \<and>
      (hp_domain_allow hp = [] \<or> request_host hm \<in> to_lower ` set (hp_domain_allow hp)))"

definition client_permitted :: "('re, 'rs) http_proxy \<Rightarrow> header_map \<Rightarrow> str option \<Rightarrow> bool" where
  "client_permitted hp hm ja3 \<longleftrightarrow>
     (bd_enabled (hp_bot_detection hp) \<longrightarrow>
        \<not> is_blocked_bot (case map_of hm ''user-agent'' of Some ua \<Rightarrow> ua | None \<Rightarrow> []) (hp_bot_detection hp) \<and>
        ja3 \<notin> Some ` set (bd_ja3_fingerprint_block_list (hp_bot_detection hp)))"

definition within_limits :: "real \<Rightarrow> ip_addr \<Rightarrow> header_map \<Rightarrow> (rate_limiter \<times> rate_limit_key) list \<Rightarrow> bool" where
  "within_limits now ip hm rls \<longleftrightarrow>
     (\<forall>(l, k) \<in> set rls. rate_key ip hm k = [] \<or> fst (check_key now (rate_key ip hm k) l))"

definition firewall_permits ::
  "('re, 'rs, 'net, 's, 'c) http_env \<Rightarrow> ('re, 'rs) http_proxy \<Rightarrow> ('net, 'db) request_pipeline \<Rightarrow>
   http_arrival \<Rightarrow> http_request \<Rightarrow> header_map \<Rightarrow> str \<Rightarrow> bool" where
  "firewall_permits env hp p a rq hm body \<longleftrightarrow>
     (\<forall>e. hp_waf hp = Some e \<and> fc_waf_enabled (hp_frontend_config hp) \<and>
          \<not> (hp_acl_bypass_waf hp \<and> is_globally_allowed (he_cidr env) p (ha_client_ip a)) \<longrightarrow>
          wv_decision (inspect (he_regex env) e (waf_context a rq hm body)) \<noteq> Waf_Block)"

definition request_permitted ::
  "('re, 'rs, 'net, 's, 'c) http_env \<Rightarrow> ('re, 'rs) http_proxy \<Rightarrow> http_arrival \<Rightarrow> http_request \<Rightarrow>
   header_map \<Rightarrow> str \<Rightarrow> ('net, 'db) http_state \<Rightarrow> bool" where
  "request_permitted env hp a rq hm body st \<longleftrightarrow>
     (\<forall>acl. hp_path_acl hp = Some acl \<longrightarrow>
        path_acl_check (he_regex env) acl (hu_path (hq_uri rq)) \<noteq> Some Acl_Deny) \<and>
     host_permitted hp hm \<and> client_permitted hp hm (ha_ja3 a) \<and>
     within_limits (ha_now a) (ha_client_ip a) hm (hs_rate_limiters st) \<and>
     firewall_permits env hp (hs_pipeline st) a rq hm body"

lemma domain_denied_iff: "domain_denied hp hm \<longleftrightarrow> \<not> host_permitted hp hm"
  by (auto simp: domain_denied_def host_permitted_def Let_def list_ex_iff)

lemma bot_denied_iff: "bot_denied hp hm ja3 \<longleftrightarrow> \<not> client_permitted hp hm ja3"
  by (auto simp: bot_denied_def client_permitted_def Let_def list_ex_iff split: option.splits)

lemma waf_blocks_iff: "waf_blocks env hp p a rq hm body \<longleftrightarrow> \<not> firewall_permits env hp p a rq hm body"
  by (auto simp: waf_blocks_def firewall_permits_def waf_decision_is_blocked_def Let_def split: option.splits)

lemma path_denied_iff:
  "path_denied rl hp uri \<longleftrightarrow>
     \<not> (\<forall>acl. hp_path_acl hp = Some acl \<longrightarrow> path_acl_check rl acl (hu_path uri) \<noteq> Some Acl_Deny)"
  by (auto simp: path_denied_def split: option.splits)

lemma check_rate_limiters_iff: "fst (check_rate_limiters now ip hm rls) \<longleftrightarrow> within_limits now ip hm rls"
proof (induction rls)
  case Nil
  then show ?case by (simp add: within_limits_def)
next
  case (Cons lk rls)
  then show ?case
    by (cases lk) (auto simp: within_limits_def Let_def split: prod.splits bool.splits)
qed

lemma check_rate_limiters_keys: "map snd (snd (check_rate_limiters now ip hm rls)) = map snd rls"
proof (induction rls)
  case (Cons lk rls)
  then show ?case by (cases lk) (auto simp: Let_def split: prod.splits bool.splits)
qed simp

lemma check_rate_limiters_inv [inv_intros]:
  "list_all (limiter_inv \<circ> fst) rls \<Longrightarrow>
   list_all (limiter_inv \<circ> fst) (snd (check_rate_limiters now ip hm rls))"
proof (induction rls)
  case (Cons lk rls)
  then show ?case
    using check_key_inv [of "fst lk" now "rate_key ip hm (snd lk)"]
    by (cases lk) (auto simp: Let_def split: prod.splits bool.splits)
qed simp

lemmas screen_simps = domain_denied_iff bot_denied_iff waf_blocks_iff path_denied_iff

text \<open>The outcome of the screening, and what it leaves alone.\<close>

lemma http_screen_passes_iff:
  "fst (http_screen env hp a rq hm body st) = None \<longleftrightarrow> request_permitted env hp a rq hm body st"
  using check_rate_limiters_iff [of "ha_now a" "ha_client_ip a" hm "hs_rate_limiters st"]
  by (auto simp: http_screen_def request_permitted_def screen_simps Let_def split: prod.splits)

lemma http_screen_frame:
  assumes "http_screen env hp a rq hm body st = (r, st')"
  shows "hs_pipeline st' = hs_pipeline st" "hs_log st' = hs_log st" "hs_sent st' = hs_sent st"
  using assms by (auto simp: http_screen_def Let_def split: if_splits prod.splits)

lemma http_screen_status:
  assumes "http_screen env hp a rq hm body st = (Some r, st')"
  shows "hr_status r \<in> {403, 429}"
  using assms by (auto simp: http_screen_def error_response_def Let_def split: if_splits prod.splits)

section \<open>Routing\<close>

lemma select_backend_cases:
  assumes "select_backend hash p ip = (r, p')"
  shows "(\<exists>e. r = Inl e \<and> rp_backends p' = rp_backends p) \<or>
    (\<exists>i. r = Inr i \<and> i < length (rp_backends p) \<and> be_enabled (rp_backends p ! i) \<and>
         be_healthy (rp_backends p ! i) \<and> rp_backends p' = connection_guard_new (rp_backends p) i)"
proof (cases "balancer_select hash (rp_balancer p) (rp_backends p) (Some ip)")
  case (Pair s bal)
  show ?thesis
  proof (cases s)
    case None
    with Pair assms show ?thesis by (auto simp: select_backend_def)
  next
    case (Some i)
    then have "i < length (rp_backends p) \<and> backend_is_available (rp_backends p ! i)"
      using lb.select_available [of hash "rp_balancer p" "rp_backends p" "Some ip" i] Pair by simp
    with Pair Some assms show ?thesis
      by (auto simp: select_backend_def backend_is_available_def)
  qed
qed

lemma http_route_cases:
  assumes "http_route env hp ip hm p = (r, p')"
  shows "(\<exists>e. r = Inl e \<and> rp_backends p' = rp_backends p) \<or>
    (\<exists>i. r = Inr i \<and> i < length (rp_backends p) \<and> be_enabled (rp_backends p ! i) \<and>
         be_healthy (rp_backends p ! i) \<and> rp_backends p' = connection_guard_new (rp_backends p) i)"
  using assms select_backend_cases [of "he_hash env" p ip r p']
  by (auto simp: http_route_def dest: find_backend_by_tag_Some split: option.splits)

section \<open>The exchange\<close>

lemma build_outbound_Some:
  assumes "build_outbound lib hp a rq hm body b = Some out"
  shows "oq_method out = hq_method rq" "oq_body out = body"
    "oq_uri out = ''http://'' @ socket_addr_to_string (be_address b) @
       (case hu_path_and_query (hq_uri rq) of Some pq \<Rightarrow> pq | None \<Rightarrow> ''/'')"
  using assms by (auto simp: build_outbound_def Let_def split: option.splits)

lemma http_exchange_frame:
  assumes "http_exchange lib hp a rq hm body i st = (r, st')"
  shows "hs_pipeline st' = hs_pipeline st" "hs_rate_limiters st' = hs_rate_limiters st"
  using assms by (auto simp: http_exchange_def Let_def split: option.splits sum.splits if_splits)

lemma http_exchange_sent:
  assumes "http_exchange lib hp a rq hm body i st = (r, st')"
  shows "hs_sent st' = hs_sent st \<or>
    (\<exists>out. build_outbound lib hp a rq hm body (rp_backends (hs_pipeline st) ! i) = Some out \<and>
           hs_sent st' = hs_sent st @ [(i, out)])"
  using assms by (auto simp: http_exchange_def Let_def split: option.splits sum.splits if_splits)

lemma connection_guard_new_fixed:
  "j < length bs \<Longrightarrow>
   be_address (connection_guard_new bs i ! j) = be_address (bs ! j) \<and>
   be_tag (connection_guard_new bs i ! j) = be_tag (bs ! j)"
  by (simp add: connection_guard_new_def nth_list_update)

text \<open>C4. A request is handed to a backend only when the path rules, the domain lists, the bot rules, every
  rate limiter and the firewall, each as configured, let it pass; the backend is enabled and healthy,
  and it gets the method and the body that the firewall has seen.  Nothing is ever sent twice.\<close>

theorem http_forwards_only:
  "case handle_request env hp a rq st of (r, st') \<Rightarrow>
     hs_sent st' = hs_sent st \<or>
     (\<exists>i out body. hs_sent st' = hs_sent st @ [(i, out)] \<and> hq_body rq = Some body \<and>
        request_permitted env hp a rq (header_map_of (he_http env) (hq_headers rq)) body st \<and>
        i < length (rp_backends (hs_pipeline st)) \<and>
        be_enabled (rp_backends (hs_pipeline st) ! i) \<and> be_healthy (rp_backends (hs_pipeline st) ! i) \<and>
        oq_method out = hq_method rq \<and> oq_body out = body)"
proof (cases "hq_body rq")
  case None
  then show ?thesis by (simp add: handle_request_def)
next
  case (Some body)
  let ?hm = "header_map_of (he_http env) (hq_headers rq)"
  obtain rej st1 where scr: "http_screen env hp a rq ?hm body st = (rej, st1)" by fastforce
  note frame = http_screen_frame [OF scr]
  show ?thesis
  proof (cases rej)
    case (Some rejection)
    with scr frame \<open>hq_body rq = Some body\<close> show ?thesis by (simp add: handle_request_def)
  next
    case None
    with scr have perm: "request_permitted env hp a rq ?hm body st"
      using http_screen_passes_iff [of env hp a rq ?hm body st] by simp
    obtain r p where route: "http_route env hp (ha_client_ip a) ?hm (hs_pipeline st1) = (r, p)" by fastforce
    show ?thesis
    proof (cases r)
      case (Inl e)
      with scr None route frame Some show ?thesis by (simp add: handle_request_def)
    next
      case (Inr i)
      with http_route_cases [OF route] have i: "i < length (rp_backends (hs_pipeline st))"
          "be_enabled (rp_backends (hs_pipeline st) ! i)" "be_healthy (rp_backends (hs_pipeline st) ! i)"
        by (auto simp: frame)
      obtain resp st2 where ex: "http_exchange (he_http env) hp a rq ?hm body i (st1\<lparr>hs_pipeline := p\<rparr>) = (resp, st2)"
        by fastforce
      have "snd (handle_request env hp a rq st) =
          set_backends (connection_guard_drop (rp_backends (hs_pipeline st2)) i) st2"
        using Some scr None route Inr ex by (simp add: handle_request_def)
      with http_exchange_sent [OF ex] perm i Some frame(3) show ?thesis
        by (auto simp: set_backends_def split: prod.splits dest: build_outbound_Some)
    qed
  qed
qed

section \<open>Limits on what a client gets through\<close>

lemma check_rate_limiters_nth:
  assumes "check_rate_limiters now ip hm rls = (ok, rls')" "n < length rls" "rls ! n = (l, k)"
  shows "(rls' ! n = (l, k) \<and> (ok \<longrightarrow> rate_key ip hm k = [])) \<or>
    (rls' ! n = (snd (check_key now (rate_key ip hm k) l), k) \<and>
     (ok \<longrightarrow> fst (check_key now (rate_key ip hm k) l)))"
  using assms
proof (induction rls arbitrary: n ok rls')
  case (Cons lk rls)
  obtain ok1 rls1 where r: "check_rate_limiters now ip hm rls = (ok1, rls1)" by fastforce
  show ?case
  proof (cases n)
    case 0
    with Cons.prems r show ?thesis
      by (cases lk) (auto simp: Let_def split: if_splits prod.splits bool.splits)
  next
    case (Suc m)
    with Cons.prems Cons.IH [OF r, of m] r show ?thesis
      by (cases lk) (auto simp: Let_def split: if_splits prod.splits bool.splits)
  qed
qed simp

lemma handle_request_limiters:
  "hs_rate_limiters (snd (handle_request env hp a rq st)) = hs_rate_limiters st \<or>
   hs_rate_limiters (snd (handle_request env hp a rq st)) =
     snd (check_rate_limiters (ha_now a) (ha_client_ip a)
            (header_map_of (he_http env) (hq_headers rq)) (hs_rate_limiters st))"
  by (auto simp: handle_request_def http_screen_def set_backends_def Let_def
      split: option.splits prod.splits sum.splits if_splits dest!: http_exchange_frame(2))

lemma handle_request_sent:
  assumes "hs_sent (snd (handle_request env hp a rq st)) \<noteq> hs_sent st"
  shows "hs_rate_limiters (snd (handle_request env hp a rq st)) =
     snd (check_rate_limiters (ha_now a) (ha_client_ip a)
            (header_map_of (he_http env) (hq_headers rq)) (hs_rate_limiters st))"
    "fst (check_rate_limiters (ha_now a) (ha_client_ip a)
            (header_map_of (he_http env) (hq_headers rq)) (hs_rate_limiters st))"
  using assms
  by (auto simp: handle_request_def http_screen_def set_backends_def Let_def
      split: option.splits prod.splits sum.splits if_splits dest!: http_exchange_frame(2))

text \<open>How many requests of a client a run hands to a backend.\<close>

fun sent_for_client ::
  "('re, 'rs, 'net, 's, 'c) http_env \<Rightarrow> ('re, 'rs) http_proxy \<Rightarrow> ip_addr \<Rightarrow>
   (http_arrival \<times> http_request) list \<Rightarrow> ('net, 'db) http_state \<Rightarrow> nat" where
  "sent_for_client env hp ip [] st = 0"
| "sent_for_client env hp ip ((a, rq) # rqs) st =
     (let st' = snd (handle_request env hp a rq st) in
      (if ha_client_ip a = ip \<and> hs_sent st' \<noteq> hs_sent st then 1 else 0) + sent_for_client env hp ip rqs st')"

lemma show_v6_not_Nil: "show_v6 (x # y # xs) \<noteq> []"
  by (simp add: show_v6_def show_segments_def split: prod.split del: zero_span.simps)

lemma ip_to_string_not_Nil [simp]: "ip_to_string ip \<noteq> []"
  by (cases ip) (simp_all add: show_v4_def show_v6_not_Nil)

text \<open>The requests a limiter sees are a subsequence of the requests of the run, and it has admitted each
  one of its key that was sent.\<close>

lemma sent_le_admitted:
  assumes "n < length (hs_rate_limiters st)" "hs_rate_limiters st ! n = (l, ClientIp)"
  shows "\<exists>reqs. subseq reqs (map (\<lambda>(a, _). (ha_now a, ip_to_string (ha_client_ip a))) rqs) \<and>
    sent_for_client env hp ip rqs st \<le> admitted (ip_to_string ip) l reqs"
  using assms
proof (induction rqs arbitrary: st l)
  case Nil
  then show ?case by (auto intro: exI [of _ "[]"])
next
  case (Cons arq rqs)
  obtain a rq where arq: "arq = (a, rq)" by fastforce
  let ?st = "snd (handle_request env hp a rq st)"
  let ?hm = "header_map_of (he_http env) (hq_headers rq)"
  let ?k = "ip_to_string (ha_client_ip a)"
  let ?e = "\<lambda>(a, _). (ha_now a, ip_to_string (ha_client_ip a))"
  obtain ok rls where ck: "check_rate_limiters (ha_now a) (ha_client_ip a) ?hm (hs_rate_limiters st) = (ok, rls)"
    by fastforce
  note nth = check_rate_limiters_nth [OF ck Cons.prems]
  have len: "n < length rls"
    using check_rate_limiters_keys [of "ha_now a" "ha_client_ip a" ?hm "hs_rate_limiters st"] ck Cons.prems(1)
    by (metis length_map snd_conv)
  show ?case
  proof (cases "hs_rate_limiters ?st ! n = (snd (check_key (ha_now a) ?k l), ClientIp) \<and>
      (hs_sent ?st \<noteq> hs_sent st \<longrightarrow> fst (check_key (ha_now a) ?k l)) \<and> hs_rate_limiters ?st = rls")
    case True
    then obtain reqs where reqs: "subseq reqs (map ?e rqs)"
        "sent_for_client env hp ip rqs ?st \<le> admitted (ip_to_string ip) (snd (check_key (ha_now a) ?k l)) reqs"
      using Cons.IH [of ?st "snd (check_key (ha_now a) ?k l)"] len by auto
    have "sent_for_client env hp ip (arq # rqs) st \<le> admitted (ip_to_string ip) l ((ha_now a, ?k) # reqs)"
      using reqs(2) True by (auto simp: arq Let_def)
    moreover have "subseq ((ha_now a, ?k) # reqs) (map ?e (arq # rqs))"
      using reqs(1) by (simp add: arq)
    ultimately show ?thesis by blast
  next
    case False
    have same: "hs_rate_limiters ?st ! n = (l, ClientIp)" "length (hs_rate_limiters ?st) > n"
        "hs_sent ?st = hs_sent st"
      using handle_request_limiters [of env hp a rq st] handle_request_sent [of env hp a rq st]
        nth ck len False Cons.prems
      by auto
    from Cons.IH [OF same(2,1)] obtain reqs where reqs: "subseq reqs (map ?e rqs)"
        "sent_for_client env hp ip rqs ?st \<le> admitted (ip_to_string ip) l reqs" by blast
    then show ?thesis
      using same(3) by (intro exI [of _ reqs]) (auto simp: arq Let_def)
  qed
qed

lemma subseq_sorted_map: "subseq xs ys \<Longrightarrow> sorted (map f ys) \<Longrightarrow> sorted (map f xs)"
proof (induction rule: list_emb.induct)
  case (list_emb_Cons2 x y xs ys)
  then show ?case
    by (auto dest: list_emb_set)
qed auto


section \<open>Requests in flight\<close>

text \<open>Connections are concurrent tasks.  Between the tests and the response a request goes through these
  stages; between two of them any other request may act, and a health check may swap a flag.\<close>

datatype http_stage = Screened | Chosen nat | Guarded nat | Answered nat

record http_flight =
  hf_arrival :: http_arrival
  hf_request :: http_request
  hf_headers :: header_map
  hf_body :: str
  hf_stage :: http_stage

text \<open>The choice without the guard: what routing reads before it counts the connection.\<close>

definition http_choose ::
  "('re, 'rs, 'net, 's, 'c) http_env \<Rightarrow> ('re, 'rs) http_proxy \<Rightarrow> ip_addr \<Rightarrow> header_map \<Rightarrow>
   ('net, 'db) request_pipeline \<Rightarrow> nat option \<times> ('net, 'db) request_pipeline" where
  "http_choose env hp ip hm p =
     (case Option.bind (sticky_tag hp hm) (find_backend_by_tag p) of
        Some i \<Rightarrow> (Some i, p)
      | None \<Rightarrow>
          (case balancer_select (he_hash env) (rp_balancer p) (rp_backends p) (Some ip) of
             (r, bal) \<Rightarrow> (r, p\<lparr>rp_balancer := bal\<rparr>)))"

lemma http_route_choose:
  "http_route env hp ip hm p =
     (case http_choose env hp ip hm p of
        (Some i, p') \<Rightarrow> (Inr i, p'\<lparr>rp_backends := connection_guard_new (rp_backends p') i\<rparr>)
      | (None, p') \<Rightarrow> (Inl (E_NoHealthyBackends ''unknown''), p'))"
  by (auto simp: http_route_def http_choose_def select_backend_def split: option.splits prod.splits)

inductive http_step ::
  "('re, 'rs, 'net, 's, 'c) http_env \<Rightarrow> ('re, 'rs) http_proxy \<Rightarrow>
   http_flight list \<times> ('net, 'db) http_state \<Rightarrow> http_flight list \<times> ('net, 'db) http_state \<Rightarrow> bool"
  for env hp where
  Arrive: "hq_body rq = Some body \<Longrightarrow>
     http_screen env hp a rq (header_map_of (he_http env) (hq_headers rq)) body st = (None, st') \<Longrightarrow>
     http_step env hp (fs, st)
       (\<lparr>hf_arrival = a, hf_request = rq, hf_headers = header_map_of (he_http env) (hq_headers rq),
         hf_body = body, hf_stage = Screened\<rparr> # fs, st')"
| Refuse: "hq_body rq = Some body \<Longrightarrow>
     http_screen env hp a rq (header_map_of (he_http env) (hq_headers rq)) body st = (Some r, st') \<Longrightarrow>
     http_step env hp (fs, st) (fs, st')"
| Choose: "hf_stage f = Screened \<Longrightarrow>
     http_choose env hp (ha_client_ip (hf_arrival f)) (hf_headers f) (hs_pipeline st) = (Some i, p) \<Longrightarrow>
     http_step env hp (fs @ f # gs, st) (fs @ f\<lparr>hf_stage := Chosen i\<rparr> # gs, st\<lparr>hs_pipeline := p\<rparr>)"
| NoBackend: "hf_stage f = Screened \<Longrightarrow>
     http_choose env hp (ha_client_ip (hf_arrival f)) (hf_headers f) (hs_pipeline st) = (None, p) \<Longrightarrow>
     http_step env hp (fs @ f # gs, st) (fs @ gs, st\<lparr>hs_pipeline := p\<rparr>)"
| Guard: "hf_stage f = Chosen i \<Longrightarrow>
     http_step env hp (fs @ f # gs, st)
       (fs @ f\<lparr>hf_stage := Guarded i\<rparr> # gs,
        set_backends (connection_guard_new (rp_backends (hs_pipeline st)) i) st)"
| Exchange: "hf_stage f = Guarded i \<Longrightarrow>
     http_exchange (he_http env) hp (hf_arrival f) (hf_request f) (hf_headers f) (hf_body f) i st = (r, st') \<Longrightarrow>
     http_step env hp (fs @ f # gs, st) (fs @ f\<lparr>hf_stage := Answered i\<rparr> # gs, st')"
| Finish: "hf_stage f = Answered i \<Longrightarrow>
     http_step env hp (fs @ f # gs, st)
       (fs @ gs, set_backends (connection_guard_drop (rp_backends (hs_pipeline st)) i) st)"
| Health: "http_step env hp (fs, st)
     (fs, set_backends (set_healthy (rp_backends (hs_pipeline st)) i h) st)"

inductive_cases http_stepE: "http_step env hp s s'"

fun stage_pending :: "http_stage \<Rightarrow> nat list" where
  "stage_pending (Chosen i) = [i]"
| "stage_pending _ = []"

fun stage_held :: "http_stage \<Rightarrow> nat list" where
  "stage_held (Guarded i) = [i]"
| "stage_held (Answered i) = [i]"
| "stage_held _ = []"

definition pending :: "http_flight list \<Rightarrow> nat list" where
  "pending fs = concat (map (stage_pending \<circ> hf_stage) fs)"

definition held :: "http_flight list \<Rightarrow> nat list" where
  "held fs = concat (map (stage_held \<circ> hf_stage) fs)"

lemma pending_held_simps [simp]:
  "pending [] = []" "pending (f # fs) = stage_pending (hf_stage f) @ pending fs"
  "pending (fs @ gs) = pending fs @ pending gs"
  "held [] = []" "held (f # fs) = stage_held (hf_stage f) @ held fs"
  "held (fs @ gs) = held fs @ held gs"
  by (simp_all add: pending_def held_def)

text \<open>A system of requests in flight is, for the pool, its chosen and its held positions.\<close>

definition http_pool ::
  "http_flight list \<times> ('net, 'db) http_state \<Rightarrow> ('net, 'db) pool_state \<Rightarrow> bool" where
  "http_pool s t \<longleftrightarrow>
     ps_pipeline t = hs_pipeline (snd s) \<and> mset (ps_pending t) = mset (pending (fst s)) \<and>
     mset (ps_guards t) = mset (held (fst s))"

lemma http_choose_pool:
  assumes "http_choose env hp ip hm (ps_pipeline t) = (r, p)"
  shows "case r of
      Some i \<Rightarrow> pool_step (he_hash env) t (t\<lparr>ps_pipeline := p, ps_pending := i # ps_pending t\<rparr>)
    | None \<Rightarrow> p = ps_pipeline t"
proof (cases "Option.bind (sticky_tag hp hm) (find_backend_by_tag (ps_pipeline t))")
  case (Some i)
  then obtain tag where "find_backend_by_tag (ps_pipeline t) tag = Some i"
    by (cases "sticky_tag hp hm") auto
  then have "pool_step (he_hash env) t (t\<lparr>ps_pipeline := ps_pipeline t, ps_pending := i # ps_pending t\<rparr>)"
    using pool_step.Sticky [of t tag i "he_hash env"] by simp
  moreover have "r = Some i" "p = ps_pipeline t" using Some assms by (simp_all add: http_choose_def)
  ultimately show ?thesis by (simp only: option.case)
next
  case None
  obtain r' bal where sel: "balancer_select (he_hash env) (rp_balancer (ps_pipeline t))
      (rp_backends (ps_pipeline t)) (Some ip) = (r', bal)" by fastforce
  have "r' = None \<Longrightarrow> bal = rp_balancer (ps_pipeline t)"
    using sel
    by (cases "rp_balancer (ps_pipeline t)") (auto simp: round_robin_select_def Let_def split: if_splits)
  with None sel assms show ?thesis
    using pool_step.Choose [of "he_hash env" t ip _ bal]
    by (auto simp: http_choose_def split: option.split)
qed

lemma mset_guarded:
  assumes "mset xs = add_mset i M"
  shows "i \<in> set xs" "mset (remove1 i xs) = M"
proof -
  have "i \<in># mset xs" using assms by simp
  then show "i \<in> set xs" by (simp only: set_mset_mset)
  show "mset (remove1 i xs) = M" using assms by simp
qed

lemma one_pool_step:
  "pool_step hash t t' \<Longrightarrow> http_pool s' t' \<Longrightarrow> \<exists>t'. (pool_step hash)\<^sup>*\<^sup>* t t' \<and> http_pool s' t'"
  by blast

lemma http_step_pool:
  assumes "http_pool s t" "http_step env hp s s'"
  shows "\<exists>t'. (pool_step (he_hash env))\<^sup>*\<^sup>* t t' \<and> http_pool s' t'"
  using assms(2)
proof cases
  case (Arrive rq body a st st' fs)
  with assms(1) http_screen_frame(1) [OF Arrive(4)] show ?thesis
    by (intro exI [of _ t]) (simp add: http_pool_def)
next
  case (Refuse rq body a st r st' fs)
  with assms(1) http_screen_frame(1) [OF Refuse(4)] show ?thesis
    by (intro exI [of _ t]) (simp add: http_pool_def)
next
  case (Choose f st i p fs gs)
  with assms(1) http_choose_pool [of env hp _ _ t "Some i" p] show ?thesis
    by (intro exI [of _ "t\<lparr>ps_pipeline := p, ps_pending := i # ps_pending t\<rparr>"])
       (auto simp: http_pool_def)
next
  case (NoBackend f st p fs gs)
  with assms(1) http_choose_pool [of env hp _ _ t None p] show ?thesis
    by (intro exI [of _ t]) (auto simp: http_pool_def)
next
  case (Guard f i fs gs st)
  with assms(1) have "mset (ps_pending t) = add_mset i (mset (pending (fs @ gs)))"
    by (simp add: http_pool_def)
  note m = mset_guarded [OF this]
  from Guard assms(1) m(2) show ?thesis
    by (intro one_pool_step [OF pool_step.Guard [OF m(1)]]) (simp add: http_pool_def set_backends_def)
next
  case (Exchange f i r st st' fs gs)
  with assms(1) http_exchange_frame(1) [OF Exchange(4)] show ?thesis
    by (intro exI [of _ t]) (simp add: http_pool_def)
next
  case (Finish f i fs gs st)
  with assms(1) have "mset (ps_guards t) = add_mset i (mset (held (fs @ gs)))"
    by (simp add: http_pool_def)
  note m = mset_guarded [OF this]
  from Finish assms(1) m(2) show ?thesis
    by (intro one_pool_step [OF pool_step.Drop [OF m(1)]]) (simp add: http_pool_def set_backends_def)
next
  case (Health fs st i h)
  with assms(1) show ?thesis
    by (intro one_pool_step [OF pool_step.Health [of _ t i h]]) (simp add: http_pool_def set_backends_def)
qed

interpretation http_on_pool: simulation "http_step env hp" "pool_step (he_hash env)" http_pool
  for env :: "('re, 'rs, 'net, 's, 'c) http_env" and hp
  by unfold_locales (rule http_step_pool)

text \<open>C11. The HTTP proxy uses the pool by the rules of the pool: under every interleaving of requests and
  health changes from an idle start, the active count of a backend is the number of requests in
  flight that hold it, modulo the width of the counter.\<close>

theorem http_counts_requests:
  assumes "list_all (\<lambda>b. be_active_connections b = 0) (rp_backends (hs_pipeline st))"
    and "(http_step env hp)\<^sup>*\<^sup>* ([], st) (fs, st')"
    and "i < length (rp_backends (hs_pipeline st'))"
  shows "be_active_connections (rp_backends (hs_pipeline st') ! i) = of_nat (count_list (held fs) i)"
proof -
  have "http_pool ([], st) (pool_init (hs_pipeline st))"
    by (simp add: http_pool_def pool_init_def)
  then obtain t where t: "http_pool (fs, st') t" "pool_inv t"
    by (rule http_on_pool.transfers [where I = pool_inv, OF assms(2) _ pool_init_inv [OF assms(1)]])
       (auto intro: pool_step_inv)
  have "count_list (ps_guards t) i = count_list (held fs) i"
    using t(1) by (intro mset_eq_length_filter) (simp add: http_pool_def)
  with t assms(3) show ?thesis
    by (simp add: http_pool_def pool_inv_def Let_def list_all_iff)
qed

end
