(* ===== verification/Http_Responses.thy ===== *)
theory Http_Responses
  imports Http_Requests
begin

text \<open>
  What the HTTP proxy sends: the cookies and headers of a response, the cookie that brings a client back
  to its backend, and the forwarding headers of a request.
\<close>

section \<open>Cookies\<close>

definition cookie_pair_text :: "str \<Rightarrow> str" where
  "cookie_pair_text v = trim (hd (split_char (CHR '';'') v))"

definition cookie_attributes :: "str \<Rightarrow> str list" where
  "cookie_attributes v = map trim (tl (split_char (CHR '';'') v))"

definition is_samesite :: "str \<Rightarrow> bool" where
  "is_samesite a = starts_with (to_lower a) ''samesite''"

text \<open>The policy as a condition on a cookie.\<close>

definition cookie_conforms :: "cookie_security_config \<Rightarrow> bool \<Rightarrow> str \<Rightarrow> bool" where
  "cookie_conforms cfg tls v \<longleftrightarrow>
     (csc_max_cookie_size cfg = 0 \<or> length (cookie_pair_text v) \<le> csc_max_cookie_size cfg) \<and>
     (csc_enforce_secure_flag cfg \<and> tls \<longrightarrow> ''secure'' \<in> to_lower ` set (cookie_attributes v)) \<and>
     (csc_enforce_httponly_flag cfg \<longrightarrow> ''httponly'' \<in> to_lower ` set (cookie_attributes v)) \<and>
     (\<forall>ss. csc_enforce_samesite cfg = Some ss \<longrightarrow>
        filter is_samesite (cookie_attributes v) = [''SameSite='' @ ss])"

text \<open>The attribute list after the policy, and the text of a cookie.\<close>

definition policy_attributes :: "cookie_security_config \<Rightarrow> bool \<Rightarrow> str list \<Rightarrow> str list" where
  "policy_attributes cfg tls attrs =
     (let flags = attrs @
            (if csc_enforce_secure_flag cfg \<and> tls \<and> ''secure'' \<notin> to_lower ` set attrs then [''Secure''] else []) @
            (if csc_enforce_httponly_flag cfg \<and> ''httponly'' \<notin> to_lower ` set attrs then [''HttpOnly''] else [])
      in case csc_enforce_samesite cfg of
           Some ss \<Rightarrow> filter (\<lambda>a. \<not> is_samesite a) flags @ [''SameSite='' @ ss]
         | None \<Rightarrow> flags)"

definition cookie_text :: "str \<Rightarrow> str list \<Rightarrow> str" where
  "cookie_text pair attrs = pair @ concat (map (\<lambda>a. ''; '' @ a) attrs)"

lemma foldl_cookie_text: "foldl (\<lambda>result attr. result @ ''; '' @ attr) pair attrs = cookie_text pair attrs"
proof -
  have "foldl (\<lambda>result attr. result @ ''; '' @ attr) (x @ y) attrs = x @ cookie_text y attrs" for x y
    by (induction attrs arbitrary: y) (simp_all add: cookie_text_def)
  from this [of "[]" pair] show ?thesis by simp
qed

lemma enforce_set_cookie_eq:
  "enforce_set_cookie v cfg tls =
     (if csc_max_cookie_size cfg = 0 \<or> length (cookie_pair_text v) \<le> csc_max_cookie_size cfg
      then Some (cookie_text (cookie_pair_text v) (policy_attributes cfg tls (cookie_attributes v)))
      else None)"
proof -
  let ?small = "csc_max_cookie_size cfg = 0 \<or> length (cookie_pair_text v) \<le> csc_max_cookie_size cfg"
  have ex: "list_ex (\<lambda>a. a = c) (map to_lower xs) \<longleftrightarrow> c \<in> to_lower ` set xs" for c xs
    by (auto simp: list_ex_iff)
  have "?small \<longleftrightarrow> \<not> (0 < csc_max_cookie_size cfg \<and>
      csc_max_cookie_size cfg < length (cookie_pair_text v))" by auto
  moreover have "enforce_set_cookie v cfg tls =
      (if 0 < csc_max_cookie_size cfg \<and> csc_max_cookie_size cfg < length (cookie_pair_text v) then None
       else Some (cookie_text (cookie_pair_text v) (policy_attributes cfg tls (cookie_attributes v))))"
    unfolding enforce_set_cookie_def Let_def ex foldl_cookie_text policy_attributes_def is_samesite_def
      cookie_pair_text_def [symmetric] cookie_attributes_def [symmetric]
    by (rule if_cong [OF refl refl]) (cases "csc_enforce_samesite cfg"; simp)
  ultimately show ?thesis by simp
qed

text \<open>An attribute that stays itself when a cookie is written and read again.\<close>

definition plain_attribute :: "str \<Rightarrow> bool" where
  "plain_attribute a \<longleftrightarrow> CHR '';'' \<notin> set a \<and> trim a = a"

lemma cookie_text_read:
  assumes "plain_attribute pair" "list_all plain_attribute attrs"
  shows "cookie_pair_text (cookie_text pair attrs) = pair" "cookie_attributes (cookie_text pair attrs) = attrs"
proof -
  have sp: "split_char (CHR '';'') (cookie_text p as) = p # map (\<lambda>a. CHR '' '' # a) as"
    if "CHR '';'' \<notin> set p" "list_all plain_attribute as" for p as
    using that
  proof (induction as arbitrary: p)
    case Nil
    then show ?case by (simp add: cookie_text_def split_char_none)
  next
    case (Cons a as)
    have "cookie_text p (a # as) = p @ CHR '';'' # cookie_text (CHR '' '' # a) as"
      by (simp add: cookie_text_def)
    with Cons show ?case by (simp add: split_char_append plain_attribute_def)
  qed
  have ws: "is_ws (CHR '' '')" by (simp add: is_ws_def)
  show "cookie_pair_text (cookie_text pair attrs) = pair"
    using assms sp by (simp add: cookie_pair_text_def plain_attribute_def)
  show "cookie_attributes (cookie_text pair attrs) = attrs"
    using assms sp trim_space [OF ws]
    by (simp add: cookie_attributes_def plain_attribute_def list_all_iff map_idI)
qed

lemma read_plain:
  "plain_attribute (cookie_pair_text v)" "list_all plain_attribute (cookie_attributes v)"
proof -
  have seg: "plain_attribute (trim x)" if "x \<in> set (split_char (CHR '';'') v)" for x
    using that set_trim [of x] split_char_no_sep [of "CHR '';''" v]
    by (auto simp: plain_attribute_def list_all_iff)
  then show "plain_attribute (cookie_pair_text v)"
    by (simp add: cookie_pair_text_def)
  show "list_all plain_attribute (cookie_attributes v)"
    using seg by (auto simp: cookie_attributes_def list_all_iff dest: list.set_sel(2) [rotated])
qed

lemma plain_flags: "plain_attribute ''Secure''" "plain_attribute ''HttpOnly''"
  by (simp_all add: plain_attribute_def) (code_simp+)

lemma flag_lower:
  "to_lower ''Secure'' = ''secure''" "to_lower ''HttpOnly'' = ''httponly''"
  "\<not> is_samesite ''Secure''" "\<not> is_samesite ''HttpOnly''" "is_samesite (''SameSite='' @ ss)"
proof -
  show "to_lower ''Secure'' = ''secure''" "to_lower ''HttpOnly'' = ''httponly''"
    "\<not> is_samesite ''Secure''" "\<not> is_samesite ''HttpOnly''" by code_simp+
  have "to_lower ''SameSite='' = ''samesite=''" by code_simp
  then show "is_samesite (''SameSite='' @ ss)"
    by (simp only: is_samesite_def starts_with_def to_lower_simps(3)) simp
qed

lemma plain_samesite:
  assumes "plain_attribute ss"
  shows "plain_attribute (''SameSite='' @ ss)"
proof -
  have "dropWhile is_ws (rev ss @ rev ''SameSite='') = rev ss @ rev ''SameSite=''"
  proof (cases ss rule: rev_cases)
    case Nil
    then show ?thesis by (simp add: is_ws_def)
  next
    case (snoc t z)
    have "\<not> is_ws z"
    proof
      assume "is_ws z"
      then have "length (trim ss) < length ss"
        using length_dropWhile_le [of is_ws "rev (trim_start ss)"] length_dropWhile_le [of is_ws ss]
        by (cases "trim_start ss" rule: rev_cases)
           (auto simp: snoc trim_def trim_end_def trim_start_def less_Suc_eq_le dropWhile_append
             intro: le_trans [OF length_dropWhile_le] split: if_splits)
      with assms show False by (simp add: plain_attribute_def)
    qed
    then show ?thesis by (simp add: snoc)
  qed
  then have "trim (''SameSite='' @ ss) = ''SameSite='' @ ss"
    by (simp add: trim_def trim_start_def trim_end_def is_ws_def)
  with assms show ?thesis by (simp add: plain_attribute_def)
qed

definition samesite_plain :: "cookie_security_config \<Rightarrow> bool" where
  "samesite_plain cfg = (case csc_enforce_samesite cfg of None \<Rightarrow> True | Some ss \<Rightarrow> plain_attribute ss)"

lemma policy_attributes_plain:
  "samesite_plain cfg \<Longrightarrow> list_all plain_attribute attrs \<Longrightarrow>
   list_all plain_attribute (policy_attributes cfg tls attrs)"
  using plain_flags plain_samesite
  by (auto simp: policy_attributes_def samesite_plain_def list_all_iff Let_def split: option.splits if_splits)

lemma policy_attributes_set:
  "set (policy_attributes cfg tls attrs) \<supseteq> {a \<in> set attrs. \<not> is_samesite a}"
  "csc_enforce_secure_flag cfg \<Longrightarrow> tls \<Longrightarrow> ''secure'' \<in> to_lower ` set (policy_attributes cfg tls attrs)"
  "csc_enforce_httponly_flag cfg \<Longrightarrow> ''httponly'' \<in> to_lower ` set (policy_attributes cfg tls attrs)"
  "csc_enforce_samesite cfg = Some ss \<Longrightarrow>
     filter is_samesite (policy_attributes cfg tls attrs) = [''SameSite='' @ ss]"
proof -
  have keep: "a \<in> set (policy_attributes cfg tls attrs)" if "a \<in> set attrs" "\<not> is_samesite a" for a
    using that by (simp add: policy_attributes_def Let_def split: option.split)
  then show "set (policy_attributes cfg tls attrs) \<supseteq> {a \<in> set attrs. \<not> is_samesite a}" by blast
  have flag: "f \<in> to_lower ` set (policy_attributes cfg tls attrs)"
    if "f \<in> to_lower ` set attrs" "\<not> starts_with f ''samesite''" for f
  proof -
    from that(1) obtain a where a: "f = to_lower a" "a \<in> set attrs" by blast
    with that(2) have "\<not> is_samesite a" by (simp only: is_samesite_def not_False_eq_True)
    with a(2) have "a \<in> set (policy_attributes cfg tls attrs)" by (rule keep)
    then show ?thesis unfolding a(1) by (rule imageI)
  qed
  have no: "\<not> starts_with ''secure'' ''samesite''" "\<not> starts_with ''httponly'' ''samesite''"
    by (simp_all add: starts_with_def)
  have add: "F \<in> set (policy_attributes cfg tls attrs) \<Longrightarrow> to_lower F = f \<Longrightarrow>
      f \<in> to_lower ` set (policy_attributes cfg tls attrs)" for f F by blast
  show "''secure'' \<in> to_lower ` set (policy_attributes cfg tls attrs)"
    if "csc_enforce_secure_flag cfg" tls
  proof (cases "''secure'' \<in> to_lower ` set attrs")
    case True
    from flag [OF this no(1)] show ?thesis .
  next
    case False
    with that have "''Secure'' \<in> set (policy_attributes cfg tls attrs)"
      using flag_lower(3)
      by (cases "csc_enforce_samesite cfg") (simp_all only: policy_attributes_def Let_def option.case
        simp_thms if_True set_append set_filter list.set Un_iff mem_Collect_eq insert_iff)
    from add [OF this flag_lower(1)] show ?thesis .
  qed
  show "''httponly'' \<in> to_lower ` set (policy_attributes cfg tls attrs)"
    if "csc_enforce_httponly_flag cfg"
  proof (cases "''httponly'' \<in> to_lower ` set attrs")
    case True
    from flag [OF this no(2)] show ?thesis .
  next
    case False
    with that have "''HttpOnly'' \<in> set (policy_attributes cfg tls attrs)"
      using flag_lower(4)
      by (cases "csc_enforce_samesite cfg") (simp_all only: policy_attributes_def Let_def option.case
        simp_thms if_True set_append set_filter list.set Un_iff mem_Collect_eq insert_iff)
    from add [OF this flag_lower(2)] show ?thesis .
  qed
  show "filter is_samesite (policy_attributes cfg tls attrs) = [''SameSite='' @ ss]"
    if "csc_enforce_samesite cfg = Some ss"
    using that flag_lower(5) [of ss] by (simp add: policy_attributes_def Let_def filter_empty_conv)
qed

lemma policy_attributes_idem:
  "policy_attributes cfg tls (policy_attributes cfg tls attrs) = policy_attributes cfg tls attrs"
proof -
  let ?p = "policy_attributes cfg tls attrs"
  have "policy_attributes cfg tls ?p =
      (case csc_enforce_samesite cfg of
         Some ss \<Rightarrow> filter (\<lambda>a. \<not> is_samesite a) ?p @ [''SameSite='' @ ss] | None \<Rightarrow> ?p)"
    using policy_attributes_set(2,3) [of cfg tls attrs]
    by (cases "csc_enforce_samesite cfg") (simp_all add: policy_attributes_def [of cfg tls ?p] Let_def)
  moreover have "filter (\<lambda>a. \<not> is_samesite a) ?p @ [''SameSite='' @ ss] = ?p"
    if "csc_enforce_samesite cfg = Some ss" for ss
    using that flag_lower(5) [of ss] by (simp add: policy_attributes_def Let_def)
  ultimately show ?thesis by (simp split: option.split)
qed

lemma cookie_policy_conforms:
  assumes "samesite_plain cfg" "enforce_set_cookie v cfg tls = Some w"
  shows "cookie_conforms cfg tls w" "cookie_pair_text w = cookie_pair_text v"
    "cookie_attributes w = policy_attributes cfg tls (cookie_attributes v)"
proof -
  have small: "csc_max_cookie_size cfg = 0 \<or> length (cookie_pair_text v) \<le> csc_max_cookie_size cfg"
    and w: "w = cookie_text (cookie_pair_text v) (policy_attributes cfg tls (cookie_attributes v))"
    using assms(2) by (auto simp: enforce_set_cookie_eq split: if_splits)
  note r = cookie_text_read [OF read_plain(1) policy_attributes_plain [OF assms(1) read_plain(2)], of v tls v,
      folded w]
  show "cookie_pair_text w = cookie_pair_text v"
    "cookie_attributes w = policy_attributes cfg tls (cookie_attributes v)" by (fact r)+
  show "cookie_conforms cfg tls w"
    unfolding cookie_conforms_def r
    by (intro conjI impI allI small policy_attributes_set(2-4)) simp_all
qed



section \<open>The headers of a response\<close>

definition header_clean :: "('re, 'rs) http_proxy \<Rightarrow> backend \<Rightarrow> str \<times> str \<Rightarrow> bool" where
  "header_clean hp be h \<longleftrightarrow>
     to_lower (fst h) \<notin> set (''server'' # HOP_BY_HOP_HEADERS @ FINGERPRINT_HEADERS) \<and>
     (shd_remove_x_powered_by (hp_security_headers hp) \<longrightarrow> to_lower (fst h) \<noteq> ''x-powered-by'') \<and>
     (to_lower (fst h) = ''set-cookie'' \<longrightarrow>
        cookie_conforms (hp_cookie_security hp) (is_tls hp) (snd h) \<or>
        is_sticky hp \<and> snd h = session_cookie hp be)"

text \<open>All headers that a builder holds satisfy a condition.\<close>

definition builder_all :: "(str \<times> str \<Rightarrow> bool) \<Rightarrow> header_builder \<Rightarrow> bool" where
  "builder_all P b = (case b of None \<Rightarrow> True | Some hs \<Rightarrow> list_all P hs)"

lemma builder_all_simps [simp]:
  "builder_all P None" "builder_all P (Some hs) \<longleftrightarrow> list_all P hs"
  by (simp_all add: builder_all_def)

lemma builder_all_append: "builder_all P b \<Longrightarrow> P (n, v) \<Longrightarrow> builder_all P (hb_append n v b)"
  by (cases b) (simp_all add: hb_append_def)

lemma builder_all_header:
  assumes "http_lib_law lib" "builder_all P b" "P (to_lower n, v)"
  shows "builder_all P (hb_header lib n v b)"
  using assms
  by (cases b; cases "header_name lib n"; cases "header_value lib v")
     (auto simp: hb_header_def http_lib_law_def)

lemma builder_all_optional:
  assumes "http_lib_law lib" "builder_all P b" "\<And>v. P (to_lower n, v)"
  shows "builder_all P (optional_header lib n v b)"
  using assms by (auto simp: optional_header_def intro: builder_all_header split: option.split)

definition injected_names :: "str list" where
  "injected_names =
     [''X-Content-Type-Options'', ''X-Frame-Options'', ''Referrer-Policy'', ''Content-Security-Policy'',
      ''Strict-Transport-Security'', ''Content-Encoding'', ''Vary'', ''Content-Length'']"

lemma injected_names_clean:
  "list_all (\<lambda>n. to_lower (to_lower n) \<notin>
     set (''x-powered-by'' # ''set-cookie'' # ''server'' # HOP_BY_HOP_HEADERS @ FINGERPRINT_HEADERS)) injected_names"
  by code_simp

lemma injected_clean: "n \<in> set injected_names \<Longrightarrow> header_clean hp be (to_lower n, v)"
  using injected_names_clean unfolding list_all_iff header_clean_def by simp

lemma set_cookie_clean:
  "cookie_conforms (hp_cookie_security hp) (is_tls hp) v \<or> is_sticky hp \<and> v = session_cookie hp be \<Longrightarrow>
   header_clean hp be (to_lower ''Set-Cookie'', v)"
proof -
  have n: "to_lower (to_lower ''Set-Cookie'') = ''set-cookie''" by code_simp
  have "''set-cookie'' \<notin> set (''server'' # HOP_BY_HOP_HEADERS @ FINGERPRINT_HEADERS)" by code_simp
  then show "header_clean hp be (to_lower ''Set-Cookie'', v)"
    if "cookie_conforms (hp_cookie_security hp) (is_tls hp) v \<or> is_sticky hp \<and> v = session_cookie hp be"
    using that unfolding header_clean_def fst_conv snd_conv n by simp
qed

lemma copy_response_header_clean:
  assumes "http_lib_law lib" "samesite_plain (hp_cookie_security hp)" "builder_all (header_clean hp be) b"
  shows "builder_all (header_clean hp be) (copy_response_header lib hp dc b h)"
proof -
  obtain name v where h: "h = (name, v)" by fastforce
  have cookie: "builder_all (header_clean hp be) (hb_header lib ''Set-Cookie'' w b)"
    if "enforce_set_cookie x (hp_cookie_security hp) (is_tls hp) = Some w" for x w
    using that cookie_policy_conforms [OF assms(2)]
    by (intro builder_all_header assms(1,3) set_cookie_clean) blast
  have other: "builder_all (header_clean hp be) (hb_append name v b)"
    if "to_lower name \<notin> set HOP_BY_HOP_HEADERS" "to_lower name \<noteq> ''server''"
      "\<not> (to_lower name = ''x-powered-by'' \<and> shd_remove_x_powered_by (hp_security_headers hp))"
      "to_lower name \<notin> set FINGERPRINT_HEADERS" "to_lower name \<noteq> ''set-cookie''"
    using that by (intro builder_all_append assms(3)) (auto simp: header_clean_def)
  show ?thesis
    unfolding copy_response_header_def h prod.case Let_def
    by (intro if_split [where P = "builder_all _", THEN iffD2] conjI impI assms(3) other)
       (auto split: option.split intro: assms(3) cookie)
qed

lemma security_response_headers_clean:
  assumes "http_lib_law lib" "builder_all (header_clean hp be) b"
  shows "builder_all (header_clean hp be) (security_response_headers lib hp be b)"
proof -
  have inj: "header_clean hp be (to_lower n, v)" if "n \<in> set injected_names" for n v
    using that by (rule injected_clean)
  note intro = builder_all_header [OF assms(1)] builder_all_optional [OF assms(1)]
  show ?thesis
    unfolding security_response_headers_def Let_def
    by (auto split: option.split intro!: intro assms(2) inj set_cookie_clean simp: injected_names_def
        simp del: to_lower_simps)
qed

lemma compression_headers_clean:
  assumes "http_lib_law lib" "builder_all (header_clean hp be) b"
  shows "builder_all (header_clean hp be) (compression_headers lib body dc b)"
  unfolding compression_headers_def
  by (auto intro!: builder_all_header [OF assms(1)] assms(2) injected_clean simp: injected_names_def
      simp del: to_lower_simps)

lemma foldl_builder_all:
  assumes "builder_all P b" "\<And>b h. builder_all P b \<Longrightarrow> builder_all P (f b h)"
  shows "builder_all P (foldl f b hs)"
  using assms(1) by (induction hs arbitrary: b) (simp_all add: assms(2))


section \<open>The body of a response\<close>

definition framing_names :: "str list" where
  "framing_names = [''content-encoding'', ''content-length'']"

definition framing :: "(str \<times> str) list \<Rightarrow> (str \<times> str) list" where
  "framing hs = filter (\<lambda>h. fst h \<in> set framing_names) hs"

lemma framing_simps [simp]:
  "framing [] = []" "framing (hs @ gs) = framing hs @ framing gs"
  "framing (h # hs) = (if fst h \<in> set framing_names then h # framing hs else framing hs)"
  by (simp_all add: framing_def)

text \<open>A builder that grew by headers outside the framing.\<close>

definition same_framing :: "header_builder \<Rightarrow> header_builder \<Rightarrow> bool" where
  "same_framing b b' \<longleftrightarrow> (\<forall>hs'. b' = Some hs' \<longrightarrow> (\<exists>hs. b = Some hs \<and> framing hs' = framing hs))"

lemma same_framing_refl: "same_framing b b"
  by (simp add: same_framing_def)

lemma same_framing_trans: "same_framing a b \<Longrightarrow> same_framing b c \<Longrightarrow> same_framing a c"
  unfolding same_framing_def by metis

lemma hb_header_Some:
  assumes "http_lib_law lib" "hb_header lib n v b = Some hs'"
  shows "\<exists>hs. b = Some hs \<and> hs' = hs @ [(to_lower n, v)]"
  using assms by (auto simp: hb_header_def http_lib_law_def split: option.splits)

lemma same_framing_header:
  assumes "http_lib_law lib" "to_lower n \<notin> set framing_names" "same_framing a b"
  shows "same_framing a (hb_header lib n v b)"
proof -
  have "same_framing b (hb_header lib n v b)"
    unfolding same_framing_def using hb_header_Some [OF assms(1)] assms(2) by fastforce
  with assms(3) show ?thesis by (rule same_framing_trans)
qed

lemma same_framing_optional:
  assumes "http_lib_law lib" "to_lower n \<notin> set framing_names" "same_framing a b"
  shows "same_framing a (optional_header lib n v b)"
  using same_framing_header [OF assms] assms(3) by (simp add: optional_header_def split: option.split)

lemma injected_not_framing:
  "to_lower ''X-Content-Type-Options'' \<notin> set framing_names" "to_lower ''X-Frame-Options'' \<notin> set framing_names"
  "to_lower ''Referrer-Policy'' \<notin> set framing_names" "to_lower ''Content-Security-Policy'' \<notin> set framing_names"
  "to_lower ''Set-Cookie'' \<notin> set framing_names" "to_lower ''Strict-Transport-Security'' \<notin> set framing_names"
  "to_lower ''Vary'' \<notin> set framing_names"
  by code_simp+

lemma security_response_headers_framing:
  assumes "http_lib_law lib"
  shows "same_framing b (security_response_headers lib hp be b)"
  unfolding security_response_headers_def Let_def
  by (auto split: option.split simp del: to_lower_simps
      intro!: same_framing_header [OF assms] same_framing_optional [OF assms] same_framing_refl injected_not_framing)

lemma framing_names_copied:
  "list_all (\<lambda>n. n \<notin> set (''server'' # ''x-powered-by'' # ''set-cookie'' # HOP_BY_HOP_HEADERS @ FINGERPRINT_HEADERS))
     framing_names"
  by code_simp

lemma copy_response_header_framing:
  assumes "http_lib_law lib" "to_lower (fst h) = fst h" "copy_response_header lib hp dc b h = Some hs'"
  shows "\<exists>hs. b = Some hs \<and>
    framing hs' = framing hs @ (if dc \<and> fst h = ''content-length'' then [] else framing [h])"
proof -
  obtain n v where h: "h = (n, v)" "to_lower n = n" using assms(2) by (cases h) auto
  have cookie: "\<exists>hs. b = Some hs \<and> framing hs' = framing hs" if "hb_header lib ''Set-Cookie'' w b = Some hs'" for w
    using hb_header_Some [OF assms(1) that] injected_not_framing(5) by auto
  show ?thesis
  proof (cases "n \<in> set framing_names")
    case True
    then have "n \<notin> set (''server'' # ''x-powered-by'' # ''set-cookie'' # HOP_BY_HOP_HEADERS @ FINGERPRINT_HEADERS)"
      using framing_names_copied unfolding list_all_iff by blast
    with True assms(3) h show ?thesis
      by (cases b) (auto simp: copy_response_header_def hb_append_def Let_def split: if_splits)
  next
    case False
    with assms(3) h cookie show ?thesis
      by (auto simp: copy_response_header_def hb_append_def Let_def split: if_splits option.splits)
  qed
qed

lemma copy_response_headers_framing:
  assumes "http_lib_law lib" "list_all (\<lambda>h. to_lower (fst h) = fst h) hds"
    and "foldl (copy_response_header lib hp dc) (Some []) hds = Some hs"
  shows "framing hs = filter (\<lambda>h. \<not> (dc \<and> fst h = ''content-length'')) (framing hds)"
  using assms(2,3)
proof (induction hds arbitrary: hs rule: rev_induct)
  case Nil
  then show ?case by simp
next
  case (snoc h hds)
  from snoc.prems(2) have
    "copy_response_header lib hp dc (foldl (copy_response_header lib hp dc) (Some []) hds) h = Some hs" by simp
  from copy_response_header_framing [OF assms(1) _ this] snoc.prems(1) obtain gs where
      "foldl (copy_response_header lib hp dc) (Some []) hds = Some gs"
      "framing hs = framing gs @ (if dc \<and> fst h = ''content-length'' then [] else framing [h])" by auto
  with snoc.IH [of gs] snoc.prems(1) show ?case by auto
qed

lemma compression_headers_Some:
  assumes "http_lib_law lib" "compression_headers lib body True b = Some hs'"
  shows "\<exists>hs. b = Some hs \<and> hs' = hs @ [(to_lower ''Content-Encoding'', ''gzip''),
    (to_lower ''Vary'', ''Accept-Encoding''), (to_lower ''Content-Length'', show_nat (length body))]"
proof -
  note h = hb_header_Some [OF assms(1)]
  let ?e = "hb_header lib ''Content-Encoding'' ''gzip'' b"
  let ?v = "hb_header lib ''Vary'' ''Accept-Encoding'' ?e"
  from assms(2) have "hb_header lib ''Content-Length'' (show_nat (length body)) ?v = Some hs'"
    by (simp only: compression_headers_def if_True)
  from h [OF this] obtain h1 where 1: "?v = Some h1" "hs' = h1 @ [(to_lower ''Content-Length'', show_nat (length body))]"
    by blast
  from h [OF 1(1)] obtain h2 where 2: "?e = Some h2" "h1 = h2 @ [(to_lower ''Vary'', ''Accept-Encoding'')]" by blast
  from h [OF 2(1)] obtain h3 where 3: "b = Some h3" "h2 = h3 @ [(to_lower ''Content-Encoding'', ''gzip'')]" by blast
  show ?thesis by (rule exI [of _ h3]) (simp only: 1(2) 2(2) 3 append_assoc append_Cons append_Nil simp_thms)
qed

text \<open>C31. The client gets the body of the backend: unchanged and with the length and the encoding that the
  backend announced, or compressed once, announced as such, with the length of what is sent.\<close>

theorem response_body_faithful:
  assumes "http_lib_law lib" "\<forall>b c. gzip lib b = Some c \<longrightarrow> gunzip c = b"
    and "list_all (\<lambda>h. to_lower (fst h) = fst h) (br_headers resp)"
    and "client_response lib hp hm be resp body = Some r"
  shows "(hr_body r = body \<and> framing (hr_headers r) = framing (br_headers resp)) \<or>
    (gunzip (hr_body r) = body \<and>
     framing (hr_headers r) =
       [(''content-encoding'', ''gzip''), (''content-length'', show_nat (length (hr_body r)))])"
proof -
  obtain body' dc where c: "compress_body lib hp hm resp body = (body', dc)" by fastforce
  let ?b = "foldl (copy_response_header lib hp dc) (Some []) (br_headers resp)"
  let ?s = "security_response_headers lib hp be ?b"
  from assms(4) c have r: "compression_headers lib body' dc ?s = Some (hr_headers r)" "hr_body r = body'"
    by (auto simp: client_response_def split: option.splits)
  have fr: "\<exists>gs. ?b = Some gs \<and> framing hs = framing gs" if "?s = Some hs" for hs
    using security_response_headers_framing [OF assms(1), of ?b hp be] that by (auto simp: same_framing_def)
  note copy = copy_response_headers_framing [OF assms(1,3)]
  show ?thesis
  proof (cases dc)
    case False
    with c have "body' = body" by (auto simp: compress_body_def split: if_splits option.splits)
    moreover have "framing (hr_headers r) = framing (br_headers resp)"
      using fr [of "hr_headers r"] copy [of hp dc] r(1) False by (auto simp: compression_headers_def)
    ultimately show ?thesis using r(2) by simp
  next
    case True
    with c have sc: "should_compress lib hp hm resp body" and gz: "gzip lib body = Some body'"
      by (auto simp: compress_body_def split: if_splits option.splits)
    obtain hs where hs: "?s = Some hs" "hr_headers r = hs @ [(to_lower ''Content-Encoding'', ''gzip''),
        (to_lower ''Vary'', ''Accept-Encoding''), (to_lower ''Content-Length'', show_nat (length body'))]"
      using compression_headers_Some [OF assms(1), of body' ?s "hr_headers r"] r(1) True by auto
    have "''content-encoding'' \<notin> fst ` set (br_headers resp)"
      using sc by (auto simp: should_compress_def Let_def map_of_eq_None_iff)
    then have "filter (\<lambda>h. \<not> (dc \<and> fst h = ''content-length'')) (framing (br_headers resp)) = []"
      using True by (force simp: filter_empty_conv framing_def framing_names_def)
    with fr [OF hs(1)] copy [of hp dc] have "framing hs = []" by auto
    moreover have "to_lower ''Content-Encoding'' = ''content-encoding''" "to_lower ''Content-Length'' = ''content-length''"
        "to_lower ''Vary'' \<notin> set framing_names" "''content-encoding'' \<in> set framing_names"
        "''content-length'' \<in> set framing_names" by code_simp+
    ultimately have "framing (hr_headers r) =
        [(''content-encoding'', ''gzip''), (''content-length'', show_nat (length body'))]"
      unfolding hs(2) framing_simps fst_conv by (simp only: append_Nil if_True if_False)
    with gz assms(2) r(2) show ?thesis by simp
  qed
qed

section \<open>Sticky sessions\<close>

text \<open>What a client sends back of a cookie it was given, among its other cookies.\<close>

definition returned_cookie :: "str \<Rightarrow> str" where
  "returned_cookie set_cookie = takeWhile (\<lambda>c. c \<noteq> CHR '';'') set_cookie"

definition cookie_token :: "str \<Rightarrow> bool" where
  "cookie_token s \<longleftrightarrow> list_all (\<lambda>c. \<not> is_ws c \<and> c \<noteq> CHR '';'' \<and> c \<noteq> CHR ''='') s"

lemma trim_token: "list_all (\<lambda>c. \<not> is_ws c) s \<Longrightarrow> is_ws w \<Longrightarrow> trim (w # s) = s"
  by (simp add: trim_space trim_no_ws)

lemma find_cookie_append:
  "find_cookie name (xs @ ys) = (case find_cookie name xs of Some v \<Rightarrow> Some v | None \<Rightarrow> find_cookie name ys)"
  by (induction xs) (auto split: option.split)

lemma find_cookie_Cons: "find_cookie name [x] = Some v \<Longrightarrow> find_cookie name (x # xs) = Some v"
  by (auto split: option.splits prod.splits if_splits)

lemma returned_session_cookie:
  assumes "cookie_token (fc_session_cookie (hp_frontend_config hp))" "cookie_token (be_tag be)"
  shows "returned_cookie (session_cookie hp be) = fc_session_cookie (hp_frontend_config hp) @ ''='' @ be_tag be"
proof -
  let ?p = "fc_session_cookie (hp_frontend_config hp) @ ''='' @ be_tag be"
  have "\<forall>c \<in> set ?p. c \<noteq> CHR '';''"
    using assms by (auto simp: cookie_token_def list_all_iff)
  moreover have "session_cookie hp be =
      ?p @ CHR '';'' # ('' Path=/; HttpOnly; SameSite=Lax'' @ (if is_tls hp then ''; Secure'' else []))"
    by (simp add: session_cookie_def)
  ultimately show ?thesis unfolding returned_cookie_def by (simp only: takeWhile_append2) simp
qed

lemma find_session_cookie:
  assumes "cookie_token name" "cookie_token tag" "list_all is_ws w"
  shows "find_cookie name [w @ name @ CHR ''='' # tag] = Some tag"
proof -
  let ?p = "name @ CHR ''='' # tag"
  have "\<not> is_ws (CHR ''='')" by (simp add: is_ws_def)
  then have no: "list_all (\<lambda>c. \<not> is_ws c) ?p"
    using assms(1,2) by (simp add: cookie_token_def list_all_iff ball_Un)
  have "dropWhile is_ws (w @ ?p) = dropWhile is_ws ?p"
    using assms(3) by (intro dropWhile_append2) (simp add: list_all_iff)
  then have "trim (w @ ?p) = trim ?p" by (simp only: trim_def trim_start_def)
  then have t: "trim (w @ ?p) = ?p" by (simp only: trim_no_ws [OF no])
  have "CHR ''='' \<notin> set name" using assms(1) by (auto simp: cookie_token_def list_all_iff)
  then have "takeWhile (\<lambda>d. d \<noteq> CHR ''='') ?p = name" "dropWhile (\<lambda>d. d \<noteq> CHR ''='') ?p = CHR ''='' # tag"
    by (induction name) auto
  then have sp: "split_once (CHR ''='') ?p = Some (name, tag)" by (simp add: split_once_def)
  have "list_all (\<lambda>c. \<not> is_ws c) name" "list_all (\<lambda>c. \<not> is_ws c) tag"
    using assms(1,2) by (simp_all add: cookie_token_def list_all_iff)
  then have "trim name = name" "trim tag = tag" by (simp_all only: trim_no_ws)
  then show ?thesis by (simp only: find_cookie.simps t sp option.case prod.case simp_thms if_True)
qed

lemma split_join_cookies:
  assumes "list_all (\<lambda>x. CHR '';'' \<notin> set x) (p # ps)"
  shows "split_char (CHR '';'') (join ''; '' (p # ps)) = p # map (\<lambda>x. CHR '' '' # x) ps"
  using assms
proof (induction ps arbitrary: p)
  case Nil
  then show ?case by (simp add: split_char_none)
next
  case (Cons q ps)
  have "join ''; '' (p # q # ps) = p @ CHR '';'' # CHR '' '' # join ''; '' (q # ps)" by simp
  moreover have "split_char (CHR '';'') (CHR '' '' # join ''; '' (q # ps)) =
      (CHR '' '' # q) # map (\<lambda>x. CHR '' '' # x) ps"
    using Cons by simp
  ultimately show ?case using Cons.prems by (simp add: split_char_append del: join.simps split_char.simps)
qed

lemma find_cookie_spaced: "find_cookie name (map (\<lambda>x. CHR '' '' # x) xs) = find_cookie name xs"
proof -
  have "is_ws (CHR '' '')" by (simp add: is_ws_def)
  then show ?thesis by (induction xs) (simp_all add: trim_space split: option.split)
qed

text \<open>The tags that \<^verbatim>\<open>Backend::new\<close> computes are tokens.\<close>

lemma hex_char_token: "n < 16 \<Longrightarrow> cookie_token [hex_char n]"
proof -
  assume "n < 16"
  then have v: "(of_char (hex_char n) :: nat) = (if n < 10 then 48 + n else 87 + n)"
    by (simp add: hex_char_def)
  have "hex_char n \<noteq> c" if "(of_char c :: nat) \<in> {59, 61}" for c
    using that v by (auto split: if_splits)
  then have "hex_char n \<noteq> CHR '';''" "hex_char n \<noteq> CHR ''=''" by simp_all
  moreover have "\<not> is_ws (hex_char n)"
    unfolding is_ws_def Let_def v by simp
  ultimately show "cookie_token [hex_char n]" by (simp add: cookie_token_def)
qed

lemma cookie_token_append [simp]: "cookie_token (xs @ ys) \<longleftrightarrow> cookie_token xs \<and> cookie_token ys"
  by (simp add: cookie_token_def)

lemma backend_tag_token: "cookie_token (be_tag (backend_new uuid i addr weight tls))"
proof -
  have "unat b div 16 < 16" for b :: u8
    using unsigned_less [of b, where 'a = nat] by simp
  then have "cookie_token (hex2 b)" for b
    using hex_char_token [of "unat b div 16"] hex_char_token [of "unat b mod 16"]
    by (simp add: hex2_def cookie_token_def)
  then show ?thesis by (simp add: backend_new_def Let_def)
qed


section \<open>The headers of a request to a backend\<close>

definition accepted_header :: "('s, 'c) http_lib \<Rightarrow> str \<times> str \<Rightarrow> (str \<times> str) option" where
  "accepted_header lib h =
     (case header_name lib (fst h) of
        Some n \<Rightarrow> (case header_value lib (snd h) of Some v \<Rightarrow> Some (n, v) | None \<Rightarrow> None)
      | None \<Rightarrow> None)"

definition copied_headers :: "('s, 'c) http_lib \<Rightarrow> header_map \<Rightarrow> (str \<times> str) list" where
  "copied_headers lib hm =
     List.map_filter (accepted_header lib) (filter (\<lambda>h. to_lower (fst h) \<notin> set HOP_BY_HOP_HEADERS) hm)"

definition added_headers ::
  "('s, 'c) http_lib \<Rightarrow> frontend_config \<Rightarrow> ip_addr \<Rightarrow> str \<Rightarrow> header_map \<Rightarrow> (str \<times> str) list" where
  "added_headers lib fc ip request_id hm =
     (let cfg = fc_headers fc; host = (case map_of hm ''host'' of Some h \<Rightarrow> [h] | None \<Rightarrow> []) in
      (if fhc_x_forwarded_for cfg then [(''x-forwarded-for'', forwarded_for ip hm)] else []) @
      (if fhc_x_real_ip cfg then [(''x-real-ip'', ip_to_string ip)] else []) @
      (if fhc_x_forwarded_proto cfg
       then [(''x-forwarded-proto'', if fc_protocol fc = PT_Https then ''https'' else ''http'')] else []) @
      (if fhc_x_forwarded_host cfg then map (\<lambda>h. (''x-forwarded-host'', h)) host else []) @
      (if fhc_x_forwarded_port cfg
       then map (\<lambda>h. (''x-forwarded-port'', rsplit_first (CHR '':'') h)) host else []) @
      (if fhc_x_request_id cfg then [(''x-request-id'', request_id)] else []) @
      List.map_filter (accepted_header lib) (map (\<lambda>c. (ch_name c, ch_value c)) (fhc_custom cfg)))"

lemma try_append_eq:
  "try_append lib n v b =
     (case accepted_header lib (n, v) of Some h \<Rightarrow> map_option (\<lambda>hs. hs @ [h]) b | None \<Rightarrow> b)"
  by (simp add: try_append_def accepted_header_def hb_append_def split: option.split)

lemma foldl_try_append:
  "foldl (\<lambda>b c. try_append lib (f c) (g c) b) b cs =
     map_option (\<lambda>hs. hs @ List.map_filter (accepted_header lib) (map (\<lambda>c. (f c, g c)) cs)) b"
  by (induction cs arbitrary: b) (auto simp: try_append_eq option.map_comp comp_def option.map_ident split: option.split)

lemma copy_request_headers_eq:
  "copy_request_headers lib hm b = map_option (\<lambda>hs. hs @ copied_headers lib hm) b"
  unfolding copy_request_headers_def copied_headers_def
  by (induction hm arbitrary: b)
     (auto simp: try_append_eq option.map_comp comp_def option.map_ident split: option.split)

text \<open>A builder that may grow by one header.\<close>

definition grows :: "header_builder \<Rightarrow> (str \<times> str) list \<Rightarrow> header_builder \<Rightarrow> bool" where
  "grows b ext b' \<longleftrightarrow> (\<forall>hs'. b' = Some hs' \<longrightarrow> (\<exists>hs. b = Some hs \<and> hs' = hs @ ext))"

lemma grows_refl: "grows b [] b"
  by (simp add: grows_def)

lemma grows_trans: "grows a xs b \<Longrightarrow> grows b ys c \<Longrightarrow> grows a (xs @ ys) c"
  unfolding grows_def by (metis append_assoc)

lemma grows_header: "http_lib_law lib \<Longrightarrow> to_lower n = m \<Longrightarrow> grows b [(m, v)] (hb_header lib n v b)"
  unfolding grows_def using hb_header_Some by metis

lemma grows_if: "grows b xs b' \<Longrightarrow> grows b (if c then xs else []) (if c then b' else b)"
  by (simp add: grows_refl)

lemma forwarding_names:
  "to_lower ''X-Forwarded-For'' = ''x-forwarded-for''" "to_lower ''X-Real-IP'' = ''x-real-ip''"
  "to_lower ''X-Forwarded-Proto'' = ''x-forwarded-proto''" "to_lower ''X-Forwarded-Host'' = ''x-forwarded-host''"
  "to_lower ''X-Forwarded-Port'' = ''x-forwarded-port''" "to_lower ''X-Request-ID'' = ''x-request-id''"
  by code_simp+

lemma inject_headers_grows:
  assumes "http_lib_law lib"
  shows "grows b (added_headers lib fc ip rid hm) (inject_headers lib fc ip rid hm b)"
proof -
  note h = grows_header [OF assms]
  have host: "grows b (map (\<lambda>h. (m, f h)) (case map_of hm ''host'' of Some h \<Rightarrow> [h] | None \<Rightarrow> []))
      (case map_of hm ''host'' of Some host \<Rightarrow> hb_header lib n (f host) b | None \<Rightarrow> b)"
    if "to_lower n = m" for n m f b
    using h [OF that] grows_refl by (simp split: option.split)
  have custom: "grows b (List.map_filter (accepted_header lib) (map (\<lambda>c. (ch_name c, ch_value c)) cs))
      (foldl (\<lambda>b c. try_append lib (ch_name c) (ch_value c) b) b cs)" for b cs
    by (auto simp: grows_def foldl_try_append)
  let ?c = "fc_headers fc"
  define b1 where "b1 = (if fhc_x_forwarded_for ?c then hb_header lib ''X-Forwarded-For'' (forwarded_for ip hm) b else b)"
  define b2 where "b2 = (if fhc_x_real_ip ?c then hb_header lib ''X-Real-IP'' (ip_to_string ip) b1 else b1)"
  define b3 where "b3 = (if fhc_x_forwarded_proto ?c
    then hb_header lib ''X-Forwarded-Proto'' (if fc_protocol fc = PT_Https then ''https'' else ''http'') b2 else b2)"
  define b4 where "b4 = (if fhc_x_forwarded_host ?c
    then (case map_of hm ''host'' of Some host \<Rightarrow> hb_header lib ''X-Forwarded-Host'' host b3 | None \<Rightarrow> b3) else b3)"
  define b5 where "b5 = (if fhc_x_forwarded_port ?c
    then (case map_of hm ''host'' of
            Some host \<Rightarrow> hb_header lib ''X-Forwarded-Port'' (rsplit_first (CHR '':'') host) b4 | None \<Rightarrow> b4) else b4)"
  define b6 where "b6 = (if fhc_x_request_id ?c then hb_header lib ''X-Request-ID'' rid b5 else b5)"
  let ?host = "case map_of hm ''host'' of Some h \<Rightarrow> [h] | None \<Rightarrow> []"
  have g1: "grows b (if fhc_x_forwarded_for ?c then [(''x-forwarded-for'', forwarded_for ip hm)] else []) b1"
    unfolding b1_def by (intro grows_if h forwarding_names)
  have g2: "grows b1 (if fhc_x_real_ip ?c then [(''x-real-ip'', ip_to_string ip)] else []) b2"
    unfolding b2_def by (intro grows_if h forwarding_names)
  have g3: "grows b2 (if fhc_x_forwarded_proto ?c
      then [(''x-forwarded-proto'', if fc_protocol fc = PT_Https then ''https'' else ''http'')] else []) b3"
    unfolding b3_def by (intro grows_if h forwarding_names)
  have g4: "grows b3 (if fhc_x_forwarded_host ?c then map (\<lambda>h. (''x-forwarded-host'', h)) ?host else []) b4"
    unfolding b4_def by (intro grows_if host forwarding_names)
  have g5: "grows b4 (if fhc_x_forwarded_port ?c
      then map (\<lambda>h. (''x-forwarded-port'', rsplit_first (CHR '':'') h)) ?host else []) b5"
    unfolding b5_def by (intro grows_if host forwarding_names)
  have g6: "grows b5 (if fhc_x_request_id ?c then [(''x-request-id'', rid)] else []) b6"
    unfolding b6_def by (intro grows_if h forwarding_names)
  note all = grows_trans [OF g1 grows_trans [OF g2 grows_trans [OF g3 grows_trans [OF g4 grows_trans [OF g5
      grows_trans [OF g6 custom [of _ "fhc_custom ?c"]]]]]]]
  have "inject_headers lib fc ip rid hm b =
      foldl (\<lambda>b c. try_append lib (ch_name c) (ch_value c) b) b6 (fhc_custom ?c)"
    by (simp only: inject_headers_def Let_def b1_def b2_def b3_def b4_def b5_def b6_def)
  with all show ?thesis
    by (simp only: added_headers_def Let_def)
qed

text \<open>The backend gets every header of the client that is not hop-by-hop, each once and before those
  that the configuration adds: the forwarding headers with the address of the client, and the custom
  headers.\<close>

lemma outbound_headers_eq:
  assumes "http_lib_law lib" "build_outbound lib hp a rq hm body b = Some out"
  shows "oq_headers out = copied_headers lib hm @
    added_headers lib (hp_frontend_config hp) (ha_client_ip a) (ha_request_id a) hm"
proof -
  let ?c = "copy_request_headers lib hm (if uri_valid lib (oq_uri out) then Some [] else None)"
  have "inject_headers lib (hp_frontend_config hp) (ha_client_ip a) (ha_request_id a) hm ?c = Some (oq_headers out)"
    using assms(2) build_outbound_Some(3) [OF assms(2)]
    by (auto simp: build_outbound_def Let_def split: option.splits)
  with inject_headers_grows [OF assms(1), of ?c] obtain hs where
      "?c = Some hs" "oq_headers out = hs @
        added_headers lib (hp_frontend_config hp) (ha_client_ip a) (ha_request_id a) hm"
    unfolding grows_def by blast
  then show ?thesis by (auto simp: copy_request_headers_eq split: if_splits)
qed

text \<open>A client can name its own address: a backend that reads the first \<^verbatim>\<open>X-Real-IP\<close> header of a
  request gets the one that the client sent, whatever the proxy adds behind it.\<close>

theorem real_ip_from_client:
  assumes "http_lib_law lib" "build_outbound lib hp a rq hm body b = Some out"
    and "hm = pre @ (''x-real-ip'', v) # post" "list_all (\<lambda>h. to_lower (fst h) \<noteq> ''x-real-ip'') pre"
    and "header_name lib ''x-real-ip'' = Some ''x-real-ip''" "header_value lib v = Some v"
  shows "map_of (oq_headers out) ''x-real-ip'' = Some v"
proof -
  have hop: "to_lower ''x-real-ip'' \<notin> set HOP_BY_HOP_HEADERS" by code_simp
  have acc: "accepted_header lib (''x-real-ip'', v) = Some (''x-real-ip'', v)"
    using assms(5,6) by (simp add: accepted_header_def)
  have none: "map_of (copied_headers lib pre) ''x-real-ip'' = None"
    using assms(1,4)
    by (auto simp: copied_headers_def map_of_eq_None_iff map_filter_def accepted_header_def http_lib_law_def
        list_all_iff split: option.splits) (metis fst_conv)
  have "copied_headers lib hm = copied_headers lib pre @ (''x-real-ip'', v) # copied_headers lib post"
    using acc hop by (simp add: copied_headers_def assms(3) map_filter_def)
  with none show ?thesis
    unfolding outbound_headers_eq [OF assms(1,2)] by (simp add: map_add_def)
qed

end
