(* ===== verification/Http_Runs.thy ===== *)
theory Http_Runs
  imports Http_Responses
begin

text \<open>
  A concrete HTTP proxy, with its backends and a library, on which the properties of the HTTP theories
  are evaluated.
\<close>

section \<open>A concrete proxy\<close>

text \<open>A library that takes every name and value, and a backend that answers every request alike.\<close>

definition demo_response :: backend_response where
  "demo_response =
     \<lparr>br_status = 200,
      br_headers = [(''content-type'', ''text/html''), (''server'', ''x/1.0''), (''set-cookie'', ''id=7''),
                    (''content-length'', ''2'')],
      br_body = Some ''hi''\<rparr>"

definition plain_http_lib :: "(unit, unit) http_lib" where
  "plain_http_lib =
     \<lparr>header_to_str = Some, header_name = (\<lambda>n. Some (to_lower n)), header_value = Some,
      uri_valid = (\<lambda>_. True), gzip = (\<lambda>b. Some (CHR ''z'' # b)), http_connect = (\<lambda>_. Inr ()),
      http_handshake = (\<lambda>_. Inr ()), http_send_request = (\<lambda>_ _. Inr demo_response)\<rparr>"

lemma plain_http_lib_law: "http_lib_law plain_http_lib"
  by (simp add: http_lib_law_def plain_http_lib_def)

definition demo_http_env :: "(str, str list, str, unit, unit) http_env" where
  "demo_http_env =
     \<lparr>he_regex = substring_regex_lib, he_cidr = prefix_cidr_lib, he_hash = (\<lambda>_. 0), he_http = plain_http_lib\<rparr>"

definition demo_http_proxy :: "balance_method \<Rightarrow> (str, str list) http_proxy" where
  "demo_http_proxy bm =
     \<lparr>hp_waf = None,
      hp_frontend_config = (frontend_config_minimal ''web'' PT_Https [''0.0.0.0:443''] ''pool'')\<lparr>fc_balancer := bm\<rparr>,
      hp_security_headers = security_headers_config_default\<lparr>shd_compress_responses := True, shd_compress_min_size := 1\<rparr>,
      hp_path_acl = None, hp_bot_detection = bot_detection_config_default, hp_hsts_max_age = Some 60,
      hp_hsts_include_subdomains = False,
      hp_cookie_security = \<lparr>csc_enforce_secure_flag = True, csc_enforce_httponly_flag = True,
        csc_enforce_samesite = Some ''Lax'', csc_max_cookie_size = 0\<rparr>,
      hp_log_writer = False, hp_log_format = LF_Json, hp_acl_bypass_waf = False,
      hp_domain_allow = [], hp_domain_block = []\<rparr>"

definition demo_http_state :: "(rate_limiter \<times> rate_limit_key) list \<Rightarrow> (str, str) http_state" where
  "demo_http_state rls =
     \<lparr>hs_pipeline = demo_pipeline [demo_backend ''a'', demo_backend ''b''], hs_rate_limiters = rls,
      hs_log = [], hs_sent = []\<rparr>"

definition demo_arrival :: "real \<Rightarrow> http_arrival" where
  "demo_arrival t =
     \<lparr>ha_client_ip = localhost_v4, ha_ja3 = None, ha_now = t, ha_request_id = ''r1'', ha_utc = [], ha_log_time = []\<rparr>"

definition demo_http_request :: "(str \<times> str) list \<Rightarrow> http_request" where
  "demo_http_request hs =
     \<lparr>hq_method = ''GET'', hq_uri = \<lparr>hu_path = ''/'', hu_path_and_query = Some ''/'', hu_text = ''/''\<rparr>,
      hq_headers = hs, hq_body = Some []\<rparr>"

lemmas demo_http_simps =
  demo_http_env_def demo_http_proxy_def demo_http_state_def demo_arrival_def demo_http_request_def
  plain_http_lib_def frontend_config_minimal_def frontend_headers_config_default_def


lemma hb_header_plain: "b \<noteq> None \<Longrightarrow> hb_header plain_http_lib n v b \<noteq> None"
  by (auto simp: hb_header_def plain_http_lib_def)

lemma client_response_plain: "client_response plain_http_lib hp hm be resp body \<noteq> None"
proof -
  obtain body' dc where c: "compress_body plain_http_lib hp hm resp body = (body', dc)" by fastforce
  let ?f = "copy_response_header plain_http_lib hp dc"
  have copy: "?f b h \<noteq> None" if "b \<noteq> None" for b h
    using that hb_header_plain [OF that]
    by (cases h) (simp add: copy_response_header_def Let_def hb_append_def split: option.split)
  have fold: "foldl ?f b hs \<noteq> None" if "b \<noteq> None" for b hs
    using that by (induction hs arbitrary: b) (simp_all add: copy del: not_None_eq)
  have opt: "optional_header plain_http_lib n v b \<noteq> None" if "b \<noteq> None" for n v b
    using that hb_header_plain by (simp add: optional_header_def split: option.split)
  have sec: "security_response_headers plain_http_lib hp be b \<noteq> None" if "b \<noteq> None" for b
    unfolding security_response_headers_def Let_def
    by (auto split: option.split simp del: not_None_eq intro!: hb_header_plain opt that)
  have "compression_headers plain_http_lib body' dc b \<noteq> None" if "b \<noteq> None" for b
    unfolding compression_headers_def by (auto simp del: not_None_eq intro!: hb_header_plain that)
  from this [OF sec [OF fold [of "Some []" "br_headers resp"]]] show ?thesis
    by (auto simp: client_response_def c split: option.split)
qed


theorem response_body_faithful_witness:
  "\<exists>r. client_response plain_http_lib (demo_http_proxy BM_RoundRobin) [(''accept-encoding'', ''gzip'')]
         (demo_backend ''a'') demo_response ''hi'' = Some r \<and>
       (hr_body r = ''hi'' \<or> tl (hr_body r) = ''hi'')"
proof -
  let ?hp = "demo_http_proxy BM_RoundRobin" and ?hm = "[(''accept-encoding'', ''gzip'')]"
  obtain r where r: "client_response plain_http_lib ?hp ?hm (demo_backend ''a'') demo_response ''hi'' = Some r"
    using client_response_plain by blast
  have g: "\<forall>b c. gzip plain_http_lib b = Some c \<longrightarrow> tl c = b" by (auto simp: plain_http_lib_def)
  have l: "list_all (\<lambda>h. to_lower (fst h) = fst h) (br_headers demo_response)"
    unfolding demo_response_def by code_simp
  from response_body_faithful [OF plain_http_lib_law g l r] r show ?thesis by blast
qed

theorem real_ip_from_client_witness:
  "\<exists>out. build_outbound plain_http_lib (demo_http_proxy BM_RoundRobin) (demo_arrival 0) (demo_http_request [])
           [(''host'', ''h''), (''x-real-ip'', ''10.9.8.7'')] [] (demo_backend ''a'') = Some out \<and>
         map_of (oq_headers out) ''x-real-ip'' = Some ''10.9.8.7''"
proof -
  let ?hm = "[(''host'', ''h''), (''x-real-ip'', ''10.9.8.7'')]"
  have "\<exists>out. build_outbound plain_http_lib (demo_http_proxy BM_RoundRobin) (demo_arrival 0) (demo_http_request [])
      ?hm [] (demo_backend ''a'') = Some out"
    by (simp add: build_outbound_def copy_request_headers_eq inject_headers_def Let_def foldl_try_append
        demo_http_simps)
  then obtain out where out: "build_outbound plain_http_lib (demo_http_proxy BM_RoundRobin) (demo_arrival 0)
      (demo_http_request []) ?hm [] (demo_backend ''a'') = Some out" by blast
  have "?hm = [(''host'', ''h'')] @ (''x-real-ip'', ''10.9.8.7'') # []" by simp
  moreover have "list_all (\<lambda>h. to_lower (fst h) \<noteq> ''x-real-ip'') [(''host'', ''h'')]" by code_simp
  moreover have "header_name plain_http_lib ''x-real-ip'' = Some ''x-real-ip''"
    unfolding plain_http_lib_def by code_simp
  moreover have "header_value plain_http_lib ''10.9.8.7'' = Some ''10.9.8.7''" by (simp add: plain_http_lib_def)
  ultimately show ?thesis
    using real_ip_from_client [OF plain_http_lib_law out] out by blast
qed


theorem http_counts_requests_witness:
  "\<exists>fs st'. (http_step demo_http_env (demo_http_proxy BM_RoundRobin))\<^sup>*\<^sup>* ([], demo_http_state []) (fs, st') \<and>
     held fs = [0] \<and> be_active_connections (rp_backends (hs_pipeline st') ! 0) = 1"
proof -
  let ?hp = "demo_http_proxy BM_RoundRobin" and ?rq = "demo_http_request []"
  let ?hm = "header_map_of (he_http demo_http_env) (hq_headers ?rq)"
  let ?f = "\<lambda>s. \<lparr>hf_arrival = demo_arrival 0, hf_request = ?rq, hf_headers = ?hm, hf_body = [], hf_stage = s\<rparr>"
  let ?st = "demo_http_state []"
  let ?gd = "set_backends (connection_guard_new (rp_backends (hs_pipeline ?st)) 0) ?st"
  have body: "hq_body ?rq = Some []" by (simp add: demo_http_request_def)
  have scr: "http_screen demo_http_env ?hp (demo_arrival 0) ?rq ?hm [] ?st = (None, ?st)"
    by (simp add: http_screen_def path_denied_def domain_denied_def bot_denied_def waf_blocks_def
        demo_http_simps bot_detection_config_default_def Let_def)
  have "http_step demo_http_env ?hp ([], ?st) ([] @ [?f Screened], ?st)"
    using http_step.Arrive [OF body scr, of "[]"] by simp
  moreover have "http_choose demo_http_env ?hp (ha_client_ip (hf_arrival (?f Screened))) (hf_headers (?f Screened))
      (hs_pipeline ?st) = (Some 0, hs_pipeline ?st)"
    by (simp add: http_choose_def sticky_tag_def is_sticky_def demo_http_simps demo_simps upt_rec)
  from http_step.Choose [OF _ this, of "[]" "[]"]
  have "http_step demo_http_env ?hp ([] @ [?f Screened], ?st) ([] @ [?f (Chosen 0)], ?st)"
    by (simp add: demo_http_state_def)
  moreover have "http_step demo_http_env ?hp ([] @ [?f (Chosen 0)], ?st) ([] @ [?f (Guarded 0)], ?gd)"
    using http_step.Guard [of "?f (Chosen 0)" 0 demo_http_env ?hp "[]" "[]" ?st] by simp
  ultimately have reach: "(http_step demo_http_env ?hp)\<^sup>*\<^sup>* ([], ?st) ([?f (Guarded 0)], ?gd)" by auto
  have idle: "list_all (\<lambda>b. be_active_connections b = 0) (rp_backends (hs_pipeline ?st))"
    by (simp add: demo_http_state_def demo_simps)
  have len: "0 < length (rp_backends (hs_pipeline ?gd))"
    by (simp add: set_backends_def demo_http_state_def demo_simps)
  from http_counts_requests [OF idle reach len] reach show ?thesis
    by (intro exI [of _ "[?f (Guarded 0)]"] exI [of _ ?gd]) simp
qed

end
