(* ===== verification/Server_Config.thy ===== *)
theory Server_Config
  imports Frontend_Config Antispam_Pipeline Relay_Policy Relay_Queue Waf_Rules
begin

text \<open>
  The configuration of a whole instance: the sections of \<^verbatim>\<open>ServerWallConfig\<close>
  (\<^verbatim>\<open>serverwall-core/src/config/schema.rs\<close>) that the component theories do not already have, and the
  \<^verbatim>\<open>Default\<close> instances, hand-written or derived as in the source.  A path is a \<^typ>\<open>str\<close>.
\<close>

section \<open>Daemon, web interface and certificates\<close>

record global_config =
  gl_daemon_name :: str
  gl_pid_file :: "str option"
  gl_worker_threads :: nat
  gl_max_connections :: nat
  gl_log_dir :: str
  gl_cert_dir :: str
  gl_config_dir :: "str option"
  gl_log_level :: str
  gl_graceful_drain_secs :: u64

definition global_config_default :: global_config where
  "global_config_default =
     \<lparr>gl_daemon_name = ''serverwall'', gl_pid_file = None, gl_worker_threads = 0,
      gl_max_connections = 65536, gl_log_dir = ''/opt/serverwall/var/log'',
      gl_cert_dir = ''/opt/serverwall/etc/certs'', gl_config_dir = None, gl_log_level = ''info'',
      gl_graceful_drain_secs = 30\<rparr>"

record webui_config =
  wu_enabled :: bool
  wu_listen :: str
  wu_tls_cert :: "str option"
  wu_tls_key :: "str option"
  wu_tokens_file :: str
  wu_web_users_file :: str
  wu_allowed_origins :: "str list"
  wu_allow_list :: "str list"

definition default_webui_cert :: "str option" where
  "default_webui_cert = Some ''/opt/serverwall/etc/certs/webui.pem''"

definition default_webui_key :: "str option" where
  "default_webui_key = Some ''/opt/serverwall/etc/certs/webui-key.pem''"

definition webui_config_default :: webui_config where
  "webui_config_default =
     \<lparr>wu_enabled = True, wu_listen = ''0.0.0.0:8443'', wu_tls_cert = default_webui_cert,
      wu_tls_key = default_webui_key, wu_tokens_file = ''/opt/serverwall/etc/api-tokens.toml'',
      wu_web_users_file = ''/opt/serverwall/etc/web-users.toml'', wu_allowed_origins = [],
      wu_allow_list = [''0.0.0.0/0'', ''::/0'']\<rparr>"

record acme_config =
  ac_enabled :: bool
  ac_email :: "str option"
  ac_directory_url :: str
  ac_challenge_type :: str
  ac_storage_dir :: str
  ac_auto_renew :: bool
  ac_renew_before_days :: u32
  ac_challenge_allowed_cidrs :: "str list"

definition acme_config_default :: acme_config where
  "acme_config_default =
     \<lparr>ac_enabled = False, ac_email = None,
      ac_directory_url = ''https://acme-v02.api.letsencrypt.org/directory'',
      ac_challenge_type = ''http-01'', ac_storage_dir = ''/opt/serverwall/etc/acme'',
      ac_auto_renew = True, ac_renew_before_days = 30,
      ac_challenge_allowed_cidrs = [''64.112.15.0/24'', ''66.133.109.0/24'']\<rparr>"

section \<open>Backend pools\<close>

datatype health_check_type = HC_Tcp | HC_Http | HC_Smtp | HC_Imap | HC_Stratum

record backend_config =
  bc_name :: str
  bc_address :: str
  bc_weight :: u32
  bc_tls :: bool
  bc_tls_verify :: "bool option"
  bc_tls_sni :: "str option"
  bc_max_connections :: "nat option"
  bc_enabled :: bool

record backend_pool_config =
  bpc_name :: str
  bpc_health_check_interval :: str
  bpc_health_check_timeout :: str
  bpc_health_check_type :: health_check_type
  bpc_health_check_path :: "str option"
  bpc_health_check_expect :: u16
  bpc_health_check_tls :: bool
  bpc_health_check_ignore_cert :: bool
  bpc_health_check_method :: str
  bpc_backend :: "backend_config list"

text \<open>A backend and a pool section with only the required keys.\<close>

definition backend_config_minimal :: "str \<Rightarrow> str \<Rightarrow> backend_config" where
  "backend_config_minimal name address =
     \<lparr>bc_name = name, bc_address = address, bc_weight = 1, bc_tls = False, bc_tls_verify = None,
      bc_tls_sni = None, bc_max_connections = None, bc_enabled = True\<rparr>"

definition backend_pool_config_minimal :: "str \<Rightarrow> backend_config list \<Rightarrow> backend_pool_config" where
  "backend_pool_config_minimal name backends =
     \<lparr>bpc_name = name, bpc_health_check_interval = ''10s'', bpc_health_check_timeout = ''3s'',
      bpc_health_check_type = HC_Tcp, bpc_health_check_path = None, bpc_health_check_expect = 200,
      bpc_health_check_tls = False, bpc_health_check_ignore_cert = False,
      bpc_health_check_method = ''GET'', bpc_backend = backends\<rparr>"

section \<open>Security\<close>

record security_tls_config =
  stc_min_version :: str
  stc_cipher_suites :: "str list"
  stc_ocsp_stapling :: bool
  stc_hsts_max_age :: "u64 option"
  stc_hsts_include_subdomains :: bool
  stc_backend_tls_verify :: bool
  stc_backend_ca_bundle :: "str option"

record domain_acl_config =
  dac_allow :: "str list"
  dac_block :: "str list"

record security_acl_config =
  sac_default :: acl_default_action
  sac_acl_bypass_waf :: bool
  sac_ip :: ip_acl_config
  sac_domain :: domain_acl_config
  sac_path_patterns :: "path_pattern_config list"

record rate_limit_scope =
  rls_scope_type :: str
  rls_pattern :: "str option"

record rate_limit_config =
  rlc_name :: str
  rlc_key :: str
  rlc_requests :: u64
  rlc_window_secs :: u64
  rlc_burst :: "u64 option"
  rlc_scope :: "rate_limit_scope option"

record security_config =
  sec_enabled :: bool
  sec_tls :: security_tls_config
  sec_acl :: security_acl_config
  sec_rate_limit :: "rate_limit_config list"
  sec_geo :: geo_config
  sec_bot_detection :: bot_detection_config
  sec_cookies :: cookie_security_config
  sec_headers :: security_headers_config

text \<open>The derived \<^verbatim>\<open>Default\<close> instances, which a configuration without the section gets: the
  default of each field's type, not the one that \<^verbatim>\<open>serde\<close> gives a missing key.\<close>

definition security_tls_config_default :: security_tls_config where
  "security_tls_config_default =
     \<lparr>stc_min_version = [], stc_cipher_suites = [], stc_ocsp_stapling = False, stc_hsts_max_age = None,
      stc_hsts_include_subdomains = False, stc_backend_tls_verify = False, stc_backend_ca_bundle = None\<rparr>"

definition security_acl_config_default :: security_acl_config where
  "security_acl_config_default =
     \<lparr>sac_default = Default_Allow, sac_acl_bypass_waf = False,
      sac_ip = \<lparr>iac_allow = [], iac_block = []\<rparr>, sac_domain = \<lparr>dac_allow = [], dac_block = []\<rparr>,
      sac_path_patterns = []\<rparr>"

definition geo_config_default :: geo_config where
  "geo_config_default =
     \<lparr>gc_enabled = False, gc_database_path = None, gc_block_countries = [], gc_allow_countries = []\<rparr>"

definition default_geoip_db_path :: "str option" where
  "default_geoip_db_path = Some ''/opt/serverwall/lib/geoip/dbip-country-lite.mmdb''"

definition security_config_default :: security_config where
  "security_config_default =
     \<lparr>sec_enabled = False, sec_tls = security_tls_config_default, sec_acl = security_acl_config_default,
      sec_rate_limit = [], sec_geo = geo_config_default, sec_bot_detection = bot_detection_config_default,
      sec_cookies = cookie_security_config_default, sec_headers = security_headers_config_default\<rparr>"

record security_profile =
  sp_name :: str
  sp_description :: str
  sp_profile_type :: str
  sp_waf_enabled :: bool
  sp_waf_ruleset :: "str option"
  sp_headers :: security_headers_config
  sp_cookies :: cookie_security_config
  sp_bot_detection :: bot_detection_config
  sp_geo :: geo_config
  sp_antispam :: "security_profile_antispam option"
  sp_min_version :: str
  sp_cipher_suites :: "str list"
  sp_hsts_max_age :: "u64 option"
  sp_hsts_include_subdomains :: bool
  sp_ocsp_stapling :: bool

text \<open>A profile section with only its name.\<close>

definition security_profile_minimal :: "str \<Rightarrow> security_profile" where
  "security_profile_minimal name =
     \<lparr>sp_name = name, sp_description = [], sp_profile_type = ''HTTP'', sp_waf_enabled = False,
      sp_waf_ruleset = None, sp_headers = security_headers_config_default,
      sp_cookies = cookie_security_config_default, sp_bot_detection = bot_detection_config_default,
      sp_geo = geo_config_default, sp_antispam = None, sp_min_version = ''1.2'', sp_cipher_suites = [],
      sp_hsts_max_age = None, sp_hsts_include_subdomains = False, sp_ocsp_stapling = False\<rparr>"

record log_profile =
  lp_name :: str
  lp_description :: str
  lp_format :: log_format
  lp_access_log :: bool

section \<open>Relay\<close>

record relay_tls_config =
  rtc_opportunistic :: bool
  rtc_verify_certificates :: bool
  rtc_min_version :: str

record dkim_domain_config =
  ddc_domain :: str
  ddc_selector :: str
  ddc_key_file :: str
  ddc_algorithm :: str

record relay_dkim_config =
  rdc_enabled :: bool
  rdc_domains :: "dkim_domain_config list"

record dmarc_policy_domain =
  dpd_domain :: str
  dpd_policy :: str
  dpd_subdomain_policy :: "str option"
  dpd_pct :: u8
  dpd_rua :: "str list"
  dpd_ruf :: "str list"
  dpd_adkim :: str
  dpd_aspf :: str

record spf_mechanism =
  spm_qualifier :: str
  spm_mechanism :: str
  spm_value :: "str option"

record spf_domain_config =
  sdc_domain :: str
  sdc_mechanisms :: "spf_mechanism list"
  sdc_all :: str

record relay_dmarc_publish_config =
  dpc_domains :: "dmarc_policy_domain list"

record relay_spf_publish_config =
  spc_domains :: "spf_domain_config list"

record bounce_config =
  bnc_sender :: "str option"
  bnc_include_original_headers :: bool

record relay_config =
  rly_enabled :: bool
  rly_listen :: "str list"
  rly_hostname :: "str option"
  rly_spool_dir :: str
  rly_max_queue_size :: nat
  rly_delivery_threads :: nat
  rly_trusted_hosts :: trusted_hosts_config
  rly_retry :: retry_config
  rly_tls :: relay_tls_config
  rly_dkim :: relay_dkim_config
  rly_dmarc_publish :: relay_dmarc_publish_config
  rly_spf_publish :: relay_spf_publish_config
  rly_outbound_policy :: outbound_policy_config
  rly_bounce :: bounce_config

definition retry_config_default :: retry_config where
  "retry_config_default =
     \<lparr>rc_intervals = [''5m'', ''10m'', ''30m'', ''1h'', ''2h'', ''4h'', ''8h'', ''12h''],
      rc_max_age = ''5d'', rc_max_attempts = 25\<rparr>"

definition relay_config_default :: relay_config where
  "relay_config_default =
     \<lparr>rly_enabled = False, rly_listen = [], rly_hostname = None, rly_spool_dir = [],
      rly_max_queue_size = 0, rly_delivery_threads = 0,
      rly_trusted_hosts = \<lparr>thc_hosts = [], thc_require_tls = False\<rparr>, rly_retry = retry_config_default,
      rly_tls = \<lparr>rtc_opportunistic = False, rtc_verify_certificates = False, rtc_min_version = []\<rparr>,
      rly_dkim = \<lparr>rdc_enabled = False, rdc_domains = []\<rparr>, rly_dmarc_publish = \<lparr>dpc_domains = []\<rparr>,
      rly_spf_publish = \<lparr>spc_domains = []\<rparr>, rly_outbound_policy = outbound_policy_config_default,
      rly_bounce = \<lparr>bnc_sender = None, bnc_include_original_headers = False\<rparr>\<rparr>"

section \<open>The instance\<close>

record server_wall_config =
  swc_global :: global_config
  swc_webui :: webui_config
  swc_acme :: acme_config
  swc_frontend :: "frontend_config list"
  swc_backend_pool :: "backend_pool_config list"
  swc_waf_ruleset :: "waf_ruleset_config list"
  swc_security_profiles :: "security_profile list"
  swc_log_profiles :: "log_profile list"
  swc_security :: security_config
  swc_antispam :: antispam_config
  swc_relay :: relay_config

definition server_wall_config_default :: server_wall_config where
  "server_wall_config_default =
     \<lparr>swc_global = global_config_default, swc_webui = webui_config_default, swc_acme = acme_config_default,
      swc_frontend = [], swc_backend_pool = [], swc_waf_ruleset = [], swc_security_profiles = [],
      swc_log_profiles = [], swc_security = security_config_default, swc_antispam = antispam_config_default,
      swc_relay = relay_config_default\<rparr>"

text \<open>TOML has no null, so a field that is \<^verbatim>\<open>None\<close> is left out of the file.  Three optional fields have
  a default that is not \<^verbatim>\<open>None\<close>; they come back as that default.\<close>

definition reread_option :: "'a option \<Rightarrow> 'a option \<Rightarrow> 'a option" where
  "reread_option d x = (case x of None \<Rightarrow> d | Some a \<Rightarrow> Some a)"

definition reread_geo :: "geo_config \<Rightarrow> geo_config" where
  "reread_geo = gc_database_path_update (reread_option default_geoip_db_path)"

definition reread_config :: "server_wall_config \<Rightarrow> server_wall_config" where
  "reread_config =
     swc_webui_update (wu_tls_cert_update (reread_option default_webui_cert) \<circ>
                       wu_tls_key_update (reread_option default_webui_key)) \<circ>
     swc_security_update (sec_geo_update reread_geo) \<circ>
     swc_security_profiles_update (map (sp_geo_update reread_geo))"

lemma reread_config_sections [simp]:
  "swc_global (reread_config c) = swc_global c"
  "swc_frontend (reread_config c) = swc_frontend c"
  "swc_backend_pool (reread_config c) = swc_backend_pool c"
  "swc_waf_ruleset (reread_config c) = swc_waf_ruleset c"
  "swc_log_profiles (reread_config c) = swc_log_profiles c"
  "swc_antispam (reread_config c) = swc_antispam c"
  "swc_relay (reread_config c) = swc_relay c"
  by (simp_all add: reread_config_def)

lemma reread_option_idem: "reread_option d (reread_option d x) = reread_option d x"
  by (cases x) (simp_all add: reread_option_def split: option.split)

lemma reread_geo_idem: "reread_geo (reread_geo g) = reread_geo g"
  by (cases g) (simp add: reread_geo_def reread_option_idem)

lemma reread_config_idem [simp]: "reread_config (reread_config c) = reread_config c"
  by (cases c)
     (simp add: reread_config_def comp_def reread_option_idem reread_geo_def)

end
