(* ===== verification/Config_Loader.thy ===== *)
theory Config_Loader
  imports Server_Config Request_Pipeline
begin

text \<open>
  Reading and writing the configuration file: \<^verbatim>\<open>config/loader.rs\<close> (drop-in directory, merging,
  validation) and \<^verbatim>\<open>config/writer.rs\<close> (lock file, temporary file, rename).  The disk is the content of
  its files and the entries of its directories.  The crate \<^verbatim>\<open>toml\<close>, failing system calls and what other
  processes do while the writer waits for the lock are fields of \<open>config_env\<close>.

  The lemmas show that validation accepts exactly the configurations that satisfy \<open>valid_config\<close>, and
  what a load sees after a write.
\<close>

section \<open>Disk and environment\<close>

record config_disk =
  cd_files :: "(str \<times> str) list"
  cd_dirs :: "str list"

datatype io_call =
    Io_Read str | Io_Read_Dir str | Io_Create str | Io_Write str | Io_Rename str | Io_Remove str

text \<open>\<open>ce_fault\<close> gives the error of a system call that fails, \<open>ce_partial\<close> how much of the data a failing
  write leaves in the file, \<open>ce_meanwhile\<close> what happens to the disk while attempt \<open>i\<close> at the lock sleeps.\<close>

record 'net config_env =
  ce_cidr :: "'net cidr_lib"
  ce_toml_from_str :: "str \<Rightarrow> (str, server_wall_config) result"
  ce_toml_to_string :: "server_wall_config \<Rightarrow> (str, str) result"
  ce_fault :: "io_call \<Rightarrow> str option"
  ce_partial :: nat
  ce_meanwhile :: "nat \<Rightarrow> config_disk \<Rightarrow> config_disk"
  ce_process_id :: nat

text \<open>The documented behaviour of \<^verbatim>\<open>toml\<close> with \<^verbatim>\<open>serde\<close>: what is written is UTF-8 and reads back as
  the same value, up to fields that are \<^verbatim>\<open>None\<close>.\<close>

definition toml_law :: "'net config_env \<Rightarrow> bool" where
  "toml_law env \<longleftrightarrow>
     (\<forall>c s. ce_toml_to_string env c = Inr s \<longrightarrow>
        ce_toml_from_str env s = Inr (reread_config c) \<and> utf8_valid s)"

definition disk_file :: "config_disk \<Rightarrow> str \<Rightarrow> str option" where
  "disk_file d path = map_of (cd_files d) path"

definition set_file :: "str \<Rightarrow> str \<Rightarrow> config_disk \<Rightarrow> config_disk" where
  "set_file path content d = d\<lparr>cd_files := AList.update path content (cd_files d)\<rparr>"

definition del_file :: "str \<Rightarrow> config_disk \<Rightarrow> config_disk" where
  "del_file path d = d\<lparr>cd_files := AList.delete path (cd_files d)\<rparr>"

text \<open>\<^verbatim>\<open>read_to_string\<close> fails on a missing file and on text that is not UTF-8.\<close>

definition read_to_string :: "'net config_env \<Rightarrow> config_disk \<Rightarrow> str \<Rightarrow> (str, str) result" where
  "read_to_string env d path =
     (case ce_fault env (Io_Read path) of
        Some e \<Rightarrow> Inl e
      | None \<Rightarrow>
          (case disk_file d path of
             None \<Rightarrow> Inl ''No such file or directory (os error 2)''
           | Some content \<Rightarrow>
               if utf8_valid content then Inr content
               else Inl ''stream did not contain valid UTF-8''))"

section \<open>Validation\<close>

definition requires_tls :: "frontend_config \<Rightarrow> bool" where
  "requires_tls f \<longleftrightarrow> fc_protocol f \<in> {PT_Https, PT_Smtps, PT_SmtpStarttls, PT_Imaps}"

definition has_tls_config :: "frontend_config \<Rightarrow> bool" where
  "has_tls_config f \<longleftrightarrow> fc_tls_cert f \<noteq> None \<or> fc_tls_pfx f \<noteq> None"

fun debug_protocol :: "protocol_type \<Rightarrow> str" where
  "debug_protocol PT_Https = ''Https''"
| "debug_protocol PT_Smtps = ''Smtps''"
| "debug_protocol PT_SmtpStarttls = ''SmtpStarttls''"
| "debug_protocol PT_Imaps = ''Imaps''"
| "debug_protocol PT_Tcp = ''Tcp''"
| "debug_protocol PT_Stratum = ''Stratum''"

definition in_quotes :: "str \<Rightarrow> str" where
  "in_quotes s = CHR 0x27 # s @ [CHR 0x27]"

text \<open>The tests of one iteration of the loop over the frontends.\<close>

definition validate_frontend :: "str list \<Rightarrow> frontend_config \<Rightarrow> (server_wall_error, unit) result" where
  "validate_frontend pool_names f =
     (if fc_backend_pool f \<notin> set pool_names then
        Inl (E_Config (''frontend '' @ in_quotes (fc_name f) @ '' references unknown backend_pool '' @
                       in_quotes (fc_backend_pool f)))
      else if requires_tls f \<and> \<not> has_tls_config f then
        Inl (E_Config (''frontend '' @ in_quotes (fc_name f) @ '' uses protocol '' @
                       debug_protocol (fc_protocol f) @ '' but has no TLS certificate configured''))
      else if fc_listen f = [] then
        Inl (E_Config (''frontend '' @ in_quotes (fc_name f) @ '' has no listen addresses''))
      else if fc_waf_enabled f \<and> fc_protocol f \<noteq> PT_Https then
        Inl (E_Config (''frontend '' @ in_quotes (fc_name f) @ '' has waf_enabled=true but protocol is '' @
                       debug_protocol (fc_protocol f) @ '' (WAF is HTTPS-only)''))
      else Inr ())"

text \<open>A loop that returns at the first error, and one that inserts each name into a hash set.\<close>

fun each_ok :: "('a \<Rightarrow> ('e, unit) result) \<Rightarrow> 'a list \<Rightarrow> ('e, unit) result" where
  "each_ok check [] = Inr ()"
| "each_ok check (x # xs) = bind_result (check x) (\<lambda>_. each_ok check xs)"

fun no_duplicates :: "(str \<Rightarrow> 'e) \<Rightarrow> str list \<Rightarrow> str list \<Rightarrow> ('e, unit) result" where
  "no_duplicates err seen [] = Inr ()"
| "no_duplicates err seen (n # ns) =
     (if n \<in> set seen then Inl (err n) else no_duplicates err (n # seen) ns)"

definition validate_config :: "'net cidr_lib \<Rightarrow> server_wall_config \<Rightarrow> (server_wall_error, unit) result" where
  "validate_config lib config =
     (let pool_names = map bpc_name (swc_backend_pool config) in
      bind_result (each_ok (validate_frontend pool_names) (swc_frontend config)) (\<lambda>_.
      bind_result (each_ok (\<lambda>pool. if bpc_backend pool = []
                              then Inl (E_Config (''backend_pool '' @ in_quotes (bpc_name pool) @ '' has no backends defined''))
                              else Inr ()) (swc_backend_pool config)) (\<lambda>_.
      bind_result (no_duplicates (\<lambda>n. E_Config (''duplicate frontend name '' @ in_quotes n)) []
                     (map fc_name (swc_frontend config))) (\<lambda>_.
      bind_result (no_duplicates (\<lambda>n. E_Config (''duplicate backend_pool name '' @ in_quotes n)) [] pool_names) (\<lambda>_.
      bind_result (each_ok (\<lambda>scanner. if contains (scc_command scanner) ''{file}'' then Inr ()
                              else Inl (E_Config (''antivirus scanner '' @ in_quotes (scc_name scanner) @
                                                  '' command must contain '' @ in_quotes ''{file}'' @ '' placeholder'')))
                     (avc_scanners (asc_antivirus (swc_antispam config)))) (\<lambda>_.
      each_ok (\<lambda>host. if net_parse lib host = None
                 then Inl (E_Config (''relay trusted_host '' @ in_quotes host @ '' is not a valid IP or CIDR''))
                 else Inr ())
        (thc_hosts (rly_trusted_hosts (swc_relay config)))))))))"

section \<open>Loading\<close>

definition load_config_from_str :: "'net config_env \<Rightarrow> str \<Rightarrow> (server_wall_error, server_wall_config) result" where
  "load_config_from_str env content =
     (case ce_toml_from_str env content of Inl e \<Rightarrow> Inl (E_Config e) | Inr c \<Rightarrow> Inr c)"

definition merge_config :: "server_wall_config \<Rightarrow> server_wall_config \<Rightarrow> server_wall_config" where
  "merge_config base fragment =
     base\<lparr>swc_frontend := swc_frontend base @ swc_frontend fragment,
          swc_backend_pool := swc_backend_pool base @ swc_backend_pool fragment,
          swc_waf_ruleset := swc_waf_ruleset base @ swc_waf_ruleset fragment,
          swc_antispam := (swc_antispam base)
            \<lparr>asc_domain_overrides := asc_domain_overrides (swc_antispam base) @
                                     asc_domain_overrides (swc_antispam fragment)\<rparr>,
          swc_relay := (swc_relay base)
            \<lparr>rly_dkim := (rly_dkim (swc_relay base))
               \<lparr>rdc_domains := rdc_domains (rly_dkim (swc_relay base)) @
                               rdc_domains (rly_dkim (swc_relay fragment))\<rparr>\<rparr>\<rparr>"

definition entry_path :: "str \<Rightarrow> str \<Rightarrow> str" where
  "entry_path dir name = dir @ ''/'' @ name"

text \<open>\<^verbatim>\<open>read_dir\<close>: the names of the files in a directory.  Its subdirectories are left out.\<close>

definition read_dir :: "config_disk \<Rightarrow> str \<Rightarrow> str list" where
  "read_dir d dir =
     filter (\<lambda>n. CHR ''/'' \<notin> set n) (List.map_filter (\<lambda>p. strip_prefix p (dir @ ''/'')) (map fst (cd_files d)))"

definition fragment_names :: "config_disk \<Rightarrow> str \<Rightarrow> str list" where
  "fragment_names d dir =
     sort (filter (\<lambda>n. path_extension (entry_path dir n) = Some ''toml'') (read_dir d dir))"

fun load_fragments ::
  "'net config_env \<Rightarrow> config_disk \<Rightarrow> str \<Rightarrow> str list \<Rightarrow> server_wall_config \<Rightarrow>
   (server_wall_error, server_wall_config) result" where
  "load_fragments env d dir [] config = Inr config"
| "load_fragments env d dir (n # ns) config =
     (let path = entry_path dir n in
      case read_to_string env d path of
        Inl e \<Rightarrow> Inl (E_ConfigLoad path e)
      | Inr content \<Rightarrow>
          (case ce_toml_from_str env content of
             Inl e \<Rightarrow> Inl (E_Config (path @ '': '' @ e))
           | Inr fragment \<Rightarrow> load_fragments env d dir ns (merge_config config fragment)))"

definition load_drop_ins ::
  "'net config_env \<Rightarrow> config_disk \<Rightarrow> server_wall_config \<Rightarrow> (server_wall_error, server_wall_config) result" where
  "load_drop_ins env d config =
     (case gl_config_dir (swc_global config) of
        None \<Rightarrow> Inr config
      | Some dir \<Rightarrow>
          if dir \<in> set (cd_dirs d) then
            (case ce_fault env (Io_Read_Dir dir) of
               Some e \<Rightarrow> Inl (E_ConfigLoad dir e)
             | None \<Rightarrow> load_fragments env d dir (fragment_names d dir) config)
          else Inr config)"

definition load_config ::
  "'net config_env \<Rightarrow> config_disk \<Rightarrow> str \<Rightarrow> (server_wall_error, server_wall_config) result" where
  "load_config env d path =
     (case read_to_string env d path of
        Inl e \<Rightarrow> Inl (E_ConfigLoad path e)
      | Inr content \<Rightarrow>
          bind_result (load_config_from_str env content) (\<lambda>config.
          bind_result (load_drop_ins env d config) (\<lambda>config.
          bind_result (validate_config (ce_cidr env) config) (\<lambda>_. Inr config))))"

section \<open>Writing\<close>

definition lock_path :: "str \<Rightarrow> str" where
  "lock_path path = path @ ''.lock''"

text \<open>The file the configuration is written to before it is renamed, in the parent directory of \<open>path\<close>;
  the root directory has no parent.\<close>

definition tmp_path :: "nat \<Rightarrow> str \<Rightarrow> str option" where
  "tmp_path pid path =
     (let p = rev (dropWhile (\<lambda>c. c = CHR ''/'') (rev path));
          name = ''.serverwall_cfg_tmp_'' @ show_nat pid @ ''.toml'' in
      if p = [] then None
      else Some (rev (dropWhile (\<lambda>c. c \<noteq> CHR ''/'') (rev p)) @ name))"

datatype lock_attempt = Lock_Taken config_disk | Lock_Busy | Lock_Failed str

text \<open>\<^verbatim>\<open>create_new\<close>: fails when the file exists.\<close>

definition try_lock :: "'net config_env \<Rightarrow> str \<Rightarrow> config_disk \<Rightarrow> lock_attempt" where
  "try_lock env path d =
     (if disk_file d (lock_path path) \<noteq> None then Lock_Busy
      else case ce_fault env (Io_Create (lock_path path)) of
        Some e \<Rightarrow> Lock_Failed e
      | None \<Rightarrow> Lock_Taken (set_file (lock_path path) [] d))"

text \<open>The loop over the attempts; \<open>left\<close> attempts remain, and the last one does not sleep.\<close>

fun acquire_lock_loop ::
  "'net config_env \<Rightarrow> str \<Rightarrow> nat \<Rightarrow> nat \<Rightarrow> config_disk \<Rightarrow> (server_wall_error, unit) result \<times> config_disk" where
  "acquire_lock_loop env path attempt 0 d = (Inl (E_Config ''config file is locked by another process''), d)"
| "acquire_lock_loop env path attempt (Suc left) d =
     (case try_lock env path d of
        Lock_Taken d' \<Rightarrow> (Inr (), d')
      | Lock_Failed e \<Rightarrow> (Inl (E_Io e), d)
      | Lock_Busy \<Rightarrow>
          acquire_lock_loop env path (Suc attempt) left
            (if left > 0 then ce_meanwhile env attempt d else d))"

definition acquire_lock ::
  "'net config_env \<Rightarrow> str \<Rightarrow> config_disk \<Rightarrow> (server_wall_error, unit) result \<times> config_disk" where
  "acquire_lock env path d = acquire_lock_loop env path 0 5 d"

definition remove_file :: "'net config_env \<Rightarrow> str \<Rightarrow> config_disk \<Rightarrow> config_disk" where
  "remove_file env path d = (if ce_fault env (Io_Remove path) = None then del_file path d else d)"

text \<open>Creating, filling and syncing the temporary file.\<close>

definition write_tmp ::
  "'net config_env \<Rightarrow> str \<Rightarrow> str \<Rightarrow> config_disk \<Rightarrow> (server_wall_error, unit) result \<times> config_disk" where
  "write_tmp env tmp content d =
     (case ce_fault env (Io_Create tmp) of
        Some e \<Rightarrow> (Inl (E_Io e), d)
      | None \<Rightarrow>
          (case ce_fault env (Io_Write tmp) of
             Some e \<Rightarrow> (Inl (E_Io e), set_file tmp (take (ce_partial env) content) d)
           | None \<Rightarrow> (Inr (), set_file tmp content d)))"

definition rename_file ::
  "'net config_env \<Rightarrow> str \<Rightarrow> str \<Rightarrow> config_disk \<Rightarrow> (server_wall_error, unit) result \<times> config_disk" where
  "rename_file env from to d =
     (case ce_fault env (Io_Rename to) of
        Some e \<Rightarrow> (Inl (E_Io e), remove_file env from d)
      | None \<Rightarrow>
          (case disk_file d from of
             None \<Rightarrow> (Inl (E_Io ''No such file or directory (os error 2)''), remove_file env from d)
           | Some content \<Rightarrow> (Inr (), del_file from (set_file to content d))))"

text \<open>The lock guard removes the lock file on every exit.\<close>

definition write_config_atomic ::
  "'net config_env \<Rightarrow> str \<Rightarrow> server_wall_config \<Rightarrow> config_disk \<Rightarrow>
   (server_wall_error, unit) result \<times> config_disk" where
  "write_config_atomic env path config d =
     (case ce_toml_to_string env config of
        Inl e \<Rightarrow> (Inl (E_Config (''failed to serialize config: '' @ e)), d)
      | Inr toml_str \<Rightarrow>
          (case tmp_path (ce_process_id env) path of
             None \<Rightarrow> (Inl (E_Config ''config path has no parent directory''), d)
           | Some tmp \<Rightarrow>
               (case acquire_lock env path d of
                  (Inl e, d1) \<Rightarrow> (Inl e, d1)
                | (Inr _, d1) \<Rightarrow>
                    (case write_tmp env tmp toml_str d1 of
                       (Inl e, d2) \<Rightarrow> (Inl e, remove_file env (lock_path path) d2)
                     | (Inr _, d2) \<Rightarrow>
                         (case rename_file env tmp path d2 of
                            (r, d3) \<Rightarrow> (r, remove_file env (lock_path path) d3))))))"

section \<open>What validation guarantees\<close>

definition valid_frontend :: "server_wall_config \<Rightarrow> frontend_config \<Rightarrow> bool" where
  "valid_frontend c f \<longleftrightarrow>
     fc_backend_pool f \<in> bpc_name ` set (swc_backend_pool c) \<and>
     (requires_tls f \<longrightarrow> has_tls_config f) \<and> fc_listen f \<noteq> [] \<and>
     (fc_waf_enabled f \<longrightarrow> fc_protocol f = PT_Https)"

definition valid_config :: "'net cidr_lib \<Rightarrow> server_wall_config \<Rightarrow> bool" where
  "valid_config lib c \<longleftrightarrow>
     (\<forall>f \<in> set (swc_frontend c). valid_frontend c f) \<and>
     (\<forall>p \<in> set (swc_backend_pool c). bpc_backend p \<noteq> []) \<and>
     distinct (map fc_name (swc_frontend c)) \<and> distinct (map bpc_name (swc_backend_pool c)) \<and>
     (\<forall>s \<in> set (avc_scanners (asc_antivirus (swc_antispam c))). contains (scc_command s) ''{file}'') \<and>
     (\<forall>h \<in> set (thc_hosts (rly_trusted_hosts (swc_relay c))). net_parse lib h \<noteq> None)"

lemma each_ok_Inr_iff: "each_ok check xs = Inr u \<longleftrightarrow> (\<forall>x \<in> set xs. check x = Inr ())"
  by (induction xs) (auto simp: bind_result_Inr_iff)

lemma no_duplicates_Inr_iff:
  "no_duplicates err seen ns = Inr u \<longleftrightarrow> distinct ns \<and> set ns \<inter> set seen = {}"
  by (induction ns arbitrary: seen) auto

lemma validate_frontend_Inr_iff:
  "validate_frontend (map bpc_name (swc_backend_pool c)) f = Inr () \<longleftrightarrow> valid_frontend c f"
  by (auto simp: validate_frontend_def valid_frontend_def)

lemma validate_config_Inr_iff: "validate_config lib c = Inr u \<longleftrightarrow> valid_config lib c"
  by (simp add: validate_config_def Let_def bind_result_Inr_iff each_ok_Inr_iff no_duplicates_Inr_iff
      validate_frontend_Inr_iff valid_config_def if_split [where P = "\<lambda>x. x = Inr ()"])

section \<open>What a load sees after a write\<close>

lemma disk_simps [simp]:
  "disk_file (set_file p content d) q = (if q = p then Some content else disk_file d q)"
  "disk_file (del_file p d) q = (if q = p then None else disk_file d q)"
  "cd_dirs (set_file p content d) = cd_dirs d" "cd_dirs (del_file p d) = cd_dirs d"
  "cd_dirs (remove_file env p d) = cd_dirs d"
  by (simp_all add: disk_file_def set_file_def del_file_def remove_file_def update_conv' delete_conv')

lemma remove_file_other [simp]: "q \<noteq> p \<Longrightarrow> disk_file (remove_file env p d) q = disk_file d q"
  by (simp add: remove_file_def)

lemma lock_path_neq [simp]: "lock_path path \<noteq> path" "path \<noteq> lock_path path"
  by (simp_all add: lock_path_def)

lemma tmp_path_ends: "tmp_path pid path = Some tmp \<Longrightarrow> last tmp = CHR ''l''"
  by (auto simp: tmp_path_def Let_def split: if_splits)

lemma tmp_neq_lock: "tmp_path pid path = Some tmp \<Longrightarrow> tmp \<noteq> lock_path p"
  using tmp_path_ends [of pid path tmp] by (auto simp: lock_path_def)

text \<open>Files that only the writer touches are its temporary file and its lock.\<close>

definition quiet :: "'net config_env \<Rightarrow> bool" where
  "quiet env \<longleftrightarrow> (\<forall>i d. ce_meanwhile env i d = d)"

lemma acquire_lock_loop_quiet:
  assumes "quiet env"
  shows "case acquire_lock_loop env path i n d of
           (Inl e, d') \<Rightarrow> d' = d
         | (Inr _, d') \<Rightarrow> disk_file d (lock_path path) = None \<and> d' = set_file (lock_path path) [] d"
  using assms
  by (induction n arbitrary: i)
     (auto simp: quiet_def try_lock_def split: option.splits lock_attempt.splits if_splits)

lemma write_config_atomic_effect:
  assumes "quiet env" and "tmp_path (ce_process_id env) path \<noteq> Some path"
    and "write_config_atomic env path c d = (r, d')"
  shows "cd_dirs d' = cd_dirs d"
    and "r = Inl e \<Longrightarrow> disk_file d' path = disk_file d path"
    and "r = Inr u \<Longrightarrow> \<exists>s. ce_toml_to_string env c = Inr s \<and> disk_file d' path = Some s"
proof -
  obtain rl dl where l: "acquire_lock env path d = (rl, dl)" by fastforce
  have dl: "cd_dirs dl = cd_dirs d" "\<And>q. q \<noteq> lock_path path \<Longrightarrow> disk_file dl q = disk_file d q"
    using acquire_lock_loop_quiet [OF assms(1), where path = path and i = 0 and n = 5 and d = d] l
    by (auto simp: acquire_lock_def split: sum.splits)
  show "cd_dirs d' = cd_dirs d"
    using assms(3) l dl
    by (auto simp: write_config_atomic_def write_tmp_def rename_file_def
        split: sum.splits option.splits prod.splits)
  show "r = Inl e \<Longrightarrow> disk_file d' path = disk_file d path"
    using assms(2,3) l dl
    by (auto simp: write_config_atomic_def write_tmp_def rename_file_def
        split: sum.splits option.splits prod.splits)
  show "r = Inr u \<Longrightarrow> \<exists>s. ce_toml_to_string env c = Inr s \<and> disk_file d' path = Some s"
    using assms(2,3) l dl
    by (auto simp: write_config_atomic_def write_tmp_def rename_file_def
        split: sum.splits option.splits prod.splits if_splits)
qed

lemma load_config_plain:
  assumes "cd_dirs d = []"
  shows "load_config env d path = Inr c \<longleftrightarrow>
         (\<exists>s. read_to_string env d path = Inr s \<and> ce_toml_from_str env s = Inr c \<and> valid_config (ce_cidr env) c)"
  using assms
  by (auto simp: load_config_def load_config_from_str_def load_drop_ins_def bind_result_Inr_iff
      validate_config_Inr_iff split: sum.splits option.splits)

lemma load_config_cong:
  assumes "cd_dirs d = []" "cd_dirs d' = []" "disk_file d' path = disk_file d path"
  shows "load_config env d' path = load_config env d path"
  using assms
  by (auto simp: load_config_def load_drop_ins_def read_to_string_def
      split: sum.splits option.splits intro!: arg_cong [where f = "bind_result x" for x])

lemma valid_config_reread [simp]: "valid_config lib (reread_config c) = valid_config lib c"
  by (simp add: valid_config_def valid_frontend_def)

end
