(* ===== verification/Config_Editor.thy ===== *)
theory Config_Editor
  imports Config_Loader
begin

text \<open>
  The editing operations of \<^verbatim>\<open>config/editor.rs\<close>, which the command line and the web interface share.  Every
  one of them loads the configuration, changes it, validates the result and writes it back
  (\<open>edit_config\<close>); what differs is the change.  The list sections of the configuration are accessed by
  a pair of functions whose laws are the locale \<open>config_section\<close>.
\<close>

section \<open>The shape of an edit\<close>

type_synonym modification = "server_wall_config \<Rightarrow> (server_wall_error, server_wall_config) result"
type_synonym operation = "config_disk \<Rightarrow> (server_wall_error, unit) result \<times> config_disk"

text \<open>Up to the write: load, modify, validate.\<close>

definition prepare_edit ::
  "'net config_env \<Rightarrow> str \<Rightarrow> modification \<Rightarrow> config_disk \<Rightarrow> (server_wall_error, server_wall_config) result" where
  "prepare_edit env path modify d =
     bind_result (load_config env d path) (\<lambda>c.
     bind_result (modify c) (\<lambda>c'.
     bind_result (validate_config (ce_cidr env) c') (\<lambda>_. Inr c')))"

definition edit_config :: "'net config_env \<Rightarrow> str \<Rightarrow> modification \<Rightarrow> operation" where
  "edit_config env path modify d =
     (case prepare_edit env path modify d of
        Inl e \<Rightarrow> (Inl e, d)
      | Inr c' \<Rightarrow> write_config_atomic env path c' d)"

section \<open>Changes of a list section\<close>

type_synonym 'a section_get = "server_wall_config \<Rightarrow> 'a list"
type_synonym 'a section_upd = "('a list \<Rightarrow> 'a list) \<Rightarrow> server_wall_config \<Rightarrow> server_wall_config"

text \<open>Append an element, unless its name is taken.\<close>

definition push_unique ::
  "'a section_get \<Rightarrow> 'a section_upd \<Rightarrow> ('a \<Rightarrow> str) \<Rightarrow> str \<Rightarrow> 'a \<Rightarrow> modification" where
  "push_unique get upd key msg x c =
     (if list_ex (\<lambda>y. key y = key x) (get c) then Inl (E_Config msg) else Inr (upd (\<lambda>ys. ys @ [x]) c))"

text \<open>Remove the elements of a name; an error when there is none.\<close>

definition remove_named ::
  "'a section_get \<Rightarrow> 'a section_upd \<Rightarrow> ('a \<Rightarrow> str) \<Rightarrow> str \<Rightarrow> str \<Rightarrow> modification" where
  "remove_named get upd key msg name c =
     (let c' = upd (filter (\<lambda>y. key y \<noteq> name)) c in
      if length (get c') = length (get c) then Inl (E_Config msg) else Inr c')"

text \<open>Replace the first element of a name.\<close>

fun position :: "('a \<Rightarrow> bool) \<Rightarrow> 'a list \<Rightarrow> nat option" where
  "position p [] = None"
| "position p (x # xs) = (if p x then Some 0 else map_option Suc (position p xs))"

definition replace_named ::
  "'a section_get \<Rightarrow> 'a section_upd \<Rightarrow> ('a \<Rightarrow> str) \<Rightarrow> str \<Rightarrow> str \<Rightarrow> 'a \<Rightarrow> modification" where
  "replace_named get upd key msg name x c =
     (case position (\<lambda>y. key y = name) (get c) of
        None \<Rightarrow> Inl (E_Config msg)
      | Some i \<Rightarrow> Inr (upd (\<lambda>ys. ys[i := x]) c))"

text \<open>Append a text that is not there yet; remove a text.\<close>

definition push_absent :: "str section_get \<Rightarrow> str section_upd \<Rightarrow> str \<Rightarrow> modification" where
  "push_absent get upd x c = Inr (if x \<in> set (get c) then c else upd (\<lambda>ys. ys @ [x]) c)"

definition remove_value :: "str section_upd \<Rightarrow> str \<Rightarrow> modification" where
  "remove_value upd x c = Inr (upd (filter (\<lambda>y. y \<noteq> x)) c)"

section \<open>The sections\<close>

abbreviation "frontends c \<equiv> swc_frontend c"
abbreviation "on_frontends f \<equiv> swc_frontend_update f"

abbreviation "backend_pools c \<equiv> swc_backend_pool c"
abbreviation "on_backend_pools f \<equiv> swc_backend_pool_update f"

abbreviation "waf_rulesets c \<equiv> swc_waf_ruleset c"
abbreviation "on_waf_rulesets f \<equiv> swc_waf_ruleset_update f"

abbreviation "dkim_domains c \<equiv> rdc_domains (rly_dkim (swc_relay c))"
abbreviation "on_dkim_domains f \<equiv> swc_relay_update (rly_dkim_update (rdc_domains_update f))"

abbreviation "acl_allow c \<equiv> iac_allow (sac_ip (sec_acl (swc_security c)))"
abbreviation "on_acl_allow f \<equiv> swc_security_update (sec_acl_update (sac_ip_update (iac_allow_update f)))"

abbreviation "acl_block c \<equiv> iac_block (sac_ip (sec_acl (swc_security c)))"
abbreviation "on_acl_block f \<equiv> swc_security_update (sec_acl_update (sac_ip_update (iac_block_update f)))"

abbreviation "spam_allow_ips c \<equiv> alc_ips (asc_allow (swc_antispam c))"
abbreviation "on_spam_allow_ips f \<equiv> swc_antispam_update (asc_allow_update (alc_ips_update f))"

abbreviation "spam_allow_senders c \<equiv> alc_senders (asc_allow (swc_antispam c))"
abbreviation "on_spam_allow_senders f \<equiv> swc_antispam_update (asc_allow_update (alc_senders_update f))"

abbreviation "spam_allow_domains c \<equiv> alc_sender_domains (asc_allow (swc_antispam c))"
abbreviation "on_spam_allow_domains f \<equiv> swc_antispam_update (asc_allow_update (alc_sender_domains_update f))"

abbreviation "spam_allow_recipients c \<equiv> alc_recipients (asc_allow (swc_antispam c))"
abbreviation "on_spam_allow_recipients f \<equiv> swc_antispam_update (asc_allow_update (alc_recipients_update f))"

abbreviation "spam_block_ips c \<equiv> alc_ips (asc_block (swc_antispam c))"
abbreviation "on_spam_block_ips f \<equiv> swc_antispam_update (asc_block_update (alc_ips_update f))"

abbreviation "spam_block_senders c \<equiv> alc_senders (asc_block (swc_antispam c))"
abbreviation "on_spam_block_senders f \<equiv> swc_antispam_update (asc_block_update (alc_senders_update f))"

abbreviation "spam_block_domains c \<equiv> alc_sender_domains (asc_block (swc_antispam c))"
abbreviation "on_spam_block_domains f \<equiv> swc_antispam_update (asc_block_update (alc_sender_domains_update f))"

abbreviation "spam_block_recipients c \<equiv> alc_recipients (asc_block (swc_antispam c))"
abbreviation "on_spam_block_recipients f \<equiv> swc_antispam_update (asc_block_update (alc_recipients_update f))"

abbreviation "dnsbl_zones c \<equiv> dc_lists (asc_dnsbl (swc_antispam c))"
abbreviation "on_dnsbl_zones f \<equiv> swc_antispam_update (asc_dnsbl_update (dc_lists_update f))"

abbreviation "surbl_zones c \<equiv> uac_surbl_zones (asc_url_analysis (swc_antispam c))"
abbreviation "on_surbl_zones f \<equiv> swc_antispam_update (asc_url_analysis_update (uac_surbl_zones_update f))"

abbreviation "scanner_list c \<equiv> avc_scanners (asc_antivirus (swc_antispam c))"
abbreviation "on_scanner_list f \<equiv> swc_antispam_update (asc_antivirus_update (avc_scanners_update f))"

abbreviation "relay_hosts c \<equiv> thc_hosts (rly_trusted_hosts (swc_relay c))"
abbreviation "on_relay_hosts f \<equiv> swc_relay_update (rly_trusted_hosts_update (thc_hosts_update f))"

abbreviation "dmarc_domains c \<equiv> dpc_domains (rly_dmarc_publish (swc_relay c))"
abbreviation "on_dmarc_domains f \<equiv> swc_relay_update (rly_dmarc_publish_update (dpc_domains_update f))"

abbreviation "spf_domains c \<equiv> spc_domains (rly_spf_publish (swc_relay c))"
abbreviation "on_spf_domains f \<equiv> swc_relay_update (rly_spf_publish_update (spc_domains_update f))"

abbreviation "rate_limits c \<equiv> sec_rate_limit (swc_security c)"
abbreviation "on_rate_limits f \<equiv> swc_security_update (sec_rate_limit_update f)"

abbreviation "sec_profiles c \<equiv> swc_security_profiles c"
abbreviation "on_sec_profiles f \<equiv> swc_security_profiles_update f"

abbreviation "log_profile_list c \<equiv> swc_log_profiles c"
abbreviation "on_log_profile_list f \<equiv> swc_log_profiles_update f"

abbreviation "domain_override_list c \<equiv> asc_domain_overrides (swc_antispam c)"
abbreviation "on_domain_override_list f \<equiv> swc_antispam_update (asc_domain_overrides_update f)"

section \<open>Frontends, pools, backends and rulesets\<close>

definition add_frontend :: "'net config_env \<Rightarrow> str \<Rightarrow> frontend_config \<Rightarrow> operation" where
  "add_frontend env path frontend = edit_config env path
     (push_unique frontends on_frontends fc_name (''frontend '' @ in_quotes (fc_name frontend) @ '' already exists'') frontend)"

definition remove_frontend :: "'net config_env \<Rightarrow> str \<Rightarrow> str \<Rightarrow> operation" where
  "remove_frontend env path name = edit_config env path
     (remove_named frontends on_frontends fc_name (''frontend '' @ in_quotes name @ '' not found'') name)"

definition update_frontend :: "'net config_env \<Rightarrow> str \<Rightarrow> str \<Rightarrow> frontend_config \<Rightarrow> operation" where
  "update_frontend env path name frontend = edit_config env path
     (replace_named frontends on_frontends fc_name (''frontend '' @ in_quotes name @ '' not found'') name (frontend\<lparr>fc_name := name\<rparr>))"

definition add_backend_pool :: "'net config_env \<Rightarrow> str \<Rightarrow> backend_pool_config \<Rightarrow> operation" where
  "add_backend_pool env path pool = edit_config env path
     (push_unique backend_pools on_backend_pools bpc_name (''backend pool '' @ in_quotes (bpc_name pool) @ '' already exists'') pool)"

definition remove_backend_pool :: "'net config_env \<Rightarrow> str \<Rightarrow> str \<Rightarrow> operation" where
  "remove_backend_pool env path name = edit_config env path
     (remove_named backend_pools on_backend_pools bpc_name (''backend pool '' @ in_quotes name @ '' not found'') name)"

definition update_backend_pool :: "'net config_env \<Rightarrow> str \<Rightarrow> str \<Rightarrow> backend_pool_config \<Rightarrow> operation" where
  "update_backend_pool env path name pool = edit_config env path
     (replace_named backend_pools on_backend_pools bpc_name (''backend pool '' @ in_quotes name @ '' not found'') name (pool\<lparr>bpc_name := name\<rparr>))"

text \<open>An edit of the backends of the first pool of a name.\<close>

definition in_pool ::
  "str \<Rightarrow> (backend_pool_config \<Rightarrow> (server_wall_error, backend_pool_config) result) \<Rightarrow> modification" where
  "in_pool pool_name modify c =
     (case position (\<lambda>p. bpc_name p = pool_name) (swc_backend_pool c) of
        None \<Rightarrow> Inl (E_Config (''backend pool '' @ in_quotes pool_name @ '' not found''))
      | Some i \<Rightarrow>
          bind_result (modify (swc_backend_pool c ! i))
            (\<lambda>pool. Inr (c\<lparr>swc_backend_pool := (swc_backend_pool c)[i := pool]\<rparr>)))"

definition add_backend :: "'net config_env \<Rightarrow> str \<Rightarrow> str \<Rightarrow> backend_config \<Rightarrow> operation" where
  "add_backend env path pool_name backend = edit_config env path
     (in_pool pool_name (\<lambda>pool.
        if list_ex (\<lambda>b. bc_name b = bc_name backend) (bpc_backend pool) then
          Inl (E_Config (''backend '' @ in_quotes (bc_name backend) @ '' already exists in pool '' @ in_quotes pool_name))
        else Inr (pool\<lparr>bpc_backend := bpc_backend pool @ [backend]\<rparr>)))"

definition remove_backend :: "'net config_env \<Rightarrow> str \<Rightarrow> str \<Rightarrow> str \<Rightarrow> operation" where
  "remove_backend env path pool_name backend_name = edit_config env path
     (in_pool pool_name (\<lambda>pool.
        let backends = filter (\<lambda>b. bc_name b \<noteq> backend_name) (bpc_backend pool) in
        if length backends = length (bpc_backend pool) then
          Inl (E_Config (''backend '' @ in_quotes backend_name @ '' not found in pool '' @ in_quotes pool_name))
        else Inr (pool\<lparr>bpc_backend := backends\<rparr>)))"

definition add_waf_ruleset :: "'net config_env \<Rightarrow> str \<Rightarrow> waf_ruleset_config \<Rightarrow> operation" where
  "add_waf_ruleset env path ruleset = edit_config env path
     (push_unique waf_rulesets on_waf_rulesets wrc_name (''WAF ruleset '' @ in_quotes (wrc_name ruleset) @ '' already exists'') ruleset)"

definition remove_waf_ruleset :: "'net config_env \<Rightarrow> str \<Rightarrow> str \<Rightarrow> operation" where
  "remove_waf_ruleset env path name = edit_config env path
     (remove_named waf_rulesets on_waf_rulesets wrc_name (''WAF ruleset '' @ in_quotes name @ '' not found'') name)"

definition update_waf_ruleset :: "'net config_env \<Rightarrow> str \<Rightarrow> str \<Rightarrow> waf_ruleset_config \<Rightarrow> operation" where
  "update_waf_ruleset env path name ruleset = edit_config env path
     (replace_named waf_rulesets on_waf_rulesets wrc_name (''WAF ruleset '' @ in_quotes name @ '' not found'') name (ruleset\<lparr>wrc_name := name\<rparr>))"

definition add_dkim_domain :: "'net config_env \<Rightarrow> str \<Rightarrow> dkim_domain_config \<Rightarrow> operation" where
  "add_dkim_domain env path domain = edit_config env path
     (push_unique dkim_domains on_dkim_domains ddc_domain (''DKIM domain '' @ in_quotes (ddc_domain domain) @ '' already configured'') domain)"

definition remove_dkim_domain :: "'net config_env \<Rightarrow> str \<Rightarrow> str \<Rightarrow> operation" where
  "remove_dkim_domain env path name = edit_config env path
     (remove_named dkim_domains on_dkim_domains ddc_domain (''DKIM domain '' @ in_quotes name @ '' not found'') name)"

section \<open>Access lists and spam lists\<close>

definition add_acl_allow :: "'net config_env \<Rightarrow> str \<Rightarrow> str \<Rightarrow> operation" where
  "add_acl_allow env path ip = edit_config env path
     (push_absent acl_allow on_acl_allow ip)"

definition add_acl_block :: "'net config_env \<Rightarrow> str \<Rightarrow> str \<Rightarrow> operation" where
  "add_acl_block env path ip = edit_config env path
     (push_absent acl_block on_acl_block ip)"

definition remove_acl_ip :: "'net config_env \<Rightarrow> str \<Rightarrow> str \<Rightarrow> operation" where
  "remove_acl_ip env path ip = edit_config env path
     (\<lambda>c. bind_result (remove_value on_acl_allow ip c) (remove_value on_acl_block ip))"

definition add_antispam_allow_ip :: "'net config_env \<Rightarrow> str \<Rightarrow> str \<Rightarrow> operation" where
  "add_antispam_allow_ip env path ip = edit_config env path
     (push_absent spam_allow_ips on_spam_allow_ips ip)"

definition remove_antispam_allow_ip :: "'net config_env \<Rightarrow> str \<Rightarrow> str \<Rightarrow> operation" where
  "remove_antispam_allow_ip env path ip = edit_config env path
     (remove_value on_spam_allow_ips ip)"

definition add_antispam_allow_sender :: "'net config_env \<Rightarrow> str \<Rightarrow> str \<Rightarrow> operation" where
  "add_antispam_allow_sender env path sender = edit_config env path
     (push_absent spam_allow_senders on_spam_allow_senders (to_lower sender))"

definition remove_antispam_allow_sender :: "'net config_env \<Rightarrow> str \<Rightarrow> str \<Rightarrow> operation" where
  "remove_antispam_allow_sender env path sender = edit_config env path
     (remove_value on_spam_allow_senders (to_lower sender))"

definition add_antispam_allow_domain :: "'net config_env \<Rightarrow> str \<Rightarrow> str \<Rightarrow> operation" where
  "add_antispam_allow_domain env path domain = edit_config env path
     (push_absent spam_allow_domains on_spam_allow_domains (to_lower domain))"

definition remove_antispam_allow_domain :: "'net config_env \<Rightarrow> str \<Rightarrow> str \<Rightarrow> operation" where
  "remove_antispam_allow_domain env path domain = edit_config env path
     (remove_value on_spam_allow_domains (to_lower domain))"

definition add_antispam_allow_recipient :: "'net config_env \<Rightarrow> str \<Rightarrow> str \<Rightarrow> operation" where
  "add_antispam_allow_recipient env path recipient = edit_config env path
     (push_absent spam_allow_recipients on_spam_allow_recipients (to_lower recipient))"

definition remove_antispam_allow_recipient :: "'net config_env \<Rightarrow> str \<Rightarrow> str \<Rightarrow> operation" where
  "remove_antispam_allow_recipient env path recipient = edit_config env path
     (remove_value on_spam_allow_recipients (to_lower recipient))"

definition add_antispam_block_ip :: "'net config_env \<Rightarrow> str \<Rightarrow> str \<Rightarrow> operation" where
  "add_antispam_block_ip env path ip = edit_config env path
     (push_absent spam_block_ips on_spam_block_ips ip)"

definition remove_antispam_block_ip :: "'net config_env \<Rightarrow> str \<Rightarrow> str \<Rightarrow> operation" where
  "remove_antispam_block_ip env path ip = edit_config env path
     (remove_value on_spam_block_ips ip)"

definition add_antispam_block_sender :: "'net config_env \<Rightarrow> str \<Rightarrow> str \<Rightarrow> operation" where
  "add_antispam_block_sender env path sender = edit_config env path
     (push_absent spam_block_senders on_spam_block_senders (to_lower sender))"

definition remove_antispam_block_sender :: "'net config_env \<Rightarrow> str \<Rightarrow> str \<Rightarrow> operation" where
  "remove_antispam_block_sender env path sender = edit_config env path
     (remove_value on_spam_block_senders (to_lower sender))"

definition add_antispam_block_domain :: "'net config_env \<Rightarrow> str \<Rightarrow> str \<Rightarrow> operation" where
  "add_antispam_block_domain env path domain = edit_config env path
     (push_absent spam_block_domains on_spam_block_domains (to_lower domain))"

definition remove_antispam_block_domain :: "'net config_env \<Rightarrow> str \<Rightarrow> str \<Rightarrow> operation" where
  "remove_antispam_block_domain env path domain = edit_config env path
     (remove_value on_spam_block_domains (to_lower domain))"

definition add_antispam_block_recipient :: "'net config_env \<Rightarrow> str \<Rightarrow> str \<Rightarrow> operation" where
  "add_antispam_block_recipient env path recipient = edit_config env path
     (push_absent spam_block_recipients on_spam_block_recipients (to_lower recipient))"

definition remove_antispam_block_recipient :: "'net config_env \<Rightarrow> str \<Rightarrow> str \<Rightarrow> operation" where
  "remove_antispam_block_recipient env path recipient = edit_config env path
     (remove_value on_spam_block_recipients (to_lower recipient))"

definition add_antispam_dnsbl_zone :: "'net config_env \<Rightarrow> str \<Rightarrow> dnsbl_zone \<Rightarrow> operation" where
  "add_antispam_dnsbl_zone env path zone = edit_config env path
     (push_unique dnsbl_zones on_dnsbl_zones dz_zone (''DNSBL zone '' @ in_quotes (dz_zone zone) @ '' already configured'') zone)"

definition remove_antispam_dnsbl_zone :: "'net config_env \<Rightarrow> str \<Rightarrow> str \<Rightarrow> operation" where
  "remove_antispam_dnsbl_zone env path name = edit_config env path
     (remove_named dnsbl_zones on_dnsbl_zones dz_zone (''DNSBL zone '' @ in_quotes name @ '' not found'') name)"

definition set_antispam_config :: "'net config_env \<Rightarrow> str \<Rightarrow> antispam_config \<Rightarrow> operation" where
  "set_antispam_config env path antispam = edit_config env path
     (\<lambda>c. Inr (c\<lparr>swc_antispam := antispam\<rparr>))"

subsection \<open>Weights and switches of the checks\<close>

record check_field_update =
  cfu_enabled :: "bool option"
  cfu_weight :: "real option"

record residential_spf_field_update =
  rfu_enabled :: "bool option"
  rfu_weight :: "real option"
  rfu_reject :: "bool option"
  rfu_check_pbl :: "bool option"
  rfu_pbl_zone :: "str option"
  rfu_softfail_triggers :: "bool option"
  rfu_neutral_triggers :: "bool option"

record antivirus_field_update =
  afu_enabled :: "bool option"
  afu_weight :: "real option"
  afu_reject_on_virus :: "bool option"
  afu_on_scanner_error :: "str option"
  afu_on_scanner_timeout :: "str option"

record spf_severity_field_update =
  sfu_fail :: "real option"
  sfu_softfail :: "real option"
  sfu_neutral :: "real option"
  sfu_none :: "real option"

record antispam_checks_update =
  acu_enabled :: "bool option"
  acu_possible_spam_threshold :: "u8 option"
  acu_definite_spam_threshold :: "u8 option"
  acu_max_check_duration :: "str option"
  acu_dnsbl :: "check_field_update option"
  acu_spf :: "check_field_update option"
  acu_dkim :: "check_field_update option"
  acu_dmarc :: "check_field_update option"
  acu_rdns :: "check_field_update option"
  acu_helo :: "check_field_update option"
  acu_early_talker :: "check_field_update option"
  acu_content :: "check_field_update option"
  acu_url_analysis :: "check_field_update option"
  acu_attachment :: "check_field_update option"
  acu_html :: "check_field_update option"
  acu_header_analysis :: "check_field_update option"
  acu_charset :: "check_field_update option"
  acu_bulk :: "check_field_update option"
  acu_ratio :: "check_field_update option"
  acu_residential_spf :: "residential_spf_field_update option"
  acu_antivirus :: "antivirus_field_update option"
  acu_spf_severity :: "spf_severity_field_update option"

text \<open>\<^verbatim>\<open>if let Some(v) = x { field = v }\<close>.\<close>

definition override :: "'a option \<Rightarrow> 'a \<Rightarrow> 'a" where
  "override x old = (case x of None \<Rightarrow> old | Some v \<Rightarrow> v)"

definition apply_check ::
  "((bool \<Rightarrow> bool) \<Rightarrow> 'c \<Rightarrow> 'c) \<Rightarrow> ((real \<Rightarrow> real) \<Rightarrow> 'c \<Rightarrow> 'c) \<Rightarrow> check_field_update option \<Rightarrow> 'c \<Rightarrow> 'c" where
  "apply_check upd_enabled upd_weight u field =
     (case u of None \<Rightarrow> field
      | Some c \<Rightarrow> upd_weight (override (cfu_weight c)) (upd_enabled (override (cfu_enabled c)) field))"

definition apply_residential :: "residential_spf_field_update option \<Rightarrow> residential_sender_config \<Rightarrow> residential_sender_config" where
  "apply_residential u r =
     (case u of None \<Rightarrow> r
      | Some c \<Rightarrow> r\<lparr>rsc_enabled := override (rfu_enabled c) (rsc_enabled r),
                   rsc_weight := override (rfu_weight c) (rsc_weight r),
                   rsc_reject := override (rfu_reject c) (rsc_reject r),
                   rsc_check_pbl := override (rfu_check_pbl c) (rsc_check_pbl r),
                   rsc_pbl_zone := override (rfu_pbl_zone c) (rsc_pbl_zone r),
                   rsc_softfail_triggers := override (rfu_softfail_triggers c) (rsc_softfail_triggers r),
                   rsc_neutral_triggers := override (rfu_neutral_triggers c) (rsc_neutral_triggers r)\<rparr>)"

definition apply_antivirus :: "antivirus_field_update option \<Rightarrow> antivirus_config \<Rightarrow> antivirus_config" where
  "apply_antivirus u a =
     (case u of None \<Rightarrow> a
      | Some c \<Rightarrow> a\<lparr>avc_enabled := override (afu_enabled c) (avc_enabled a),
                   avc_weight := override (afu_weight c) (avc_weight a),
                   avc_reject_on_virus := override (afu_reject_on_virus c) (avc_reject_on_virus a),
                   avc_on_scanner_error := override (afu_on_scanner_error c) (avc_on_scanner_error a),
                   avc_on_scanner_timeout := override (afu_on_scanner_timeout c) (avc_on_scanner_timeout a)\<rparr>)"

definition apply_spf_severity :: "spf_severity_field_update option \<Rightarrow> spf_severity \<Rightarrow> spf_severity" where
  "apply_spf_severity u s =
     (case u of None \<Rightarrow> s
      | Some c \<Rightarrow> s\<lparr>sv_fail := override (sfu_fail c) (sv_fail s),
                   sv_softfail := override (sfu_softfail c) (sv_softfail s),
                   sv_neutral := override (sfu_neutral c) (sv_neutral s),
                   sv_none := override (sfu_none c) (sv_none s)\<rparr>)"

definition apply_checks_update :: "antispam_checks_update \<Rightarrow> antispam_config \<Rightarrow> antispam_config" where
  "apply_checks_update u a =
     a\<lparr>asc_enabled := override (acu_enabled u) (asc_enabled a),
       asc_possible_spam_threshold := override (acu_possible_spam_threshold u) (asc_possible_spam_threshold a),
       asc_definite_spam_threshold := override (acu_definite_spam_threshold u) (asc_definite_spam_threshold a),
       asc_max_check_duration := override (acu_max_check_duration u) (asc_max_check_duration a),
       asc_dnsbl := apply_check dc_enabled_update dc_weight_update (acu_dnsbl u) (asc_dnsbl a),
       asc_spf := sfc_severity_update (apply_spf_severity (acu_spf_severity u))
                    (apply_check sfc_enabled_update sfc_weight_update (acu_spf u) (asc_spf a)),
       asc_dkim := apply_check cw_enabled_update cw_weight_update (acu_dkim u) (asc_dkim a),
       asc_dmarc := apply_check dmc_enabled_update dmc_weight_update (acu_dmarc u) (asc_dmarc a),
       asc_rdns := apply_check cw_enabled_update cw_weight_update (acu_rdns u) (asc_rdns a),
       asc_helo := apply_check cw_enabled_update cw_weight_update (acu_helo u) (asc_helo a),
       asc_early_talker := apply_check cw_enabled_update cw_weight_update (acu_early_talker u) (asc_early_talker a),
       asc_content := apply_check ccc_enabled_update ccc_weight_update (acu_content u) (asc_content a),
       asc_url_analysis := apply_check uac_enabled_update uac_weight_update (acu_url_analysis u) (asc_url_analysis a),
       asc_attachment := apply_check atc_enabled_update atc_weight_update (acu_attachment u) (asc_attachment a),
       asc_html := apply_check cw_enabled_update cw_weight_update (acu_html u) (asc_html a),
       asc_header_analysis := apply_check cw_enabled_update cw_weight_update (acu_header_analysis u) (asc_header_analysis a),
       asc_charset := apply_check cw_enabled_update cw_weight_update (acu_charset u) (asc_charset a),
       asc_bulk := apply_check cw_enabled_update cw_weight_update (acu_bulk u) (asc_bulk a),
       asc_ratio := apply_check cw_enabled_update cw_weight_update (acu_ratio u) (asc_ratio a),
       asc_residential_spf := apply_residential (acu_residential_spf u) (asc_residential_spf a),
       asc_antivirus := apply_antivirus (acu_antivirus u) (asc_antivirus a)\<rparr>"

definition update_antispam_checks :: "'net config_env \<Rightarrow> str \<Rightarrow> antispam_checks_update \<Rightarrow> operation" where
  "update_antispam_checks env path u = edit_config env path
     (\<lambda>c. Inr (swc_antispam_update (apply_checks_update u) c))"

definition add_antispam_surbl_zone :: "'net config_env \<Rightarrow> str \<Rightarrow> str \<Rightarrow> operation" where
  "add_antispam_surbl_zone env path zone = edit_config env path
     (push_unique surbl_zones on_surbl_zones id (''SURBL zone '' @ in_quotes zone @ '' already exists'') zone)"

definition remove_antispam_surbl_zone :: "'net config_env \<Rightarrow> str \<Rightarrow> str \<Rightarrow> operation" where
  "remove_antispam_surbl_zone env path name = edit_config env path
     (remove_named surbl_zones on_surbl_zones id (''SURBL zone '' @ in_quotes name @ '' not found'') name)"

definition add_antispam_scanner :: "'net config_env \<Rightarrow> str \<Rightarrow> scanner_config \<Rightarrow> operation" where
  "add_antispam_scanner env path scanner = edit_config env path
     (push_unique scanner_list on_scanner_list scc_name (''scanner '' @ in_quotes (scc_name scanner) @ '' already exists'') scanner)"

definition remove_antispam_scanner :: "'net config_env \<Rightarrow> str \<Rightarrow> str \<Rightarrow> operation" where
  "remove_antispam_scanner env path name = edit_config env path
     (remove_named scanner_list on_scanner_list scc_name (''scanner '' @ in_quotes name @ '' not found'') name)"

section \<open>Relay and published records\<close>

definition add_relay_trusted_host :: "'net config_env \<Rightarrow> str \<Rightarrow> str \<Rightarrow> operation" where
  "add_relay_trusted_host env path host = edit_config env path
     (push_unique relay_hosts on_relay_hosts id (''trusted host '' @ in_quotes host @ '' already exists'') host)"

definition remove_trusted_host :: "'net config_env \<Rightarrow> str \<Rightarrow> str \<Rightarrow> operation" where
  "remove_trusted_host env path name = edit_config env path
     (remove_named relay_hosts on_relay_hosts id (''trusted host '' @ in_quotes name @ '' not found'') name)"

definition add_dmarc_policy_domain :: "'net config_env \<Rightarrow> str \<Rightarrow> dmarc_policy_domain \<Rightarrow> operation" where
  "add_dmarc_policy_domain env path domain = edit_config env path
     (push_unique dmarc_domains on_dmarc_domains dpd_domain (''DMARC policy for '' @ in_quotes (dpd_domain domain) @ '' already configured'') domain)"

definition update_dmarc_policy_domain :: "'net config_env \<Rightarrow> str \<Rightarrow> str \<Rightarrow> dmarc_policy_domain \<Rightarrow> operation" where
  "update_dmarc_policy_domain env path name domain = edit_config env path
     (replace_named dmarc_domains on_dmarc_domains dpd_domain (''DMARC policy for '' @ in_quotes name @ '' not found'') name (domain\<lparr>dpd_domain := name\<rparr>))"

definition remove_dmarc_policy_domain :: "'net config_env \<Rightarrow> str \<Rightarrow> str \<Rightarrow> operation" where
  "remove_dmarc_policy_domain env path name = edit_config env path
     (remove_named dmarc_domains on_dmarc_domains dpd_domain (''DMARC policy for '' @ in_quotes name @ '' not found'') name)"

definition add_spf_domain :: "'net config_env \<Rightarrow> str \<Rightarrow> spf_domain_config \<Rightarrow> operation" where
  "add_spf_domain env path domain = edit_config env path
     (push_unique spf_domains on_spf_domains sdc_domain (''SPF record for '' @ in_quotes (sdc_domain domain) @ '' already configured'') domain)"

definition update_spf_domain :: "'net config_env \<Rightarrow> str \<Rightarrow> str \<Rightarrow> spf_domain_config \<Rightarrow> operation" where
  "update_spf_domain env path name domain = edit_config env path
     (replace_named spf_domains on_spf_domains sdc_domain (''SPF record for '' @ in_quotes name @ '' not found'') name (domain\<lparr>sdc_domain := name\<rparr>))"

definition remove_spf_domain :: "'net config_env \<Rightarrow> str \<Rightarrow> str \<Rightarrow> operation" where
  "remove_spf_domain env path name = edit_config env path
     (remove_named spf_domains on_spf_domains sdc_domain (''SPF record for '' @ in_quotes name @ '' not found'') name)"

definition set_relay_config :: "'net config_env \<Rightarrow> str \<Rightarrow> relay_config \<Rightarrow> operation" where
  "set_relay_config env path relay = edit_config env path
     (\<lambda>c. Inr (swc_relay_update (\<lambda>_. relay) c))"

section \<open>Security settings and profiles\<close>

definition update_security_tls :: "'net config_env \<Rightarrow> str \<Rightarrow> security_tls_config \<Rightarrow> operation" where
  "update_security_tls env path new_tls = edit_config env path
     (\<lambda>c. Inr (swc_security_update (sec_tls_update (\<lambda>_. new_tls)) c))"

definition update_security_geo :: "'net config_env \<Rightarrow> str \<Rightarrow> geo_config \<Rightarrow> operation" where
  "update_security_geo env path new_geo = edit_config env path
     (\<lambda>c. Inr (swc_security_update (sec_geo_update (\<lambda>_. new_geo)) c))"

definition update_security_headers :: "'net config_env \<Rightarrow> str \<Rightarrow> security_headers_config \<Rightarrow> operation" where
  "update_security_headers env path new_headers = edit_config env path
     (\<lambda>c. Inr (swc_security_update (sec_headers_update (\<lambda>_. new_headers)) c))"

definition update_security_bot :: "'net config_env \<Rightarrow> str \<Rightarrow> bot_detection_config \<Rightarrow> operation" where
  "update_security_bot env path new_bot = edit_config env path
     (\<lambda>c. Inr (swc_security_update (sec_bot_detection_update (\<lambda>_. new_bot)) c))"

definition update_security_cookies :: "'net config_env \<Rightarrow> str \<Rightarrow> cookie_security_config \<Rightarrow> operation" where
  "update_security_cookies env path new_cookies = edit_config env path
     (\<lambda>c. Inr (swc_security_update (sec_cookies_update (\<lambda>_. new_cookies)) c))"

definition update_security_acl :: "'net config_env \<Rightarrow> str \<Rightarrow> security_acl_config \<Rightarrow> operation" where
  "update_security_acl env path new_acl = edit_config env path
     (\<lambda>c. Inr (swc_security_update (sec_acl_update (\<lambda>_. new_acl)) c))"

definition add_security_rate_limit :: "'net config_env \<Rightarrow> str \<Rightarrow> rate_limit_config \<Rightarrow> operation" where
  "add_security_rate_limit env path rule = edit_config env path
     (push_unique rate_limits on_rate_limits rlc_name (''rate limit rule '' @ in_quotes (rlc_name rule) @ '' already exists'') rule)"

definition remove_security_rate_limit :: "'net config_env \<Rightarrow> str \<Rightarrow> str \<Rightarrow> operation" where
  "remove_security_rate_limit env path name = edit_config env path
     (remove_named rate_limits on_rate_limits rlc_name (''rate limit rule '' @ in_quotes name @ '' not found'') name)"

definition add_security_profile :: "'net config_env \<Rightarrow> str \<Rightarrow> security_profile \<Rightarrow> operation" where
  "add_security_profile env path profile = edit_config env path
     (push_unique sec_profiles on_sec_profiles sp_name (''Security profile '' @ in_quotes (sp_name profile) @ '' already exists'') profile)"

definition update_security_profile :: "'net config_env \<Rightarrow> str \<Rightarrow> str \<Rightarrow> security_profile \<Rightarrow> operation" where
  "update_security_profile env path name profile = edit_config env path
     (replace_named sec_profiles on_sec_profiles sp_name (''Security profile '' @ in_quotes name @ '' not found'') name profile)"

definition remove_security_profile :: "'net config_env \<Rightarrow> str \<Rightarrow> str \<Rightarrow> operation" where
  "remove_security_profile env path name = edit_config env path
     (remove_named sec_profiles on_sec_profiles sp_name (''Security profile '' @ in_quotes name @ '' not found'') name)"

definition add_log_profile :: "'net config_env \<Rightarrow> str \<Rightarrow> log_profile \<Rightarrow> operation" where
  "add_log_profile env path profile = edit_config env path
     (push_unique log_profile_list on_log_profile_list lp_name (''Logging profile '' @ in_quotes (lp_name profile) @ '' already exists'') profile)"

definition update_log_profile :: "'net config_env \<Rightarrow> str \<Rightarrow> str \<Rightarrow> log_profile \<Rightarrow> operation" where
  "update_log_profile env path name profile = edit_config env path
     (replace_named log_profile_list on_log_profile_list lp_name (''Logging profile '' @ in_quotes name @ '' not found'') name profile)"

definition remove_log_profile :: "'net config_env \<Rightarrow> str \<Rightarrow> str \<Rightarrow> operation" where
  "remove_log_profile env path name = edit_config env path
     (remove_named log_profile_list on_log_profile_list lp_name (''Logging profile '' @ in_quotes name @ '' not found'') name)"

definition update_global_config :: "'net config_env \<Rightarrow> str \<Rightarrow> global_config \<Rightarrow> operation" where
  "update_global_config env path glob = edit_config env path
     (\<lambda>c. Inr (swc_global_update (\<lambda>_. glob) c))"

definition update_acme_config :: "'net config_env \<Rightarrow> str \<Rightarrow> acme_config \<Rightarrow> operation" where
  "update_acme_config env path acme = edit_config env path
     (\<lambda>c. Inr (swc_acme_update (\<lambda>_. acme) c))"

definition add_antispam_domain_override :: "'net config_env \<Rightarrow> str \<Rightarrow> domain_override \<Rightarrow> operation" where
  "add_antispam_domain_override env path entry = edit_config env path
     (push_unique domain_override_list on_domain_override_list do_domain (''domain override for '' @ in_quotes (do_domain entry) @ '' already exists'') entry)"

definition update_antispam_domain_override :: "'net config_env \<Rightarrow> str \<Rightarrow> str \<Rightarrow> domain_override \<Rightarrow> operation" where
  "update_antispam_domain_override env path name entry = edit_config env path
     (replace_named domain_override_list on_domain_override_list do_domain (''domain override for '' @ in_quotes name @ '' not found'') name (entry\<lparr>do_domain := name\<rparr>))"

definition remove_antispam_domain_override :: "'net config_env \<Rightarrow> str \<Rightarrow> str \<Rightarrow> operation" where
  "remove_antispam_domain_override env path name = edit_config env path
     (remove_named domain_override_list on_domain_override_list do_domain (''domain override for '' @ in_quotes name @ '' not found'') name)"

definition update_webui_allow_list :: "'net config_env \<Rightarrow> str \<Rightarrow> str list \<Rightarrow> operation" where
  "update_webui_allow_list env path allow = edit_config env path
     (\<lambda>c. Inr (swc_webui_update (wu_allow_list_update (\<lambda>_. allow)) c))"

definition update_webui_config :: "'net config_env \<Rightarrow> str \<Rightarrow> webui_config \<Rightarrow> operation" where
  "update_webui_config env path webui = edit_config env path
     (\<lambda>c. Inr (swc_webui_update (\<lambda>_. webui) c))"

text \<open>All the operations.\<close>

inductive editor_operation :: "'net config_env \<Rightarrow> str \<Rightarrow> operation \<Rightarrow> bool" for env path where
  "editor_operation env path (add_frontend env path frontend)"
| "editor_operation env path (remove_frontend env path name)"
| "editor_operation env path (update_frontend env path name frontend)"
| "editor_operation env path (add_backend_pool env path pool)"
| "editor_operation env path (remove_backend_pool env path name)"
| "editor_operation env path (update_backend_pool env path name pool)"
| "editor_operation env path (add_backend env path pool_name backend)"
| "editor_operation env path (remove_backend env path pool_name backend_name)"
| "editor_operation env path (add_waf_ruleset env path ruleset)"
| "editor_operation env path (remove_waf_ruleset env path name)"
| "editor_operation env path (update_waf_ruleset env path name ruleset)"
| "editor_operation env path (add_dkim_domain env path domain)"
| "editor_operation env path (remove_dkim_domain env path name)"
| "editor_operation env path (add_acl_allow env path ip)"
| "editor_operation env path (add_acl_block env path ip)"
| "editor_operation env path (remove_acl_ip env path ip)"
| "editor_operation env path (add_antispam_allow_ip env path ip)"
| "editor_operation env path (remove_antispam_allow_ip env path ip)"
| "editor_operation env path (add_antispam_allow_sender env path sender)"
| "editor_operation env path (remove_antispam_allow_sender env path sender)"
| "editor_operation env path (add_antispam_allow_domain env path domain)"
| "editor_operation env path (remove_antispam_allow_domain env path domain)"
| "editor_operation env path (add_antispam_allow_recipient env path recipient)"
| "editor_operation env path (remove_antispam_allow_recipient env path recipient)"
| "editor_operation env path (add_antispam_block_ip env path ip)"
| "editor_operation env path (remove_antispam_block_ip env path ip)"
| "editor_operation env path (add_antispam_block_sender env path sender)"
| "editor_operation env path (remove_antispam_block_sender env path sender)"
| "editor_operation env path (add_antispam_block_domain env path domain)"
| "editor_operation env path (remove_antispam_block_domain env path domain)"
| "editor_operation env path (add_antispam_block_recipient env path recipient)"
| "editor_operation env path (remove_antispam_block_recipient env path recipient)"
| "editor_operation env path (add_antispam_dnsbl_zone env path zone)"
| "editor_operation env path (remove_antispam_dnsbl_zone env path name)"
| "editor_operation env path (set_antispam_config env path antispam)"
| "editor_operation env path (update_antispam_checks env path u)"
| "editor_operation env path (add_antispam_surbl_zone env path zone)"
| "editor_operation env path (remove_antispam_surbl_zone env path name)"
| "editor_operation env path (add_antispam_scanner env path scanner)"
| "editor_operation env path (remove_antispam_scanner env path name)"
| "editor_operation env path (add_relay_trusted_host env path host)"
| "editor_operation env path (remove_trusted_host env path name)"
| "editor_operation env path (add_dmarc_policy_domain env path domain)"
| "editor_operation env path (update_dmarc_policy_domain env path name domain)"
| "editor_operation env path (remove_dmarc_policy_domain env path name)"
| "editor_operation env path (add_spf_domain env path domain)"
| "editor_operation env path (update_spf_domain env path name domain)"
| "editor_operation env path (remove_spf_domain env path name)"
| "editor_operation env path (set_relay_config env path relay)"
| "editor_operation env path (update_security_tls env path new_tls)"
| "editor_operation env path (update_security_geo env path new_geo)"
| "editor_operation env path (update_security_headers env path new_headers)"
| "editor_operation env path (update_security_bot env path new_bot)"
| "editor_operation env path (update_security_cookies env path new_cookies)"
| "editor_operation env path (update_security_acl env path new_acl)"
| "editor_operation env path (add_security_rate_limit env path rule)"
| "editor_operation env path (remove_security_rate_limit env path name)"
| "editor_operation env path (add_security_profile env path profile)"
| "editor_operation env path (update_security_profile env path name profile)"
| "editor_operation env path (remove_security_profile env path name)"
| "editor_operation env path (add_log_profile env path profile)"
| "editor_operation env path (update_log_profile env path name profile)"
| "editor_operation env path (remove_log_profile env path name)"
| "editor_operation env path (update_global_config env path glob)"
| "editor_operation env path (update_acme_config env path acme)"
| "editor_operation env path (add_antispam_domain_override env path entry)"
| "editor_operation env path (update_antispam_domain_override env path name entry)"
| "editor_operation env path (remove_antispam_domain_override env path name)"
| "editor_operation env path (update_webui_allow_list env path allow)"
| "editor_operation env path (update_webui_config env path webui)"

lemmas editor_operation_defs =
  add_frontend_def
  remove_frontend_def
  update_frontend_def
  add_backend_pool_def
  remove_backend_pool_def
  update_backend_pool_def
  add_backend_def
  remove_backend_def
  add_waf_ruleset_def
  remove_waf_ruleset_def
  update_waf_ruleset_def
  add_dkim_domain_def
  remove_dkim_domain_def
  add_acl_allow_def
  add_acl_block_def
  remove_acl_ip_def
  add_antispam_allow_ip_def
  remove_antispam_allow_ip_def
  add_antispam_allow_sender_def
  remove_antispam_allow_sender_def
  add_antispam_allow_domain_def
  remove_antispam_allow_domain_def
  add_antispam_allow_recipient_def
  remove_antispam_allow_recipient_def
  add_antispam_block_ip_def
  remove_antispam_block_ip_def
  add_antispam_block_sender_def
  remove_antispam_block_sender_def
  add_antispam_block_domain_def
  remove_antispam_block_domain_def
  add_antispam_block_recipient_def
  remove_antispam_block_recipient_def
  add_antispam_dnsbl_zone_def
  remove_antispam_dnsbl_zone_def
  set_antispam_config_def
  update_antispam_checks_def
  add_antispam_surbl_zone_def
  remove_antispam_surbl_zone_def
  add_antispam_scanner_def
  remove_antispam_scanner_def
  add_relay_trusted_host_def
  remove_trusted_host_def
  add_dmarc_policy_domain_def
  update_dmarc_policy_domain_def
  remove_dmarc_policy_domain_def
  add_spf_domain_def
  update_spf_domain_def
  remove_spf_domain_def
  set_relay_config_def
  update_security_tls_def
  update_security_geo_def
  update_security_headers_def
  update_security_bot_def
  update_security_cookies_def
  update_security_acl_def
  add_security_rate_limit_def
  remove_security_rate_limit_def
  add_security_profile_def
  update_security_profile_def
  remove_security_profile_def
  add_log_profile_def
  update_log_profile_def
  remove_log_profile_def
  update_global_config_def
  update_acme_config_def
  add_antispam_domain_override_def
  update_antispam_domain_override_def
  remove_antispam_domain_override_def
  update_webui_allow_list_def
  update_webui_config_def

lemma editor_operation_edit:
  assumes "editor_operation env path op"
  obtains modify where "op = edit_config env path modify"
  using assms by cases (auto simp only: editor_operation_defs [abs_def])

section \<open>Laws of the sections\<close>

text \<open>What the edits of a list section rely on: the two functions access the same place.\<close>

locale config_section =
  fixes get :: "server_wall_config \<Rightarrow> 'a list"
    and upd :: "('a list \<Rightarrow> 'a list) \<Rightarrow> server_wall_config \<Rightarrow> server_wall_config"
  assumes get_upd: "get (upd f c) = f (get c)"
    and upd_upd: "upd g (upd f c) = upd (g \<circ> f) c"
    and upd_same: "f (get c) = get c \<Longrightarrow> upd f c = c"
begin

lemma push_unique_Inr_iff:
  "push_unique get upd key msg x c = Inr c' \<longleftrightarrow>
   key x \<notin> key ` set (get c) \<and> c' = upd (\<lambda>ys. ys @ [x]) c"
  by (auto simp: push_unique_def list_ex_iff image_iff eq_commute)

lemma remove_named_Inr_iff:
  "remove_named get upd key msg name c = Inr c' \<longleftrightarrow>
   name \<in> key ` set (get c) \<and> c' = upd (filter (\<lambda>y. key y \<noteq> name)) c"
proof -
  have "length (filter (\<lambda>y. key y \<noteq> name) (get c)) = length (get c) \<longleftrightarrow> name \<notin> key ` set (get c)"
    using length_filter_less [of _ "get c" "\<lambda>y. key y \<noteq> name"]
    by (cases "name \<in> key ` set (get c)") (fastforce, simp add: filter_True image_iff eq_commute)
  then show ?thesis by (auto simp: remove_named_def get_upd Let_def)
qed

text \<open>Adding keeps the names distinct, and removing what was added restores the configuration.\<close>

lemma push_unique_distinct:
  assumes "push_unique get upd key msg x c = Inr c'" and "distinct (map key (get c))"
  shows "distinct (map key (get c'))"
  using assms by (auto simp: push_unique_Inr_iff get_upd)

lemma remove_after_push:
  assumes "push_unique get upd key msg x c = Inr c'"
  shows "remove_named get upd key msg' (key x) c' = Inr c"
proof -
  have fresh: "key x \<notin> key ` set (get c)" and c': "c' = upd (\<lambda>ys. ys @ [x]) c"
    using assms by (simp_all add: push_unique_Inr_iff)
  have "filter (\<lambda>y. key y \<noteq> key x) (get c) = get c"
    using fresh by (metis (mono_tags, lifting) filter_True image_eqI)
  then have "upd (filter (\<lambda>y. key y \<noteq> key x) \<circ> (\<lambda>ys. ys @ [x])) c = c"
    by (intro upd_same) simp
  then show ?thesis by (simp add: remove_named_Inr_iff c' get_upd upd_upd)
qed

lemma replace_named_names:
  assumes "replace_named get upd key msg name x c = Inr c'" and "key x = name"
  shows "map key (get c') = map key (get c)"
proof -
  have upto: "map key (ys[i := x]) = map key ys" if "position (\<lambda>y. key y = name) ys = Some i" for ys i
    using that assms(2)
    by (induction ys arbitrary: i) (auto split: if_splits nat.splits)
  then show ?thesis
    using assms(1) by (auto simp: replace_named_def get_upd split: option.splits)
qed

end

interpretation frontends: config_section "\<lambda>c. frontends c" "\<lambda>f. on_frontends f"
  by unfold_locales (simp_all add: comp_def)

interpretation backend_pools: config_section "\<lambda>c. backend_pools c" "\<lambda>f. on_backend_pools f"
  by unfold_locales (simp_all add: comp_def)

interpretation waf_rulesets: config_section "\<lambda>c. waf_rulesets c" "\<lambda>f. on_waf_rulesets f"
  by unfold_locales (simp_all add: comp_def)

interpretation dkim_domains: config_section "\<lambda>c. dkim_domains c" "\<lambda>f. on_dkim_domains f"
  by unfold_locales (simp_all add: comp_def)

interpretation acl_allow: config_section "\<lambda>c. acl_allow c" "\<lambda>f. on_acl_allow f"
  by unfold_locales (simp_all add: comp_def)

interpretation acl_block: config_section "\<lambda>c. acl_block c" "\<lambda>f. on_acl_block f"
  by unfold_locales (simp_all add: comp_def)

interpretation spam_allow_ips: config_section "\<lambda>c. spam_allow_ips c" "\<lambda>f. on_spam_allow_ips f"
  by unfold_locales (simp_all add: comp_def)

interpretation spam_allow_senders: config_section "\<lambda>c. spam_allow_senders c" "\<lambda>f. on_spam_allow_senders f"
  by unfold_locales (simp_all add: comp_def)

interpretation spam_allow_domains: config_section "\<lambda>c. spam_allow_domains c" "\<lambda>f. on_spam_allow_domains f"
  by unfold_locales (simp_all add: comp_def)

interpretation spam_allow_recipients: config_section "\<lambda>c. spam_allow_recipients c" "\<lambda>f. on_spam_allow_recipients f"
  by unfold_locales (simp_all add: comp_def)

interpretation spam_block_ips: config_section "\<lambda>c. spam_block_ips c" "\<lambda>f. on_spam_block_ips f"
  by unfold_locales (simp_all add: comp_def)

interpretation spam_block_senders: config_section "\<lambda>c. spam_block_senders c" "\<lambda>f. on_spam_block_senders f"
  by unfold_locales (simp_all add: comp_def)

interpretation spam_block_domains: config_section "\<lambda>c. spam_block_domains c" "\<lambda>f. on_spam_block_domains f"
  by unfold_locales (simp_all add: comp_def)

interpretation spam_block_recipients: config_section "\<lambda>c. spam_block_recipients c" "\<lambda>f. on_spam_block_recipients f"
  by unfold_locales (simp_all add: comp_def)

interpretation dnsbl_zones: config_section "\<lambda>c. dnsbl_zones c" "\<lambda>f. on_dnsbl_zones f"
  by unfold_locales (simp_all add: comp_def)

interpretation surbl_zones: config_section "\<lambda>c. surbl_zones c" "\<lambda>f. on_surbl_zones f"
  by unfold_locales (simp_all add: comp_def)

interpretation scanner_list: config_section "\<lambda>c. scanner_list c" "\<lambda>f. on_scanner_list f"
  by unfold_locales (simp_all add: comp_def)

interpretation relay_hosts: config_section "\<lambda>c. relay_hosts c" "\<lambda>f. on_relay_hosts f"
  by unfold_locales (simp_all add: comp_def)

interpretation dmarc_domains: config_section "\<lambda>c. dmarc_domains c" "\<lambda>f. on_dmarc_domains f"
  by unfold_locales (simp_all add: comp_def)

interpretation spf_domains: config_section "\<lambda>c. spf_domains c" "\<lambda>f. on_spf_domains f"
  by unfold_locales (simp_all add: comp_def)

interpretation rate_limits: config_section "\<lambda>c. rate_limits c" "\<lambda>f. on_rate_limits f"
  by unfold_locales (simp_all add: comp_def)

interpretation sec_profiles: config_section "\<lambda>c. sec_profiles c" "\<lambda>f. on_sec_profiles f"
  by unfold_locales (simp_all add: comp_def)

interpretation log_profile_list: config_section "\<lambda>c. log_profile_list c" "\<lambda>f. on_log_profile_list f"
  by unfold_locales (simp_all add: comp_def)

interpretation domain_override_list: config_section "\<lambda>c. domain_override_list c" "\<lambda>f. on_domain_override_list f"
  by unfold_locales (simp_all add: comp_def)

section \<open>Effect of an edit\<close>

lemma prepare_edit_Inr_iff:
  "prepare_edit env path modify d = Inr c' \<longleftrightarrow>
   (\<exists>c. load_config env d path = Inr c \<and> modify c = Inr c' \<and> valid_config (ce_cidr env) c')"
  by (auto simp: prepare_edit_def bind_result_Inr_iff validate_config_Inr_iff)

text \<open>An edit that fails leaves the configuration as it was; one that succeeds leaves the changed one.\<close>

lemma edit_config_fails:
  assumes "quiet env" "tmp_path (ce_process_id env) path \<noteq> Some path" "cd_dirs d = []"
    and "edit_config env path modify d = (Inl e, d')"
  shows "load_config env d' path = load_config env d path"
proof (cases "prepare_edit env path modify d")
  case (Inl a)
  then show ?thesis using assms(4) by (simp add: edit_config_def)
next
  case (Inr c')
  then have w: "write_config_atomic env path c' d = (Inl e, d')"
    using assms(4) by (simp add: edit_config_def)
  note effect = write_config_atomic_effect [OF assms(1,2) w]
  show ?thesis
    by (rule load_config_cong) (use effect assms(3) in auto)
qed

lemma edit_config_succeeds:
  assumes "quiet env" "tmp_path (ce_process_id env) path \<noteq> Some path" "toml_law env" "cd_dirs d = []"
    and "edit_config env path modify d = (Inr u, d')"
  shows "\<exists>c c'. load_config env d path = Inr c \<and> modify c = Inr c' \<and> valid_config (ce_cidr env) c' \<and>
                load_config env d' path = Inr (reread_config c') \<and> cd_dirs d' = []"
proof -
  obtain c' where p: "prepare_edit env path modify d = Inr c'"
    and w: "write_config_atomic env path c' d = (Inr u, d')"
    using assms(5) by (auto simp: edit_config_def split: sum.splits)
  from p obtain c where c: "load_config env d path = Inr c" "modify c = Inr c'" "valid_config (ce_cidr env) c'"
    by (auto simp: prepare_edit_Inr_iff)
  note effect = write_config_atomic_effect [OF assms(1,2) w]
  then obtain s where s: "ce_toml_to_string env c' = Inr s" "disk_file d' path = Some s" by auto
  have dirs: "cd_dirs d' = []" using effect(1) assms(4) by simp
  have "ce_fault env (Io_Read path) = None"
    using c(1) by (auto simp: load_config_def read_to_string_def split: option.splits sum.splits)
  then have "read_to_string env d' path = Inr s"
    using s assms(3) by (auto simp: read_to_string_def toml_law_def)
  then have "load_config env d' path = Inr (reread_config c')"
    using s(1) assms(3) c(3) by (auto simp: load_config_plain [OF dirs] toml_law_def)
  then show ?thesis using c dirs by blast
qed

end
