(* ===== verification/Config_Edits.thy ===== *)
theory Config_Edits
  imports Config_Editor "HOL-Library.Transitive_Closure_Table"
begin

text \<open>
  What the editing operations guarantee.  Several editors, threads of one process or different
  processes, work on one file; the relation \<open>edit_step\<close> interleaves the system calls of their edits and
  lets a process die between any two of them.  A reader then always finds a complete and valid
  configuration, but of two overlapping edits only the last one stays, and on an instance with a drop-in
  directory an edit makes the file unloadable.
\<close>

section \<open>Interleaved edits\<close>

datatype edit_phase =
    Resting
  | Prepared server_wall_config
  | Locked server_wall_config str
  | Writing server_wall_config str
  | Filled server_wall_config str
  | Renamed

text \<open>The disk, where each editor is in its edit, and the configurations committed so far.\<close>

record edit_state =
  es_disk :: config_disk
  es_phase :: "nat \<Rightarrow> edit_phase"
  es_log :: "server_wall_config list"

abbreviation enter :: "nat \<Rightarrow> edit_phase \<Rightarrow> edit_state \<Rightarrow> edit_state" where
  "enter i ph s \<equiv> s\<lparr>es_phase := (es_phase s)(i := ph)\<rparr>"

abbreviation on_disk :: "config_disk \<Rightarrow> edit_state \<Rightarrow> edit_state" where
  "on_disk d s \<equiv> s\<lparr>es_disk := d\<rparr>"

inductive edit_step ::
  "'net config_env \<Rightarrow> str \<Rightarrow> (nat \<Rightarrow> nat) \<Rightarrow> edit_state \<Rightarrow> edit_state \<Rightarrow> bool" for env path pid where
  step_prepare:
    "es_phase s i = Resting \<Longrightarrow> prepare_edit env path modify (es_disk s) = Inr c \<Longrightarrow>
     edit_step env path pid s (enter i (Prepared c) s)"
| step_give_up:
    "es_phase s i = Prepared c \<Longrightarrow> edit_step env path pid s (enter i Resting s)"
| step_lock:
    "es_phase s i = Prepared c \<Longrightarrow> ce_toml_to_string env c = Inr t \<Longrightarrow>
     try_lock env path (es_disk s) = Lock_Taken d \<Longrightarrow>
     edit_step env path pid s (enter i (Locked c t) (on_disk d s))"
| step_create:
    "es_phase s i = Locked c t \<Longrightarrow> tmp_path (pid i) path = Some tmp \<Longrightarrow>
     edit_step env path pid s (enter i (Writing c t) (on_disk (set_file tmp [] (es_disk s)) s))"
| step_write_some:
    "es_phase s i = Writing c t \<Longrightarrow> tmp_path (pid i) path = Some tmp \<Longrightarrow>
     edit_step env path pid s (on_disk (set_file tmp (take n t) (es_disk s)) s)"
| step_write_all:
    "es_phase s i = Writing c t \<Longrightarrow> tmp_path (pid i) path = Some tmp \<Longrightarrow>
     edit_step env path pid s (enter i (Filled c t) (on_disk (set_file tmp t (es_disk s)) s))"
| step_write_fails:
    "es_phase s i \<in> {Locked c t, Writing c t} \<Longrightarrow> edit_step env path pid s (enter i Renamed s)"
| step_rename:
    "es_phase s i = Filled c t \<Longrightarrow> tmp_path (pid i) path = Some tmp \<Longrightarrow>
     rename_file env tmp path (es_disk s) = (Inr (), d) \<Longrightarrow>
     edit_step env path pid s ((enter i Renamed (on_disk d s))\<lparr>es_log := es_log s @ [c]\<rparr>)"
| step_rename_fails:
    "es_phase s i = Filled c t \<Longrightarrow> tmp_path (pid i) path = Some tmp \<Longrightarrow>
     rename_file env tmp path (es_disk s) = (Inl e, d) \<Longrightarrow>
     edit_step env path pid s (enter i Renamed (on_disk d s))"
| step_release:
    "es_phase s i = Renamed \<Longrightarrow>
     edit_step env path pid s (enter i Resting (on_disk (remove_file env (lock_path path) (es_disk s)) s))"
| step_crash:
    "edit_step env path pid s (enter i Resting s)"

abbreviation edit_steps ::
  "'net config_env \<Rightarrow> str \<Rightarrow> (nat \<Rightarrow> nat) \<Rightarrow> edit_state \<Rightarrow> edit_state \<Rightarrow> bool" where
  "edit_steps env path pid \<equiv> rtranclp (edit_step env path pid)"

definition edit_init :: "config_disk \<Rightarrow> edit_state" where
  "edit_init d = \<lparr>es_disk = d, es_phase = (\<lambda>_. Resting), es_log = []\<rparr>"

subsection \<open>The invariant\<close>

fun holds_lock :: "edit_phase \<Rightarrow> bool" where
  "holds_lock Resting = False"
| "holds_lock (Prepared c) = False"
| "holds_lock _ = True"

fun pending_text :: "edit_phase \<Rightarrow> (server_wall_config \<times> str) option" where
  "pending_text (Locked c t) = Some (c, t)"
| "pending_text (Writing c t) = Some (c, t)"
| "pending_text (Filled c t) = Some (c, t)"
| "pending_text _ = None"

text \<open>The text of the main file: the first one, or that of the last committed configuration.\<close>

definition main_text_ok :: "'net config_env \<Rightarrow> str \<Rightarrow> str \<Rightarrow> edit_state \<Rightarrow> bool" where
  "main_text_ok env path t0 s \<longleftrightarrow>
     (\<exists>t. disk_file (es_disk s) path = Some t \<and>
        (if es_log s = [] then t = t0
         else ce_toml_to_string env (last (es_log s)) = Inr t \<and> valid_config (ce_cidr env) (last (es_log s))))"

definition edit_inv :: "'net config_env \<Rightarrow> str \<Rightarrow> (nat \<Rightarrow> nat) \<Rightarrow> str \<Rightarrow> edit_state \<Rightarrow> bool" where
  "edit_inv env path pid t0 s \<longleftrightarrow>
     main_text_ok env path t0 s \<and> cd_dirs (es_disk s) = [] \<and>
     (\<forall>i c. es_phase s i = Prepared c \<longrightarrow> valid_config (ce_cidr env) c) \<and>
     (\<forall>i c t. pending_text (es_phase s i) = Some (c, t) \<longrightarrow>
        valid_config (ce_cidr env) c \<and> ce_toml_to_string env c = Inr t) \<and>
     (\<forall>i. holds_lock (es_phase s i) \<longrightarrow> disk_file (es_disk s) (lock_path path) \<noteq> None) \<and>
     (\<forall>i j. holds_lock (es_phase s i) \<longrightarrow> holds_lock (es_phase s j) \<longrightarrow> i = j) \<and>
     (\<forall>i c t tmp. es_phase s i = Filled c t \<longrightarrow> tmp_path (pid i) path = Some tmp \<longrightarrow>
        disk_file (es_disk s) tmp = Some t)"

lemma edit_invD:
  assumes "edit_inv env path pid t0 s"
  shows "main_text_ok env path t0 s" "cd_dirs (es_disk s) = []"
    "es_phase s i = Prepared c \<Longrightarrow> valid_config (ce_cidr env) c"
    "pending_text (es_phase s i) = Some (c, t) \<Longrightarrow> valid_config (ce_cidr env) c"
    "pending_text (es_phase s i) = Some (c, t) \<Longrightarrow> ce_toml_to_string env c = Inr t"
    "holds_lock (es_phase s i) \<Longrightarrow> disk_file (es_disk s) (lock_path path) \<noteq> None"
    "holds_lock (es_phase s i) \<Longrightarrow> holds_lock (es_phase s j) \<Longrightarrow> i = j"
    "es_phase s i = Filled c t \<Longrightarrow> tmp_path (pid i) path = Some tmp \<Longrightarrow> disk_file (es_disk s) tmp = Some t"
  using assms unfolding edit_inv_def by blast+

text \<open>A step of an editor that leaves the main file and the lock alone.\<close>

lemma edit_inv_enter:
  assumes inv: "edit_inv env path pid t0 s"
    and disk: "disk_file d path = disk_file (es_disk s) path" "cd_dirs d = cd_dirs (es_disk s)"
      "\<And>j. j \<noteq> i \<Longrightarrow> holds_lock (es_phase s j) \<Longrightarrow> disk_file d (lock_path path) \<noteq> None"
    and tmp: "\<And>j c t tmp. j \<noteq> i \<Longrightarrow> es_phase s j = Filled c t \<Longrightarrow> tmp_path (pid j) path = Some tmp \<Longrightarrow>
              disk_file d tmp = disk_file (es_disk s) tmp"
    and ph: "\<And>c. ph = Prepared c \<Longrightarrow> valid_config (ce_cidr env) c"
      "\<And>c t. pending_text ph = Some (c, t) \<Longrightarrow> valid_config (ce_cidr env) c \<and> ce_toml_to_string env c = Inr t"
      "holds_lock ph \<Longrightarrow> disk_file d (lock_path path) \<noteq> None"
      "\<And>j. holds_lock ph \<Longrightarrow> j \<noteq> i \<Longrightarrow> \<not> holds_lock (es_phase s j)"
      "\<And>c t tmp. ph = Filled c t \<Longrightarrow> tmp_path (pid i) path = Some tmp \<Longrightarrow> disk_file d tmp = Some t"
  shows "edit_inv env path pid t0 (enter i ph (on_disk d s))"
  unfolding edit_inv_def
proof (intro conjI allI impI, goal_cases)
  case 1
  then show ?case using edit_invD(1) [OF inv] disk(1) by (auto simp: main_text_ok_def)
next
  case 2
  then show ?case using edit_invD(2) [OF inv] disk(2) by simp
next
  case (3 j c)
  then show ?case using edit_invD(3) [OF inv, of j c] ph(1) by (auto split: if_splits)
next
  case (4 j c t)
  then show ?case using edit_invD(4) [OF inv, of j c t] ph(2) by (auto split: if_splits)
next
  case (5 j c t)
  then show ?case using edit_invD(5) [OF inv, of j c t] ph(2) by (auto split: if_splits)
next
  case (6 j)
  then show ?case using edit_invD(6) [OF inv, of j] disk(3) ph(3) by (auto split: if_splits)
next
  case (7 j k)
  then show ?case using edit_invD(7) [OF inv, of j k] ph(4) by (auto split: if_splits)
next
  case (8 j c t tmp)
  then show ?case using edit_invD(8) [OF inv, of j c t tmp] tmp ph(5) by (auto split: if_splits)
qed

lemma try_lock_Taken:
  assumes "try_lock env path d = Lock_Taken d'"
  shows "disk_file d (lock_path path) = None" "d' = set_file (lock_path path) [] d"
  using assms by (auto simp: try_lock_def split: if_splits option.splits)

lemma rename_file_Inr:
  assumes "rename_file env tmp path d = (Inr u, d')"
  shows "\<exists>t. disk_file d tmp = Some t \<and> d' = del_file tmp (set_file path t d)"
  using assms by (auto simp: rename_file_def split: option.splits)

lemma rename_file_Inl:
  assumes "rename_file env tmp path d = (Inl e, d')"
  shows "d' = remove_file env tmp d"
  using assms by (auto simp: rename_file_def split: option.splits)

lemma holder_of_phase:
  "pending_text ph = Some ct \<Longrightarrow> holds_lock ph"
  by (cases ph) auto

lemma sole_holder:
  assumes "edit_inv env path pid t0 s" "holds_lock (es_phase s i)" "j \<noteq> i"
  shows "\<not> holds_lock (es_phase s j)" "es_phase s j \<noteq> Filled c t"
  using edit_invD(7) [OF assms(1), of i j] assms(2,3) by auto

lemma edit_inv_rename:
  assumes inv: "edit_inv env path pid t0 s" and ph: "es_phase s i = Filled c t"
    and tmp: "tmp_path (pid i) path = Some tmp" "tmp \<noteq> path"
    and ren: "rename_file env tmp path (es_disk s) = (Inr u, d)"
  shows "edit_inv env path pid t0 ((enter i Renamed (on_disk d s))\<lparr>es_log := es_log s @ [c]\<rparr>)"
proof -
  have d: "d = del_file tmp (set_file path t (es_disk s))"
    using rename_file_Inr [OF ren] edit_invD(8) [OF inv ph tmp(1)] by auto
  have lock: "disk_file (es_disk s) (lock_path path) \<noteq> None"
    using edit_invD(6) [OF inv, of i] ph by simp
  have only: "\<not> holds_lock (es_phase s j)" if "j \<noteq> i" for j
    using edit_invD(7) [OF inv, of i j] ph that by auto
  have valid: "valid_config (ce_cidr env) c" "ce_toml_to_string env c = Inr t"
    using edit_invD(4,5) [OF inv, of i c t] ph by auto
  show ?thesis
    unfolding edit_inv_def main_text_ok_def
  proof (intro conjI allI impI, goal_cases)
    case 1
    then show ?case using d tmp(2) valid by auto
  next
    case 2
    then show ?case using edit_invD(2) [OF inv] d by simp
  next
    case (3 j c)
    then show ?case using edit_invD(3) [OF inv, of j c] by (auto split: if_splits)
  next
    case (4 j c t)
    then show ?case using edit_invD(4) [OF inv, of j c t] by (auto split: if_splits)
  next
    case (5 j c t)
    then show ?case using edit_invD(5) [OF inv, of j c t] by (auto split: if_splits)
  next
    case (6 j)
    then show ?case using lock d tmp_neq_lock [OF tmp(1), of path] by auto
  next
    case (7 j k)
    then show ?case using only by (auto split: if_splits)
  next
    case (8 j c t tmp)
    then show ?case using only [of j] by (auto split: if_splits)
  qed
qed

lemma edit_inv_step:
  assumes "edit_step env path pid s s'" and inv: "edit_inv env path pid t0 s"
    and neq: "\<And>i. tmp_path (pid i) path \<noteq> Some path"
  shows "edit_inv env path pid t0 s'"
  using assms(1)
proof cases
  case (step_prepare i modify c)
  then have "edit_inv env path pid t0 (enter i (Prepared c) (on_disk (es_disk s) s))"
    by (intro edit_inv_enter [OF inv]) (auto simp: prepare_edit_Inr_iff dest: edit_invD(6) [OF inv])
  then show ?thesis using step_prepare by simp
next
  case (step_give_up i c)
  have "edit_inv env path pid t0 (enter i Resting (on_disk (es_disk s) s))"
    by (intro edit_inv_enter [OF inv]) (auto dest: edit_invD(6) [OF inv])
  then show ?thesis using step_give_up by simp
next
  case (step_lock i c t d)
  note l = try_lock_Taken [OF step_lock(4)]
  have "\<not> holds_lock (es_phase s j)" for j using edit_invD(6) [OF inv, of j] l(1) by auto
  then show ?thesis
    unfolding step_lock(1)
    by (intro edit_inv_enter [OF inv])
       (use step_lock l tmp_neq_lock edit_invD(3) [OF inv step_lock(2)] in auto)
next
  case (step_create i c t tmp)
  have own: "pending_text (es_phase s i) = Some (c, t)" using step_create by simp
  note only = sole_holder [OF inv holder_of_phase [OF own]]
  show ?thesis
    unfolding step_create(1)
    by (intro edit_inv_enter [OF inv])
       (use step_create own only neq tmp_neq_lock edit_invD(4,5) [OF inv own] edit_invD(6) [OF inv, of i]
        in auto)
next
  case (step_write_some i c t tmp n)
  have own: "pending_text (es_phase s i) = Some (c, t)" using step_write_some by simp
  note only = sole_holder [OF inv holder_of_phase [OF own]]
  have "edit_inv env path pid t0 (enter i (Writing c t) (on_disk (set_file tmp (take n t) (es_disk s)) s))"
    by (intro edit_inv_enter [OF inv])
       (use step_write_some own only neq tmp_neq_lock edit_invD(4,5) [OF inv own] edit_invD(6) [OF inv, of i]
        in auto)
  moreover have "(es_phase s)(i := Writing c t) = es_phase s" using step_write_some by auto
  ultimately show ?thesis using step_write_some by simp
next
  case (step_write_all i c t tmp)
  have own: "pending_text (es_phase s i) = Some (c, t)" using step_write_all by simp
  note only = sole_holder [OF inv holder_of_phase [OF own]]
  show ?thesis
    unfolding step_write_all(1)
    by (intro edit_inv_enter [OF inv])
       (use step_write_all own only neq tmp_neq_lock edit_invD(4,5) [OF inv own] edit_invD(6) [OF inv, of i]
        in auto)
next
  case (step_write_fails i c t)
  have own: "pending_text (es_phase s i) = Some (c, t)" using step_write_fails by auto
  note only = sole_holder [OF inv holder_of_phase [OF own]]
  have "edit_inv env path pid t0 (enter i Renamed (on_disk (es_disk s) s))"
    by (intro edit_inv_enter [OF inv])
       (use only edit_invD(6) [OF inv, of i] holder_of_phase [OF own] in auto)
  then show ?thesis using step_write_fails by simp
next
  case (step_rename i c t tmp d)
  then show ?thesis using edit_inv_rename [OF inv] neq by metis
next
  case (step_rename_fails i c t tmp e d)
  have d: "d = remove_file env tmp (es_disk s)" using rename_file_Inl step_rename_fails(4) by blast
  have own: "holds_lock (es_phase s i)" using step_rename_fails by simp
  note only = sole_holder [OF inv own]
  show ?thesis
    unfolding step_rename_fails(1)
    by (intro edit_inv_enter [OF inv])
       (use step_rename_fails d only neq [of i] tmp_neq_lock [OF step_rename_fails(3), of path, symmetric] edit_invD(6) [OF inv, of i]
        in auto)
next
  case (step_release i)
  have own: "holds_lock (es_phase s i)" using step_release by simp
  note only = sole_holder [OF inv own]
  show ?thesis
    unfolding step_release(1)
    by (intro edit_inv_enter [OF inv])
       (use step_release only tmp_neq_lock in auto)
next
  case (step_crash i)
  have "edit_inv env path pid t0 (enter i Resting (on_disk (es_disk s) s))"
    by (intro edit_inv_enter [OF inv]) (auto dest: edit_invD(6) [OF inv])
  then show ?thesis using step_crash by simp
qed

lemma edit_inv_init:
  assumes "cd_dirs d = []" "disk_file d path = Some t0"
  shows "edit_inv env path pid t0 (edit_init d)"
  using assms by (simp add: edit_inv_def main_text_ok_def edit_init_def)

lemma edit_inv_steps:
  assumes "edit_steps env path pid s s'" "edit_inv env path pid t0 s"
    and "\<And>i. tmp_path (pid i) path \<noteq> Some path"
  shows "edit_inv env path pid t0 s'"
  using assms(1,2)
proof induction
  case (step y z)
  then show ?case by (intro edit_inv_step [OF step(2)] assms(3)) simp
qed

lemma load_of_file:
  assumes "load_config env d path = Inr c"
  shows "\<exists>t. disk_file d path = Some t \<and> utf8_valid t" "ce_fault env (Io_Read path) = None"
  using assms by (auto simp: load_config_def read_to_string_def split: sum.splits option.splits if_splits)

text \<open>C7. However the edits of any number of editors interleave, and wherever an editor dies, the
  configuration file can be loaded at every moment: it holds the configuration of the last edit that was
  committed, complete and valid, or the first one when there was none.  At most one editor is between
  taking and releasing the lock.\<close>

theorem config_never_torn:
  assumes law: "toml_law env" and dirs: "cd_dirs d = []" and load: "load_config env d path = Inr c"
    and neq: "\<And>i. tmp_path (pid i) path \<noteq> Some path"
    and run: "edit_steps env path pid (edit_init d) s"
  shows "load_config env (es_disk s) path =
           Inr (if es_log s = [] then c else reread_config (last (es_log s))) \<and>
         (\<forall>i j. holds_lock (es_phase s i) \<longrightarrow> holds_lock (es_phase s j) \<longrightarrow> i = j)"
proof (intro conjI allI impI)
  obtain t0 where t0: "disk_file d path = Some t0" using load_of_file [OF load] by auto
  have inv: "edit_inv env path pid t0 s"
    by (rule edit_inv_steps [OF run edit_inv_init [OF dirs t0] neq])
  note dirs' = edit_invD(2) [OF inv]
  show "load_config env (es_disk s) path = Inr (if es_log s = [] then c else reread_config (last (es_log s)))"
  proof (cases "es_log s = []")
    case True
    then have "disk_file (es_disk s) path = disk_file d path"
      using edit_invD(1) [OF inv] t0 by (auto simp: main_text_ok_def)
    from load_config_cong [OF dirs dirs' this, of env] show ?thesis using load True by simp
  next
    case False
    then obtain t where t: "disk_file (es_disk s) path = Some t"
      and last: "ce_toml_to_string env (last (es_log s)) = Inr t" "valid_config (ce_cidr env) (last (es_log s))"
      using edit_invD(1) [OF inv] by (auto simp: main_text_ok_def)
    then have "read_to_string env (es_disk s) path = Inr t"
      using law load_of_file(2) [OF load] by (auto simp: read_to_string_def toml_law_def)
    then show ?thesis
      using law last False by (auto simp: load_config_plain [OF dirs'] toml_law_def)
  qed
  show "i = j" if "holds_lock (es_phase s i)" "holds_lock (es_phase s j)" for i j
    using edit_invD(7) [OF inv that] .
qed

subsection \<open>An edit is a run\<close>

text \<open>The writer's part of an edit, as steps.\<close>

lemma write_is_run:
  assumes "quiet env" "pid i = ce_process_id env" "es_phase s i = Prepared c"
    and "write_config_atomic env path c (es_disk s) = (Inr u, d')"
  shows "edit_steps env path pid s (s\<lparr>es_disk := d', es_phase := (es_phase s)(i := Resting), es_log := es_log s @ [c]\<rparr>)"
proof -
  let ?d = "es_disk s"
  obtain t tmp d1 d2 d3 where t: "ce_toml_to_string env c = Inr t"
    and tmp: "tmp_path (ce_process_id env) path = Some tmp"
    and l: "acquire_lock env path ?d = (Inr (), d1)"
    and w: "write_tmp env tmp t d1 = (Inr (), d2)"
    and r: "rename_file env tmp path d2 = (Inr (), d3)"
    and d': "d' = remove_file env (lock_path path) d3"
    using assms(4) by (auto simp: write_config_atomic_def split: sum.splits option.splits prod.splits)
  have d1: "try_lock env path ?d = Lock_Taken d1"
    using l acquire_lock_loop_quiet [OF assms(1), where path = path and i = 0 and n = 5 and d = ?d]
    by (auto simp: acquire_lock_def numeral_eq_Suc try_lock_def split: if_splits option.splits lock_attempt.splits)
  have d2: "d2 = set_file tmp t (set_file tmp [] d1)"
    using w by (auto simp: write_tmp_def set_file_def split: option.splits)
  note pid = tmp [folded assms(2)]
  let ?s1 = "enter i (Locked c t) (on_disk d1 s)"
  let ?s2 = "enter i (Writing c t) (on_disk (set_file tmp [] d1) s)"
  let ?s3 = "enter i (Filled c t) (on_disk d2 s)"
  let ?s4 = "(enter i Renamed (on_disk d3 s))\<lparr>es_log := es_log s @ [c]\<rparr>"
  have "edit_step env path pid s ?s1" by (rule step_lock [OF assms(3) t d1])
  moreover have "edit_step env path pid ?s1 ?s2"
    using step_create [of ?s1 i c t pid path tmp env] pid by simp
  moreover have "edit_step env path pid ?s2 ?s3"
    using step_write_all [of ?s2 i c t pid path tmp env] pid d2 by simp
  moreover have "edit_step env path pid ?s3 ?s4"
    using step_rename [of ?s3 i c t pid path tmp env d3] pid r by simp
  moreover have "edit_step env path pid ?s4 (enter i Resting (on_disk d' ?s4))"
    using step_release [of ?s4 i env path pid] d' by simp
  ultimately have "edit_steps env path pid s (enter i Resting (on_disk d' ?s4))"
    by (meson rtranclp.rtrancl_into_rtrancl rtranclp.rtrancl_refl)
  then show ?thesis by (cases s) simp
qed

text \<open>A whole edit of one editor, with the others at rest.\<close>

lemma edit_config_is_run:
  assumes "quiet env" "pid i = ce_process_id env"
    and "edit_config env path modify d = (Inr u, d')"
  obtains c where "prepare_edit env path modify d = Inr c"
    and "edit_steps env path pid (edit_init d) \<lparr>es_disk = d', es_phase = (\<lambda>_. Resting), es_log = [c]\<rparr>"
proof -
  obtain c where p: "prepare_edit env path modify d = Inr c"
    and w: "write_config_atomic env path c d = (Inr u, d')"
    using assms(3) by (auto simp: edit_config_def split: sum.splits)
  let ?s = "enter i (Prepared c) (edit_init d)"
  have "edit_step env path pid (edit_init d) ?s"
    by (rule step_prepare) (use p in \<open>simp_all add: edit_init_def\<close>)
  moreover have "edit_steps env path pid ?s
                  (?s\<lparr>es_disk := d', es_phase := (es_phase ?s)(i := Resting), es_log := es_log ?s @ [c]\<rparr>)"
    by (rule write_is_run [OF assms(1)]) (use w assms(2) in \<open>simp_all add: edit_init_def\<close>)
  moreover have "(\<lambda>_. Resting)(i := Resting) = (\<lambda>_. Resting)" by auto
  ultimately have "edit_steps env path pid (edit_init d) \<lparr>es_disk = d', es_phase = (\<lambda>_. Resting), es_log = [c]\<rparr>"
    by (simp add: edit_init_def converse_rtranclp_into_rtranclp)
  with p that show ?thesis by blast
qed

lemma block_address:
  assumes "prepare_edit env path (push_absent acl_block on_acl_block ip) d = Inr c'"
    and "load_config env d path = Inr c"
  shows "acl_block c' = (if ip \<in> set (acl_block c) then acl_block c else acl_block c @ [ip])"
proof -
  have "push_absent acl_block on_acl_block ip c = Inr c'"
    using assms unfolding prepare_edit_Inr_iff by auto
  then have "c' = (if ip \<in> set (acl_block c) then c else on_acl_block (\<lambda>ys. ys @ [ip]) c)"
    by (simp add: push_absent_def)
  then show ?thesis by simp
qed


section \<open>Edits that take effect\<close>

lemma on_frontends_eq: "on_frontends f c = c\<lparr>swc_frontend := f (swc_frontend c)\<rparr>"
  by (cases c) simp

lemma position_SomeD:
  assumes "position p xs = Some i"
  shows "i < length xs" "p (xs ! i)"
  using assms by (induction xs arbitrary: i) (auto split: if_splits)


text \<open>A pool that a frontend uses cannot be removed, and neither can the last backend of a pool: the
  operation fails and does not touch the disk.\<close>

theorem pool_in_use_kept:
  assumes load: "load_config env d path = Inr c"
    and use: "f \<in> set (swc_frontend c)" "fc_backend_pool f = bpc_name p" "p \<in> set (swc_backend_pool c)"
  shows "(\<exists>e. remove_backend_pool env path (bpc_name p) d = (Inl e, d)) \<and>
         (\<forall>b. bpc_backend p = [b] \<longrightarrow> (\<exists>e. remove_backend env path (bpc_name p) (bc_name b) d = (Inl e, d)))"
proof (intro conjI allI impI)
  have valid: "valid_config (ce_cidr env) c"
    using load by (auto simp: load_config_def bind_result_Inr_iff validate_config_Inr_iff split: sum.splits)
  have "\<not> valid_config (ce_cidr env) c'"
    if "remove_named backend_pools (\<lambda>f. on_backend_pools f) bpc_name msg (bpc_name p) c = Inr c'" for c' msg
  proof
    assume "valid_config (ce_cidr env) c'"
    moreover have c': "c' = on_backend_pools (filter (\<lambda>y. bpc_name y \<noteq> bpc_name p)) c"
      using that by (simp add: backend_pools.remove_named_Inr_iff)
    ultimately have "valid_frontend c' f" using use(1) by (simp add: valid_config_def)
    then show False using use(2) c' by (auto simp: valid_frontend_def)
  qed
  then show "\<exists>e. remove_backend_pool env path (bpc_name p) d = (Inl e, d)"
    by (auto simp: remove_backend_pool_def edit_config_def prepare_edit_Inr_iff load split: sum.splits)
  fix b assume b: "bpc_backend p = [b]"
  let ?change = "\<lambda>pool. let backends = filter (\<lambda>x. bc_name x \<noteq> bc_name b) (bpc_backend pool) in
        if length backends = length (bpc_backend pool) then
          Inl (E_Config (''backend '' @ in_quotes (bc_name b) @ '' not found in pool '' @ in_quotes (bpc_name p)))
        else Inr (pool\<lparr>bpc_backend := backends\<rparr>)"
  have "\<not> valid_config (ce_cidr env) c'" if red: "in_pool (bpc_name p) ?change c = Inr c'" for c'
  proof -
    obtain i where i: "position (\<lambda>q. bpc_name q = bpc_name p) (swc_backend_pool c) = Some i"
      using red
      by (cases "position (\<lambda>q. bpc_name q = bpc_name p) (swc_backend_pool c)") (simp_all add: in_pool_def)
    note pos = position_SomeD [OF i]
    have "swc_backend_pool c ! i = p"
      using valid use(3) pos by (auto simp: valid_config_def distinct_map inj_on_def)
    then have "c' = c\<lparr>swc_backend_pool := (swc_backend_pool c)[i := p\<lparr>bpc_backend := []\<rparr>]\<rparr>"
      using red i b by (auto simp: in_pool_def)
    then show ?thesis
      using pos(1) by (auto simp: valid_config_def set_update_memI intro!: bexI [OF _ set_update_memI])
  qed
  then show "\<exists>e. remove_backend env path (bpc_name p) (bc_name b) d = (Inl e, d)"
    by (auto simp: remove_backend_def edit_config_def prepare_edit_Inr_iff load split: sum.splits)
qed

section \<open>Drop-in directories\<close>

lemma load_fragments_merge:
  assumes "load_fragments env d dir ns c = Inr c'"
  obtains fragments where "c' = foldl merge_config c fragments"
    and "\<And>x. load_fragments env d dir ns x = Inr (foldl merge_config x fragments)"
proof -
  have "\<exists>fs. c' = foldl merge_config c fs \<and> (\<forall>x. load_fragments env d dir ns x = Inr (foldl merge_config x fs))"
    using assms
  proof (induction ns arbitrary: c)
    case Nil
    then show ?case by (intro exI [of _ "[]"]) simp
  next
    case (Cons n ns)
    then obtain content f where f: "read_to_string env d (entry_path dir n) = Inr content"
        "ce_toml_from_str env content = Inr f" "load_fragments env d dir ns (merge_config c f) = Inr c'"
      by (auto simp: Let_def split: sum.splits)
    from Cons.IH [OF f(3)] obtain fs where "c' = foldl merge_config (merge_config c f) fs"
        "\<forall>x. load_fragments env d dir ns x = Inr (foldl merge_config x fs)" by blast
    then show ?case using f by (intro exI [of _ "f # fs"]) (simp add: Let_def)
  qed
  then show ?thesis using that by blast
qed

lemma merge_config_simps [simp]:
  "swc_global (foldl merge_config c fs) = swc_global c"
  "swc_frontend (foldl merge_config c fs) = swc_frontend c @ concat (map swc_frontend fs)"
  "swc_backend_pool (foldl merge_config c fs) = swc_backend_pool c @ concat (map swc_backend_pool fs)"
  by (induction fs arbitrary: c) (simp_all add: merge_config_def)

lemma load_fragments_cong:
  assumes "\<And>n. n \<in> set ns \<Longrightarrow> disk_file d' (entry_path dir n) = disk_file d (entry_path dir n)"
  shows "load_fragments env d' dir ns c = load_fragments env d dir ns c"
  using assms
  by (induction ns arbitrary: c) (auto simp: Let_def read_to_string_def split: option.splits sum.splits)

lemma no_duplicates_Inl:
  assumes "\<not> distinct ns"
  shows "\<exists>n. no_duplicates err seen ns = Inl (err n)"
proof -
  have "no_duplicates err seen ns = Inr () \<or> (\<exists>n. no_duplicates err seen ns = Inl (err n))"
    by (induction ns arbitrary: seen) auto
  then show ?thesis using assms no_duplicates_Inr_iff [of err seen ns "()"] by blast
qed

lemma write_replaces_file:
  assumes faults: "ce_fault env = (\<lambda>_. None)"
    and tmp: "tmp_path (ce_process_id env) path = Some tmp" "tmp \<noteq> path" "tmp \<notin> fst ` set (cd_files d)"
    and lock: "lock_path path \<notin> fst ` set (cd_files d)" and "ce_toml_to_string env c = Inr t"
    and main: "disk_file d path \<noteq> None"
  shows "write_config_atomic env path c d = (Inr (), set_file path t d)"
proof -
  let ?lock = "lock_path path"
  have free: "map_of (cd_files d) ?lock = None" "map_of (cd_files d) tmp = None"
    using tmp(3) lock by (simp_all add: map_of_eq_None_iff)
  have neq: "tmp \<noteq> ?lock" "?lock \<noteq> tmp" using tmp_neq_lock [OF tmp(1)] by auto
  have l: "acquire_lock env path d = (Inr (), set_file ?lock [] d)"
    using free by (simp add: acquire_lock_def numeral_eq_Suc try_lock_def faults disk_file_def)
  have new: "AList.update k v xs = xs @ [(k, v)]" if "k \<notin> fst ` set xs" for k v and xs :: "(str \<times> str) list"
    using that by (induction xs) auto
  have gone: "AList.delete k xs = xs" if "k \<notin> fst ` set xs" for k and xs :: "(str \<times> str) list"
    using that by (force simp: AList.delete_eq filter_id_conv)
  have keep: "AList.update path v (xs @ ys) = AList.update path v xs @ ys" if "path \<in> fst ` set xs"
    for v and xs ys :: "(str \<times> str) list"
    using that by (induction xs) auto
  have path: "path \<in> fst ` set (cd_files d)"
    using main by (auto simp: disk_file_def dest: map_of_SomeD intro!: image_eqI [of _ fst])
  define ys where "ys = AList.update path t (cd_files d)"
  have keys: "tmp \<notin> fst ` set ys" "?lock \<notin> fst ` set ys"
    using tmp lock by (auto simp: ys_def dom_update)
  have "AList.update path t (AList.update tmp t (AList.update ?lock [] (cd_files d))) = ys @ [(?lock, []), (tmp, t)]"
    using tmp lock path neq by (simp add: new keep image_Un ys_def)
  moreover have "AList.delete ?lock (AList.delete tmp (ys @ [(?lock, []), (tmp, t)])) = ys"
    using keys neq by (simp add: AList.delete_eq) (force simp: filter_id_conv)
  ultimately have "del_file ?lock (del_file tmp (set_file path t (set_file tmp t (set_file ?lock [] d)))) = set_file path t d"
    by (simp add: set_file_def del_file_def ys_def)
  then show ?thesis
    using assms l by (simp add: write_config_atomic_def write_tmp_def rename_file_def remove_file_def)
qed

lemma duplicate_frontends_rejected:
  assumes "valid_config lib c" and "\<not> distinct (map fc_name (swc_frontend c'))"
    and sets: "set (swc_frontend c') = set (swc_frontend c)" "set (swc_backend_pool c') = set (swc_backend_pool c)"
  shows "\<exists>name. validate_config lib c' = Inl (E_Config (''duplicate frontend name '' @ in_quotes name))"
proof -
  obtain name where dup: "no_duplicates (\<lambda>n. E_Config (''duplicate frontend name '' @ in_quotes n)) []
      (map fc_name (swc_frontend c')) = Inl (E_Config (''duplicate frontend name '' @ in_quotes name))"
    using assms(2) no_duplicates_Inl by blast
  have "each_ok (validate_frontend (map bpc_name (swc_backend_pool c'))) (swc_frontend c') = Inr ()"
    unfolding each_ok_Inr_iff validate_frontend_Inr_iff sets(1)
    using assms(1) sets(2) by (simp add: valid_config_def valid_frontend_def)
  moreover have "each_ok (\<lambda>pool. if bpc_backend pool = []
      then Inl (E_Config (''backend_pool '' @ in_quotes (bpc_name pool) @ '' has no backends defined''))
      else Inr ()) (swc_backend_pool c') = Inr ()"
    unfolding each_ok_Inr_iff sets(2) using assms(1) by (simp add: valid_config_def)
  ultimately have "validate_config lib c' = Inl (E_Config (''duplicate frontend name '' @ in_quotes name))"
    using dup by (simp only: validate_config_def Let_def bind_result_simps)
  then show ?thesis by blast
qed

text \<open>What the main file holds after an address was blocked.\<close>

lemma add_acl_block_file:
  assumes faults: "ce_fault env = (\<lambda>_. None)"
    and tmp: "tmp_path (ce_process_id env) path = Some tmp" "tmp \<noteq> path" "tmp \<notin> fst ` set (cd_files d)"
    and lock: "lock_path path \<notin> fst ` set (cd_files d)"
    and load: "load_config env d path = Inr c" and edit: "add_acl_block env path ip d = (Inr (), d')"
  obtains c' t where "ce_toml_to_string env c' = Inr t" "d' = set_file path t d"
    "swc_frontend c' = swc_frontend c" "swc_backend_pool c' = swc_backend_pool c" "swc_global c' = swc_global c"
proof -
  obtain c' where p: "prepare_edit env path (push_absent acl_block on_acl_block ip) d = Inr c'"
    and w: "write_config_atomic env path c' d = (Inr (), d')"
    using edit by (auto simp: add_acl_block_def edit_config_def split: sum.splits)
  obtain t where t: "ce_toml_to_string env c' = Inr t"
    using w by (auto simp: write_config_atomic_def split: sum.splits)
  have "disk_file d path \<noteq> None" using load_of_file [OF load] by auto
  from write_replaces_file [OF faults tmp lock t this] w have d': "d' = set_file path t d" by simp
  have "push_absent acl_block on_acl_block ip c = Inr c'"
    using p load unfolding prepare_edit_Inr_iff by auto
  then have "swc_frontend c' = swc_frontend c" "swc_backend_pool c' = swc_backend_pool c"
    "swc_global c' = swc_global c"
    by (auto simp: push_absent_def split: if_splits)
  with that t d' show ?thesis by blast
qed

lemma fragment_names_set_file:
  assumes "disk_file d path \<noteq> None"
  shows "fragment_names (set_file path t d) dir = fragment_names d dir"
proof -
  have "path \<in> set (map fst (cd_files d))"
    using assms by (auto simp: disk_file_def dest: map_of_SomeD intro!: image_eqI [of _ fst])
  then show ?thesis by (simp add: set_file_def fragment_names_def read_dir_def update_keys)
qed


end
