(* ===== verification/Config_Runs.thy ===== *)
theory Config_Runs
  imports Config_Edits
begin

text \<open>
  Edits of a small configuration: one TCP frontend and its pool, on a disk with the file \<^verbatim>\<open>c\<close>.  The
  TOML library is a table of texts and configurations.  The theorems about the editing operations
  are applied to it.
\<close>

definition table_env :: "(str \<times> server_wall_config) list \<Rightarrow> str config_env" where
  "table_env table =
     \<lparr>ce_cidr = prefix_cidr_lib,
      ce_toml_from_str = (\<lambda>t. case map_of table t of Some c \<Rightarrow> Inr (reread_config c) | None \<Rightarrow> Inl ''expected a table''),
      ce_toml_to_string = (\<lambda>c. case find (\<lambda>e. snd e = c) table of Some e \<Rightarrow> Inr (fst e) | None \<Rightarrow> Inl ''unsupported value''),
      ce_fault = (\<lambda>_. None), ce_partial = 0, ce_meanwhile = (\<lambda>_ d. d), ce_process_id = 7\<rparr>"

lemma table_env_simps [simp]:
  "ce_cidr (table_env table) = prefix_cidr_lib" "ce_fault (table_env table) = (\<lambda>_. None)"
  "ce_process_id (table_env table) = 7" "quiet (table_env table)"
  by (simp_all add: table_env_def quiet_def)

lemma table_toml_law:
  assumes "distinct (map fst table)" "list_all (utf8_valid \<circ> fst) table"
  shows "toml_law (table_env table)"
  unfolding toml_law_def
proof (intro allI impI)
  fix c s assume "ce_toml_to_string (table_env table) c = Inr s"
  then have "(s, c) \<in> set table"
    by (auto simp: table_env_def find_Some_iff split: option.splits)
  then show "ce_toml_from_str (table_env table) s = Inr (reread_config c) \<and> utf8_valid s"
    using assms by (auto simp: table_env_def list_all_iff)
qed

definition demo_config :: server_wall_config where
  "demo_config =
     server_wall_config_default
       \<lparr>swc_frontend := [frontend_config_minimal ''web'' PT_Tcp [''0.0.0.0:80''] ''pool''],
        swc_backend_pool := [backend_pool_config_minimal ''pool'' [backend_config_minimal ''b1'' ''10.0.0.1:80'']]\<rparr>"

definition demo_disk :: config_disk where
  "demo_disk = \<lparr>cd_files = [(''c'', ''0'')], cd_dirs = []\<rparr>"

lemma demo_paths [simp]:
  "tmp_path n ''c'' = Some (''.serverwall_cfg_tmp_'' @ show_nat n @ ''.toml'')" "lock_path ''c'' = ''c.lock''"
  by (simp_all add: tmp_path_def lock_path_def Let_def)

lemma utf8_digit_texts [simp]: "utf8_valid ''0''" "utf8_valid ''1''" "utf8_valid ''2''"
  by (code_simp, code_simp, code_simp)

text \<open>The demo configuration with the addresses \<open>ips\<close> blocked, as it is after a load.\<close>

definition demo_blocking :: "str list \<Rightarrow> server_wall_config" where
  "demo_blocking ips = on_acl_block (\<lambda>ys. ys @ ips) (reread_config demo_config)"

lemma demo_valid: "valid_config prefix_cidr_lib demo_config" "valid_config prefix_cidr_lib (demo_blocking ips)"
  by (simp_all add: valid_config_def valid_frontend_def demo_blocking_def demo_config_def
      server_wall_config_default_def antispam_config_default_def antivirus_config_default_def
      relay_config_default_def frontend_config_minimal_def backend_pool_config_minimal_def requires_tls_def)

lemma demo_acl: "acl_block (reread_config demo_config) = []"
  by (simp add: demo_config_def reread_config_def server_wall_config_default_def security_config_default_def
      security_acl_config_default_def)

lemma table_load:
  assumes "disk_file d path = Some t" "map_of table t = Some c" "utf8_valid t" "cd_dirs d = []"
    and "valid_config prefix_cidr_lib c"
  shows "load_config (table_env table) d path = Inr (reread_config c)"
  using assms by (simp add: load_config_plain read_to_string_def table_env_def)

abbreviation demo_table :: "(str \<times> server_wall_config) list" where
  "demo_table \<equiv> [(''0'', demo_config), (''1'', demo_blocking [''10.0.0.8'']), (''2'', demo_blocking [''10.0.0.9''])]"

lemma demo_law: "toml_law (table_env demo_table)"
  by (rule table_toml_law) simp_all

lemma demo_load: "load_config (table_env demo_table) demo_disk ''c'' = Inr (reread_config demo_config)"
  by (rule table_load [where t = "''0''"]) (simp_all add: demo_disk_def disk_file_def demo_valid)

lemma demo_texts:
  "ce_toml_to_string (table_env demo_table) (demo_blocking [''10.0.0.8'']) = Inr ''1''"
  "ce_toml_to_string (table_env demo_table) (demo_blocking [''10.0.0.9'']) = Inr ''2''"
proof -
  have blocked: "acl_block (demo_blocking ips) = ips" for ips using demo_acl by (simp add: demo_blocking_def)
  have "acl_block demo_config = []"
    by (simp add: demo_config_def server_wall_config_default_def security_config_default_def
        security_acl_config_default_def)
  then have "demo_config \<noteq> demo_blocking [ip]" for ip using blocked [of "[ip]"] by auto
  moreover have "demo_blocking [''10.0.0.8''] \<noteq> demo_blocking [''10.0.0.9'']"
    using blocked [of "[''10.0.0.8'']"] blocked [of "[''10.0.0.9'']"] by auto
  ultimately show "ce_toml_to_string (table_env demo_table) (demo_blocking [''10.0.0.8'']) = Inr ''1''"
    "ce_toml_to_string (table_env demo_table) (demo_blocking [''10.0.0.9'']) = Inr ''2''"
    by (simp_all add: table_env_def)
qed

lemma demo_prepare:
  "prepare_edit (table_env demo_table) ''c'' (push_absent acl_block on_acl_block ip) demo_disk = Inr (demo_blocking [ip])"
  unfolding prepare_edit_Inr_iff
  by (intro exI [of _ "reread_config demo_config"] conjI)
     (simp_all only: demo_load table_env_simps demo_valid, simp add: push_absent_def demo_acl demo_blocking_def)

lemma demo_write:
  assumes "ce_toml_to_string (table_env table) c = Inr t"
    and keys: "fst ` set (cd_files d) \<subseteq> {''c'', ''d/x.toml''}" "''c'' \<in> fst ` set (cd_files d)"
  shows "write_config_atomic (table_env table) ''c'' c d = (Inr (), set_file ''c'' t d)"
proof -
  have seven: "show_nat 7 = ''7''" by code_simp
  show ?thesis
    by (rule write_replaces_file [where tmp = "''.serverwall_cfg_tmp_7.toml''"])
       (use assms keys seven in \<open>auto simp: disk_file_def map_of_eq_None_iff\<close>)
qed

definition demo_disk_with :: "str \<Rightarrow> config_disk" where
  "demo_disk_with t = \<lparr>cd_files = [(''c'', t)], cd_dirs = []\<rparr>"

lemma demo_set_file:
  "set_file ''c'' t demo_disk = demo_disk_with t" "set_file ''c'' t (demo_disk_with t') = demo_disk_with t"
  by (simp_all add: set_file_def demo_disk_def demo_disk_with_def)

lemma demo_commits:
  "write_config_atomic (table_env demo_table) ''c'' (demo_blocking [''10.0.0.8'']) demo_disk = (Inr (), demo_disk_with ''1'')"
  "write_config_atomic (table_env demo_table) ''c'' (demo_blocking [''10.0.0.9'']) (demo_disk_with ''1'') =
     (Inr (), demo_disk_with ''2'')"
  using demo_write [OF demo_texts(1), of demo_disk] demo_write [OF demo_texts(2), of "demo_disk_with ''1''"]
  by (simp_all add: demo_set_file) (simp_all add: demo_disk_def demo_disk_with_def)

lemma demo_dirs: "cd_dirs demo_disk = []"
  by (simp add: demo_disk_def)

lemma demo_tmp: "tmp_path n ''c'' \<noteq> Some ''c''"
  by simp

text \<open>One editor blocks an address; the file then holds the new configuration.\<close>

theorem config_never_torn_witness:
  "load_config (table_env demo_table) (demo_disk_with ''1'') ''c'' =
     Inr (reread_config (demo_blocking [''10.0.0.8'']))"
proof -
  have "edit_config (table_env demo_table) ''c'' (push_absent acl_block on_acl_block ''10.0.0.8'') demo_disk =
        (Inr (), demo_disk_with ''1'')"
    by (simp only: edit_config_def demo_prepare demo_commits sum.case)
  then obtain c where c: "prepare_edit (table_env demo_table) ''c'' (push_absent acl_block on_acl_block ''10.0.0.8'') demo_disk = Inr c"
    and run: "edit_steps (table_env demo_table) ''c'' (\<lambda>_. 7) (edit_init demo_disk)
                \<lparr>es_disk = demo_disk_with ''1'', es_phase = (\<lambda>_. Resting), es_log = [c]\<rparr>"
    by (rule edit_config_is_run [where pid = "\<lambda>_. 7" and i = 0, rotated 2]) simp_all
  show ?thesis
    using config_never_torn [OF demo_law demo_dirs demo_load demo_tmp run] c by (simp add: demo_prepare)
qed


text \<open>The pool of the frontend cannot be removed.\<close>

abbreviation "demo_frontend \<equiv> frontend_config_minimal ''web'' PT_Tcp [''0.0.0.0:80''] ''pool''"
abbreviation "demo_pool \<equiv> backend_pool_config_minimal ''pool'' [backend_config_minimal ''b1'' ''10.0.0.1:80'']"

lemma demo_sections:
  "swc_frontend demo_config = [demo_frontend]" "swc_backend_pool demo_config = [demo_pool]"
  "bpc_name demo_pool = ''pool''" "fc_backend_pool demo_frontend = ''pool''" "fc_name demo_frontend = ''web''"
  by (simp_all add: demo_config_def) (simp_all add: backend_pool_config_minimal_def frontend_config_minimal_def)

theorem pool_in_use_kept_witness:
  "\<exists>e. remove_backend_pool (table_env demo_table) ''c'' ''pool'' demo_disk = (Inl e, demo_disk)"
  using conjunct1 [OF pool_in_use_kept [OF demo_load, of demo_frontend demo_pool]]
  by (simp add: demo_sections)

text \<open>Removing the frontend.\<close>

definition demo_empty :: server_wall_config where
  "demo_empty = on_frontends (filter (\<lambda>f. fc_name f \<noteq> ''web'')) (reread_config demo_config)"

abbreviation "empty_table \<equiv> [(''0'', demo_config), (''1'', demo_empty)]"

lemma empty_text: "ce_toml_to_string (table_env empty_table) demo_empty = Inr ''1''"
proof -
  have "swc_frontend demo_empty = []" by (simp add: demo_empty_def demo_sections)
  then have "demo_config \<noteq> demo_empty" using demo_sections(1) by auto
  then show ?thesis by (simp add: table_env_def)
qed

lemma empty_load: "load_config (table_env empty_table) demo_disk ''c'' = Inr (reread_config demo_config)"
  by (rule table_load [where t = "''0''"]) (simp_all add: demo_disk_def disk_file_def demo_valid)

lemma empty_removal:
  "remove_frontend (table_env empty_table) ''c'' ''web'' demo_disk = (Inr (), demo_disk_with ''1'')"
proof -
  have "valid_config prefix_cidr_lib demo_empty"
    using demo_valid(1) by (simp add: valid_config_def demo_empty_def demo_sections)
  moreover have "remove_named frontends on_frontends fc_name msg ''web'' (reread_config demo_config) = Inr demo_empty" for msg
    by (simp add: frontends.remove_named_Inr_iff demo_empty_def demo_sections)
  ultimately have "prepare_edit (table_env empty_table) ''c'' (remove_named frontends on_frontends fc_name msg ''web'') demo_disk =
                   Inr demo_empty" for msg
    unfolding prepare_edit_Inr_iff by (metis empty_load table_env_simps(1))
  then show ?thesis
    using demo_write [OF empty_text, of demo_disk]
    by (simp add: remove_frontend_def edit_config_def demo_set_file) (simp add: demo_disk_def)
qed


text \<open>A drop-in file with a second frontend.\<close>

definition dropin_base :: server_wall_config where
  "dropin_base = demo_config\<lparr>swc_global := global_config_default\<lparr>gl_config_dir := Some ''d''\<rparr>\<rparr>"

definition dropin_fragment :: server_wall_config where
  "dropin_fragment =
     server_wall_config_default\<lparr>swc_frontend := [frontend_config_minimal ''imap'' PT_Tcp [''0.0.0.0:143''] ''pool'']\<rparr>"

definition dropin_merged :: server_wall_config where
  "dropin_merged = merge_config (reread_config dropin_base) (reread_config dropin_fragment)"

definition dropin_blocking :: server_wall_config where
  "dropin_blocking = on_acl_block (\<lambda>ys. ys @ [''10.0.0.9'']) dropin_merged"

definition dropin_disk :: config_disk where
  "dropin_disk = \<lparr>cd_files = [(''c'', ''0''), (''d/x.toml'', ''1'')], cd_dirs = [''d'']\<rparr>"

abbreviation "dropin_table \<equiv> [(''0'', dropin_base), (''1'', dropin_fragment), (''2'', dropin_blocking)]"

lemma dropin_sections:
  "map fc_name (swc_frontend dropin_merged) = [''web'', ''imap'']" "swc_frontend dropin_blocking = swc_frontend dropin_merged"
  "length (swc_frontend dropin_base) = 1" "length (swc_frontend dropin_fragment) = 1"
  by (simp_all add: dropin_merged_def dropin_blocking_def merge_config_def dropin_base_def dropin_fragment_def
      demo_sections) (simp add: frontend_config_minimal_def)

lemma dropin_valid: "valid_config prefix_cidr_lib dropin_merged" "valid_config prefix_cidr_lib dropin_blocking"
  by (simp_all add: valid_config_def valid_frontend_def dropin_merged_def dropin_blocking_def merge_config_def
      dropin_base_def dropin_fragment_def demo_config_def
      server_wall_config_default_def antispam_config_default_def antivirus_config_default_def
      relay_config_default_def frontend_config_minimal_def backend_pool_config_minimal_def requires_tls_def)

lemma dropin_load: "load_config (table_env dropin_table) dropin_disk ''c'' = Inr dropin_merged"
proof -
  have names: "fragment_names dropin_disk ''d'' = [''x.toml'']" by code_simp
  have "load_drop_ins (table_env dropin_table) dropin_disk (reread_config dropin_base) = Inr dropin_merged"
    by (simp add: load_drop_ins_def names dropin_base_def)
       (simp add: dropin_disk_def entry_path_def read_to_string_def disk_file_def table_env_def dropin_merged_def
         dropin_base_def)
  moreover have "read_to_string (table_env dropin_table) dropin_disk ''c'' = Inr ''0''"
    by (simp add: dropin_disk_def read_to_string_def disk_file_def)
  moreover have "ce_toml_from_str (table_env dropin_table) ''0'' = Inr (reread_config dropin_base)"
    by (simp add: table_env_def)
  moreover have "validate_config prefix_cidr_lib dropin_merged = Inr ()"
    using dropin_valid(1) by (simp add: validate_config_Inr_iff)
  ultimately show ?thesis by (simp add: load_config_def load_config_from_str_def)
qed

lemma dropin_text: "ce_toml_to_string (table_env dropin_table) dropin_blocking = Inr ''2''"
proof -
  have two: "length (swc_frontend dropin_blocking) = 2"
    using arg_cong [OF dropin_sections(1), of length] dropin_sections(2) by simp
  have "dropin_base \<noteq> dropin_blocking" using two dropin_sections(3) by force
  moreover have "dropin_fragment \<noteq> dropin_blocking" using two dropin_sections(4) by force
  ultimately show ?thesis by (simp add: table_env_def)
qed

lemma dropin_edit:
  "add_acl_block (table_env dropin_table) ''c'' ''10.0.0.9'' dropin_disk = (Inr (), set_file ''c'' ''2'' dropin_disk)"
proof -
  have "acl_block dropin_merged = []"
    by (simp add: dropin_merged_def merge_config_def dropin_base_def reread_config_def demo_config_def
        server_wall_config_default_def security_config_default_def security_acl_config_default_def)
  then have "push_absent acl_block on_acl_block ''10.0.0.9'' dropin_merged = Inr dropin_blocking"
    by (simp add: push_absent_def dropin_blocking_def)
  then have "prepare_edit (table_env dropin_table) ''c'' (push_absent acl_block on_acl_block ''10.0.0.9'') dropin_disk =
             Inr dropin_blocking"
    unfolding prepare_edit_Inr_iff using dropin_load dropin_valid(2) by (metis table_env_simps(1))
  then show ?thesis
    using demo_write [OF dropin_text, of dropin_disk]
    by (simp add: add_acl_block_def edit_config_def) (simp add: dropin_disk_def)
qed


end
