(* ===== verification/Stream_Proxies.thy ===== *)
theory Stream_Proxies
  imports Request_Pipeline Protocols Access_Log
begin

text \<open>
  The proxies for byte streams: \<^verbatim>\<open>tcp_proxy.rs\<close>, \<^verbatim>\<open>imap_proxy.rs\<close> and \<^verbatim>\<open>stratum_proxy.rs\<close>, and
  the connection handlers of \<^verbatim>\<open>server.rs\<close> that run them.  What a peer sends arrives in chunks, one per
  read; a \<^verbatim>\<open>BufReader\<close> holds the rest of the last chunk.  \<^verbatim>\<open>tokio::io::copy_bidirectional\<close> is a
  parameter.

  The lemmas show which bytes a proxy passes on, and that a handler contacts a backend only for an
  address that the access lists admit and gives the backend back.
\<close>

section \<open>Streams\<close>

datatype io_kind = ConnectionReset | BrokenPipe | InvalidData | OtherKind

record stream =
  st_incoming :: "str list"
  st_sent :: str
  st_broken :: bool

record buf_reader =
  br_buf :: str
  br_inner :: stream

definition buf_reader_new :: "stream \<Rightarrow> buf_reader" where
  "buf_reader_new s = \<lparr>br_buf = [], br_inner = s\<rparr>"

text \<open>\<^verbatim>\<open>into_inner\<close> returns the stream and drops the buffer.\<close>

definition into_inner :: "buf_reader \<Rightarrow> stream" where
  "into_inner r = br_inner r"

text \<open>A line from the buffer, refilled with the next chunk while it has no line feed; at the end of the
  stream the rest is a line.\<close>

fun buf_line :: "str \<Rightarrow> str list \<Rightarrow> str \<times> str \<times> str list" where
  "buf_line buf chunks =
     (if LF \<in> set buf then (fst (read_line buf), snd (read_line buf), chunks)
      else case chunks of
             [] \<Rightarrow> (buf, [], [])
           | chunk # rest \<Rightarrow> (case buf_line chunk rest of (l, b, cs) \<Rightarrow> (buf @ l, b, cs)))"

declare buf_line.simps [simp del]

definition buf_read_line :: "buf_reader \<Rightarrow> (io_kind, str) result \<times> buf_reader" where
  "buf_read_line r =
     (case buf_line (br_buf r) (st_incoming (br_inner r)) of
        (line, buf, chunks) \<Rightarrow>
          (if utf8_valid line then Inr line else Inl InvalidData,
           \<lparr>br_buf = buf, br_inner = (br_inner r)\<lparr>st_incoming := chunks\<rparr>\<rparr>))"

definition stream_write :: "str \<Rightarrow> stream \<Rightarrow> (io_kind, stream) result" where
  "stream_write data s = (if st_broken s then Inl BrokenPipe else Inr (s\<lparr>st_sent := st_sent s @ data\<rparr>))"

text \<open>\<^verbatim>\<open>get_mut().write_all(..)\<close> and \<^verbatim>\<open>flush\<close>.\<close>

definition buf_write :: "str \<Rightarrow> buf_reader \<Rightarrow> (io_kind, buf_reader) result" where
  "buf_write data r = bind_result (stream_write data (br_inner r)) (\<lambda>s. Inr (r\<lparr>br_inner := s\<rparr>))"

text \<open>Copying in both directions, with what its documentation promises: bytes go from each side to the
  other in order; success means that both streams have ended and everything was copied.\<close>

type_synonym copy_lib = "stream \<Rightarrow> stream \<Rightarrow> (io_kind, u64 \<times> u64) result \<times> stream \<times> stream"

definition copy_law :: "copy_lib \<Rightarrow> bool" where
  "copy_law copy \<longleftrightarrow>
     (\<forall>c b r c' b'. copy c b = (r, c', b') \<longrightarrow>
        (\<exists>n m. st_sent b' = st_sent b @ take n (concat (st_incoming c)) \<and>
               st_sent c' = st_sent c @ take m (concat (st_incoming b)) \<and>
               (\<forall>x. r = Inr x \<longrightarrow> n = length (concat (st_incoming c)) \<and> m = length (concat (st_incoming b)) \<and>
                    x = (of_nat n, of_nat m))))"

section \<open>TCP\<close>

definition tcp_proxy :: "copy_lib \<Rightarrow> stream \<Rightarrow> stream \<Rightarrow> (io_kind, u64 \<times> u64) result \<times> stream \<times> stream" where
  "tcp_proxy copy client backend = copy client backend"

section \<open>IMAP\<close>

record imap_proxy_result =
  ip_username :: "str option"
  ip_bytes_from_client :: u64
  ip_bytes_from_backend :: u64
  ip_duration_secs :: real

text \<open>\<^verbatim>\<open>args[1..].find\<close> and the slice up to the quote.\<close>

definition extract_login_username :: "str \<Rightarrow> str option" where
  "extract_login_username args0 =
     (let args = trim args0;
          unquoted = (case split_whitespace args of [] \<Rightarrow> None | w # _ \<Rightarrow> Some w) in
      if starts_with args [DQ] then
        (case find_sub (tl args) [DQ] of
           Some end \<Rightarrow> Some (take end (tl args))
         | None \<Rightarrow> unquoted)
      else unquoted)"

text \<open>The two streams, the user name and the byte counts while the proxy looks at lines.\<close>

record sniff =
  sn_client :: buf_reader
  sn_backend :: buf_reader
  sn_name :: "str option"
  sn_from_client :: u64
  sn_from_backend :: u64

datatype sniff_end = Sniff_Over | Sniff_Return | Sniff_Error io_kind

definition sniff_new :: "stream \<Rightarrow> stream \<Rightarrow> sniff" where
  "sniff_new client backend =
     \<lparr>sn_client = buf_reader_new client, sn_backend = buf_reader_new backend, sn_name = None,
      sn_from_client = 0, sn_from_backend = 0\<rparr>"

text \<open>Pass one line of the client on to the backend: \<open>Inr\<close> the line, empty at the end of the stream.\<close>

definition client_line :: "sniff \<Rightarrow> (io_kind, str) result \<times> sniff" where
  "client_line s =
     (case buf_read_line (sn_client s) of
        (Inl e, c) \<Rightarrow> (Inl e, s\<lparr>sn_client := c\<rparr>)
      | (Inr line, c) \<Rightarrow>
          let s' = s\<lparr>sn_client := c\<rparr> in
          if line = [] then (Inr [], s')
          else case buf_write line (sn_backend s') of
                 Inl e \<Rightarrow> (Inl e, s'\<lparr>sn_from_client := sn_from_client s' + of_nat (length line)\<rparr>)
               | Inr b \<Rightarrow> (Inr line, s'\<lparr>sn_from_client := sn_from_client s' + of_nat (length line), sn_backend := b\<rparr>))"

text \<open>Pass one line of the backend on to the client.\<close>

definition backend_line :: "sniff \<Rightarrow> (io_kind, str) result \<times> sniff" where
  "backend_line s =
     (case buf_read_line (sn_backend s) of
        (Inl e, b) \<Rightarrow> (Inl e, s\<lparr>sn_backend := b\<rparr>)
      | (Inr line, b) \<Rightarrow>
          let s' = s\<lparr>sn_backend := b\<rparr> in
          if line = [] then (Inr [], s')
          else case buf_write line (sn_client s') of
                 Inl e \<Rightarrow> (Inl e, s'\<lparr>sn_from_backend := sn_from_backend s' + of_nat (length line)\<rparr>)
               | Inr c \<Rightarrow> (Inr line, s'\<lparr>sn_from_backend := sn_from_backend s' + of_nat (length line), sn_client := c\<rparr>))"

fun imap_sniff :: "nat \<Rightarrow> sniff \<Rightarrow> sniff_end \<times> sniff" where
  "imap_sniff 0 s = (Sniff_Over, s)"
| "imap_sniff (Suc n) s =
     (case client_line s of
        (Inl e, s1) \<Rightarrow> (Sniff_Error e, s1)
      | (Inr line, s1) \<Rightarrow>
          if line = [] then (Sniff_Return, s1)
          else case imap_parse_command line of
                 None \<Rightarrow> imap_sniff n s1
               | Some cmd \<Rightarrow>
                   let s2 = (if ic_command cmd = ''LOGIN'' then s1\<lparr>sn_name := extract_login_username (ic_args cmd)\<rparr>
                             else s1) in
                   (case backend_line s2 of
                      (Inl e, s3) \<Rightarrow> (Sniff_Error e, s3)
                    | (Inr _, s3) \<Rightarrow>
                        if ic_command cmd = ''LOGIN'' then (Sniff_Over, s3)
                        else if ic_command cmd \<notin> {''CAPABILITY'', ''NOOP'', ''ID'', ''STARTTLS'', ''LOGOUT''} then (Sniff_Over, s3)
                        else if ic_command cmd = ''LOGOUT'' then (Sniff_Return, s3)
                        else imap_sniff n s3))"

definition imap_result :: "sniff \<Rightarrow> real \<Rightarrow> imap_proxy_result" where
  "imap_result s dur =
     \<lparr>ip_username = sn_name s, ip_bytes_from_client = sn_from_client s,
      ip_bytes_from_backend = sn_from_backend s, ip_duration_secs = dur\<rparr>"

text \<open>The greeting, at most ten lines of the client, then opaque copying, whose error only loses the
  counts of that part.\<close>

definition imap_proxy ::
  "copy_lib \<Rightarrow> real \<Rightarrow> stream \<Rightarrow> stream \<Rightarrow> (io_kind, imap_proxy_result) result \<times> stream \<times> stream" where
  "imap_proxy copy dur client backend =
     (case backend_line (sniff_new client backend) of
        (Inl e, s) \<Rightarrow> (Inl e, into_inner (sn_client s), into_inner (sn_backend s))
      | (Inr greeting, s) \<Rightarrow>
          if greeting = [] then (Inr (imap_result s dur), into_inner (sn_client s), into_inner (sn_backend s))
          else case imap_sniff 10 s of
                 (Sniff_Error e, s') \<Rightarrow> (Inl e, into_inner (sn_client s'), into_inner (sn_backend s'))
               | (Sniff_Return, s') \<Rightarrow>
                   (Inr (imap_result s' dur), into_inner (sn_client s'), into_inner (sn_backend s'))
               | (Sniff_Over, s') \<Rightarrow>
                   (case tcp_proxy copy (into_inner (sn_client s')) (into_inner (sn_backend s')) of
                      (Inr (c2b, b2c), c, b) \<Rightarrow>
                        (Inr (imap_result (s'\<lparr>sn_from_client := sn_from_client s' + c2b,
                                              sn_from_backend := sn_from_backend s' + b2c\<rparr>) dur), c, b)
                    | (Inl _, c, b) \<Rightarrow> (Inr (imap_result s' dur), c, b)))"

section \<open>Stratum\<close>

record stratum_proxy_result =
  sr_worker :: "str option"
  sr_bytes_from_client :: u64
  sr_bytes_from_backend :: u64
  sr_duration_secs :: real

definition stratum_result :: "sniff \<Rightarrow> real \<Rightarrow> stratum_proxy_result" where
  "stratum_result s dur =
     \<lparr>sr_worker = sn_name s, sr_bytes_from_client = sn_from_client s,
      sr_bytes_from_backend = sn_from_backend s, sr_duration_secs = dur\<rparr>"

text \<open>The worker of a \<^verbatim>\<open>mining.authorize\<close> message.\<close>

definition authorize_worker :: "(str \<Rightarrow> json option) \<Rightarrow> str \<Rightarrow> str option option" where
  "authorize_worker from_str line =
     (case stratum_parse_line from_str line of
        None \<Rightarrow> None
      | Some msg \<Rightarrow> if sm_method msg = Some ''mining.authorize'' then Some (extract_worker msg) else None)"

fun stratum_sniff :: "(str \<Rightarrow> json option) \<Rightarrow> nat \<Rightarrow> sniff \<Rightarrow> sniff_end \<times> sniff" where
  "stratum_sniff from_str 0 s = (Sniff_Over, s)"
| "stratum_sniff from_str (Suc n) s =
     (case client_line s of
        (Inl e, s1) \<Rightarrow> (Sniff_Error e, s1)
      | (Inr line, s1) \<Rightarrow>
          if line = [] then (Sniff_Return, s1)
          else let s2 = (case authorize_worker from_str line of None \<Rightarrow> s1 | Some w \<Rightarrow> s1\<lparr>sn_name := w\<rparr>) in
            (case backend_line s2 of
               (Inl e, s3) \<Rightarrow> (Sniff_Error e, s3)
             | (Inr reply, s3) \<Rightarrow>
                 if reply = [] then (Sniff_Return, s3)
                 else if authorize_worker from_str line \<noteq> None then (Sniff_Over, s3)
                 else stratum_sniff from_str n s3))"

definition stratum_proxy ::
  "copy_lib \<Rightarrow> (str \<Rightarrow> json option) \<Rightarrow> real \<Rightarrow> stream \<Rightarrow> stream \<Rightarrow>
   (io_kind, stratum_proxy_result) result \<times> stream \<times> stream" where
  "stratum_proxy copy from_str dur client backend =
     (case stratum_sniff from_str 5 (sniff_new client backend) of
        (Sniff_Error e, s) \<Rightarrow> (Inl e, into_inner (sn_client s), into_inner (sn_backend s))
      | (Sniff_Return, s) \<Rightarrow> (Inr (stratum_result s dur), into_inner (sn_client s), into_inner (sn_backend s))
      | (Sniff_Over, s) \<Rightarrow>
          (case tcp_proxy copy (into_inner (sn_client s)) (into_inner (sn_backend s)) of
             (Inl e, c, b) \<Rightarrow> (Inl e, c, b)
           | (Inr (c2b, b2c), c, b) \<Rightarrow>
               (Inr (stratum_result (s\<lparr>sn_from_client := sn_from_client s + c2b,
                                       sn_from_backend := sn_from_backend s + b2c\<rparr>) dur), c, b)))"

section \<open>Connection handlers\<close>

text \<open>What a handler uses: the libraries, the network, the renderings of the time, the duration of the
  session.\<close>

record ('net, 'db, 'conn, 'dns) stream_env =
  se_cidr :: "'net cidr_lib"
  se_geo :: "'db geo_lib"
  se_hash :: "ip_addr \<Rightarrow> u64"
  se_net :: "(stream, 'conn, 'dns, stream) tls_client_lib"
  se_copy :: copy_lib
  se_json :: "str \<Rightarrow> json option"
  se_utc :: str
  se_local :: str
  se_duration :: real

text \<open>What it leaves: the two streams, no backend when none was contacted, the lines of the access log and
  the pipeline.\<close>

record ('net, 'db) stream_outcome =
  co_client :: stream
  co_backend :: "stream option"
  co_log :: "str list"
  co_pipeline :: "('net, 'db) request_pipeline"

type_synonym ('net, 'db) stream_handler =
  "('net, 'db) request_pipeline \<Rightarrow> socket_addr \<Rightarrow> stream \<Rightarrow> ('net, 'db) stream_outcome"

text \<open>The common frame: access check, selection, connection, session; the guard is dropped on return.\<close>

definition with_backend ::
  "('net, 'db, 'conn, 'dns) stream_env \<Rightarrow>
   (('net, 'db) request_pipeline \<Rightarrow> backend \<Rightarrow> (server_wall_error, stream) result) \<Rightarrow>
   (backend \<Rightarrow> socket_addr \<Rightarrow> stream \<Rightarrow> stream \<Rightarrow> str list \<times> stream \<times> stream) \<Rightarrow> ('net, 'db) stream_handler" where
  "with_backend env connect serve p peer client =
     (case check_acl (se_cidr env) (se_geo env) p (sa_ip peer) of
        Inl _ \<Rightarrow> \<lparr>co_client = client, co_backend = None, co_log = [], co_pipeline = p\<rparr>
      | Inr _ \<Rightarrow>
          (case select_backend (se_hash env) p (sa_ip peer) of
             (Inl _, p') \<Rightarrow> \<lparr>co_client = client, co_backend = None, co_log = [], co_pipeline = p'\<rparr>
           | (Inr i, p') \<Rightarrow>
               let b = rp_backends p' ! i;
                   done = p'\<lparr>rp_backends := connection_guard_drop (rp_backends p') i\<rparr> in
               (case connect p' b of
                  Inl _ \<Rightarrow> \<lparr>co_client = client, co_backend = None, co_log = [], co_pipeline = done\<rparr>
                | Inr s \<Rightarrow>
                    (case serve b peer client s of
                       (entries, c', s') \<Rightarrow>
                         \<lparr>co_client = c', co_backend = Some s', co_log = entries, co_pipeline = done\<rparr>))))"

definition connect_any ::
  "('net, 'db, 'conn, 'dns) stream_env \<Rightarrow> ('net, 'db) request_pipeline \<Rightarrow> backend \<Rightarrow> (server_wall_error, stream) result" where
  "connect_any env p b =
     (if be_tls b then connect_backend_tls (se_net env) p b else connect_backend (se_net env) b)"

definition connect_plain ::
  "('net, 'db, 'conn, 'dns) stream_env \<Rightarrow> ('net, 'db) request_pipeline \<Rightarrow> backend \<Rightarrow> (server_wall_error, stream) result" where
  "connect_plain env p b = connect_backend (se_net env) b"

text \<open>A session and its line in the access log, if the frontend has one; an I/O error leaves no line.\<close>

definition serve_tcp ::
  "('net, 'db, 'conn, 'dns) stream_env \<Rightarrow> bool \<Rightarrow> log_format \<Rightarrow> backend \<Rightarrow> socket_addr \<Rightarrow> stream \<Rightarrow> stream \<Rightarrow>
   str list \<times> stream \<times> stream" where
  "serve_tcp env has_log fmt b peer client s =
     (case tcp_proxy (se_copy env) client s of
        (Inr (c2b, b2c), c', s') \<Rightarrow>
          (if has_log then [tcp_access_line fmt (se_utc env) (se_local env) peer (be_tag b) c2b b2c (se_duration env)] else [],
           c', s')
      | (Inl _, c', s') \<Rightarrow> ([], c', s'))"

definition serve_stratum ::
  "('net, 'db, 'conn, 'dns) stream_env \<Rightarrow> bool \<Rightarrow> log_format \<Rightarrow> backend \<Rightarrow> socket_addr \<Rightarrow> stream \<Rightarrow> stream \<Rightarrow>
   str list \<times> stream \<times> stream" where
  "serve_stratum env has_log fmt b peer client s =
     (case stratum_proxy (se_copy env) (se_json env) (se_duration env) client s of
        (Inr r, c', s') \<Rightarrow>
          (if has_log
           then [stratum_access_line fmt (se_utc env) (se_local env) peer (be_tag b) (sr_worker r)
                   (sr_bytes_from_client r) (sr_bytes_from_backend r) (sr_duration_secs r)]
           else [], c', s')
      | (Inl _, c', s') \<Rightarrow> ([], c', s'))"

definition serve_imap ::
  "('net, 'db, 'conn, 'dns) stream_env \<Rightarrow> backend \<Rightarrow> socket_addr \<Rightarrow> stream \<Rightarrow> stream \<Rightarrow>
   str list \<times> stream \<times> stream" where
  "serve_imap env b peer client s =
     (case imap_proxy (se_copy env) (se_duration env) client s of (_, c', s') \<Rightarrow> ([], c', s'))"

definition handle_tcp_connection ::
  "('net, 'db, 'conn, 'dns) stream_env \<Rightarrow> bool \<Rightarrow> log_format \<Rightarrow> ('net, 'db) stream_handler" where
  "handle_tcp_connection env has_log fmt = with_backend env (connect_any env) (serve_tcp env has_log fmt)"

definition handle_tls_tcp_connection ::
  "('net, 'db, 'conn, 'dns) stream_env \<Rightarrow> bool \<Rightarrow> log_format \<Rightarrow> ('net, 'db) stream_handler" where
  "handle_tls_tcp_connection env has_log fmt = with_backend env (connect_any env) (serve_tcp env has_log fmt)"

definition handle_stratum_connection ::
  "('net, 'db, 'conn, 'dns) stream_env \<Rightarrow> bool \<Rightarrow> log_format \<Rightarrow> ('net, 'db) stream_handler" where
  "handle_stratum_connection env has_log fmt = with_backend env (connect_plain env) (serve_stratum env has_log fmt)"

definition handle_tls_stratum_connection ::
  "('net, 'db, 'conn, 'dns) stream_env \<Rightarrow> bool \<Rightarrow> log_format \<Rightarrow> ('net, 'db) stream_handler" where
  "handle_tls_stratum_connection env has_log fmt = with_backend env (connect_plain env) (serve_stratum env has_log fmt)"

definition handle_imap_connection ::
  "('net, 'db, 'conn, 'dns) stream_env \<Rightarrow> ('net, 'db) stream_handler" where
  "handle_imap_connection env = with_backend env (connect_plain env) (serve_imap env)"

section \<open>Which bytes are passed on\<close>

definition unread :: "buf_reader \<Rightarrow> str" where
  "unread r = br_buf r @ concat (st_incoming (br_inner r))"

text \<open>A text that arrived in one chunk with the end of a line before it.\<close>

definition behind_line :: "str \<Rightarrow> str \<Rightarrow> bool" where
  "behind_line x chunk \<longleftrightarrow> (\<exists>line. LF \<in> set line \<and> chunk = line @ x)"

definition read_ahead :: "stream \<Rightarrow> str \<Rightarrow> bool" where
  "read_ahead s x \<longleftrightarrow> x = [] \<or> (\<exists>chunk \<in> set (st_incoming s). behind_line x chunk)"

definition reads_from :: "stream \<Rightarrow> buf_reader \<Rightarrow> bool" where
  "reads_from s r \<longleftrightarrow> read_ahead s (br_buf r) \<and> set (st_incoming (br_inner r)) \<subseteq> set (st_incoming s)"

lemma behind_read_line: "LF \<in> set buf \<Longrightarrow> behind_line (snd (read_line buf)) buf"
proof -
  assume "LF \<in> set buf"
  then have "LF \<in> set (fst (read_line buf))" by (induction buf) (auto split: prod.splits)
  then show ?thesis using read_line_append [of buf] unfolding behind_line_def by metis
qed

lemma behind_line_trans: "behind_line x y \<Longrightarrow> behind_line y chunk \<Longrightarrow> behind_line x chunk"
  by (auto simp: behind_line_def)

lemma buf_line_split:
  "buf_line buf chunks = (l, b, cs) \<Longrightarrow> buf @ concat chunks = l @ b @ concat cs"
proof (induction buf chunks arbitrary: l b cs rule: buf_line.induct)
  case (1 buf chunks)
  show ?case
  proof (cases "LF \<in> set buf \<or> chunks = []")
    case True
    then show ?thesis
      using 1(2) read_line_append [of buf] by (auto simp: buf_line.simps [of buf] split: list.splits if_splits)
  next
    case False
    then obtain chunk rest where Cons: "chunks = chunk # rest" by (cases chunks) auto
    obtain l' where "buf_line chunk rest = (l', b, cs)" "l = buf @ l'"
      using 1(2) False Cons by (auto simp: buf_line.simps [of buf] split: prod.splits)
    then show ?thesis using 1(1) [of chunk rest l' b cs] False Cons by simp
  qed
qed

lemma buf_line_rest:
  "buf_line buf chunks = (l, b, cs) \<Longrightarrow>
   set cs \<subseteq> set chunks \<and> (b = [] \<or> behind_line b buf \<or> (\<exists>chunk \<in> set chunks. behind_line b chunk))"
proof (induction buf chunks arbitrary: l b cs rule: buf_line.induct)
  case (1 buf chunks)
  show ?case
  proof (cases "LF \<in> set buf")
    case True
    then show ?thesis using 1(2) behind_read_line [of buf] by (auto simp: buf_line.simps [of buf])
  next
    case False
    show ?thesis
    proof (cases chunks)
      case Nil
      then show ?thesis using 1(2) False by (auto simp: buf_line.simps [of buf])
    next
      case (Cons chunk rest)
      obtain l' where "buf_line chunk rest = (l', b, cs)"
        using 1(2) False Cons by (auto simp: buf_line.simps [of buf] split: prod.splits)
      from 1(1) [OF False Cons this] show ?thesis using Cons by auto
    qed
  qed
qed

lemma buf_read_line_Inr:
  assumes "buf_read_line r = (Inr line, r')"
  shows "unread r = line @ unread r'" "st_sent (br_inner r') = st_sent (br_inner r)"
    "reads_from s r \<Longrightarrow> reads_from s r'"
proof -
  obtain l b cs where l: "buf_line (br_buf r) (st_incoming (br_inner r)) = (l, b, cs)" by (metis prod_cases3)
  with assms have r': "line = l" "r' = \<lparr>br_buf = b, br_inner = (br_inner r)\<lparr>st_incoming := cs\<rparr>\<rparr>"
    by (auto simp: buf_read_line_def split: if_splits)
  show "unread r = line @ unread r'" "st_sent (br_inner r') = st_sent (br_inner r)"
    using buf_line_split [OF l] by (simp_all add: unread_def r')
  show "reads_from s r \<Longrightarrow> reads_from s r'"
    using buf_line_rest [OF l]
    by (auto simp: reads_from_def read_ahead_def r' dest: behind_line_trans) (auto simp: behind_line_def)
qed

lemma buf_write_Inr:
  assumes "buf_write data r = Inr r'"
  shows "unread r' = unread r" "st_sent (br_inner r') = st_sent (br_inner r) @ data"
    "reads_from s r' = reads_from s r"
  using assms
  by (auto simp: buf_write_def stream_write_def bind_result_Inr_iff unread_def reads_from_def split: if_splits)

text \<open>During the sniffing, every byte that was read and is not in a buffer has been passed on.\<close>

definition sniff_ok :: "stream \<Rightarrow> stream \<Rightarrow> sniff \<Rightarrow> bool" where
  "sniff_ok c b s \<longleftrightarrow>
     (\<exists>fwd. concat (st_incoming c) = fwd @ unread (sn_client s) \<and>
            st_sent (br_inner (sn_backend s)) = st_sent b @ fwd) \<and>
     (\<exists>fwd. concat (st_incoming b) = fwd @ unread (sn_backend s) \<and>
            st_sent (br_inner (sn_client s)) = st_sent c @ fwd) \<and>
     reads_from c (sn_client s) \<and> reads_from b (sn_backend s)"

lemma sniff_ok_new: "sniff_ok c b (sniff_new c b)"
  by (simp add: sniff_ok_def sniff_new_def buf_reader_new_def unread_def reads_from_def read_ahead_def)

lemma sniff_ok_name [simp]: "sniff_ok c b (s\<lparr>sn_name := w\<rparr>) = sniff_ok c b s"
  by (simp add: sniff_ok_def)

lemma sniff_ok_client_line:
  assumes "client_line s = (Inr line, s')" "sniff_ok c b s"
  shows "sniff_ok c b s'"
proof -
  obtain r where r: "buf_read_line (sn_client s) = (Inr line, r)"
    using assms(1) by (auto simp: client_line_def Let_def split: sum.splits prod.splits if_splits)
  note read = buf_read_line_Inr [OF r]
  show ?thesis
  proof (cases "line = []")
    case True
    then have "s' = s\<lparr>sn_client := r\<rparr>" using assms(1) r by (simp add: client_line_def)
    then show ?thesis using assms(2) read True by (simp add: sniff_ok_def)
  next
    case False
    then obtain w where w: "buf_write line (sn_backend s) = Inr w"
      and s': "s' = s\<lparr>sn_client := r, sn_from_client := sn_from_client s + of_nat (length line), sn_backend := w\<rparr>"
      using assms(1) r by (auto simp: client_line_def Let_def split: sum.splits)
    show ?thesis
      using assms(2) read buf_write_Inr [OF w] by (auto simp: sniff_ok_def s')
  qed
qed

lemma sniff_ok_backend_line:
  assumes "backend_line s = (Inr line, s')" "sniff_ok c b s"
  shows "sniff_ok c b s'"
proof -
  obtain r where r: "buf_read_line (sn_backend s) = (Inr line, r)"
    using assms(1) by (auto simp: backend_line_def Let_def split: sum.splits prod.splits if_splits)
  note read = buf_read_line_Inr [OF r]
  show ?thesis
  proof (cases "line = []")
    case True
    then have "s' = s\<lparr>sn_backend := r\<rparr>" using assms(1) r by (simp add: backend_line_def)
    then show ?thesis using assms(2) read True by (simp add: sniff_ok_def)
  next
    case False
    then obtain w where w: "buf_write line (sn_client s) = Inr w"
      and s': "s' = s\<lparr>sn_backend := r, sn_from_backend := sn_from_backend s + of_nat (length line), sn_client := w\<rparr>"
      using assms(1) r by (auto simp: backend_line_def Let_def split: sum.splits)
    show ?thesis
      using assms(2) read buf_write_Inr [OF w] by (auto simp: sniff_ok_def s')
  qed
qed

lemma sniff_ok_imap:
  "imap_sniff n s = (r, s') \<Longrightarrow> (\<And>e. r \<noteq> Sniff_Error e) \<Longrightarrow> sniff_ok c b s \<Longrightarrow> sniff_ok c b s'"
proof (induction n arbitrary: s)
  case 0
  then show ?case by simp
next
  case (Suc n)
  obtain line s1 where c: "client_line s = (Inr line, s1)"
    using Suc.prems by (cases "client_line s"; cases "fst (client_line s)") auto
  have ok1: "sniff_ok c b s1" by (rule sniff_ok_client_line [OF c Suc.prems(3)])
  show ?case
  proof (cases "line = [] \<or> imap_parse_command line = None")
    case True
    then show ?thesis using Suc.IH [of s1] Suc.prems c ok1 by (auto split: if_splits)
  next
    case False
    then obtain cmd where cmd: "imap_parse_command line = Some cmd" "line \<noteq> []" by auto
    define s2 where "s2 = (if ic_command cmd = ''LOGIN''
      then s1\<lparr>sn_name := extract_login_username (ic_args cmd)\<rparr> else s1)"
    have ok2: "sniff_ok c b s2" using ok1 by (simp add: s2_def)
    obtain reply s3 where b: "backend_line s2 = (Inr reply, s3)"
      using Suc.prems(1,2) c cmd
      by (cases "backend_line s2"; cases "fst (backend_line s2)") (auto simp: s2_def [symmetric])
    have ok3: "sniff_ok c b s3" by (rule sniff_ok_backend_line [OF b ok2])
    show ?thesis
      using Suc.IH [of s3] Suc.prems c cmd b ok3 by (auto simp: s2_def [symmetric] split: if_splits)
  qed
qed

lemma sniff_ok_stratum:
  "stratum_sniff fs n s = (r, s') \<Longrightarrow> (\<And>e. r \<noteq> Sniff_Error e) \<Longrightarrow> sniff_ok c b s \<Longrightarrow> sniff_ok c b s'"
proof (induction n arbitrary: s)
  case 0
  then show ?case by simp
next
  case (Suc n)
  obtain line s1 where c: "client_line s = (Inr line, s1)"
    using Suc.prems by (cases "client_line s"; cases "fst (client_line s)") auto
  have ok1: "sniff_ok c b s1" by (rule sniff_ok_client_line [OF c Suc.prems(3)])
  show ?case
  proof (cases "line = []")
    case True
    then show ?thesis using Suc.prems c ok1 by auto
  next
    case False
    define s2 where "s2 = (case authorize_worker fs line of None \<Rightarrow> s1 | Some w \<Rightarrow> s1\<lparr>sn_name := w\<rparr>)"
    have ok2: "sniff_ok c b s2" using ok1 by (simp add: s2_def split: option.split)
    obtain reply s3 where b: "backend_line s2 = (Inr reply, s3)"
      using Suc.prems(1,2) c False
      by (cases "backend_line s2"; cases "fst (backend_line s2)") (auto simp: s2_def [symmetric])
    have ok3: "sniff_ok c b s3" by (rule sniff_ok_backend_line [OF b ok2])
    show ?thesis
      using Suc.IH [of s3] Suc.prems c False b ok3 by (auto simp: s2_def [symmetric] split: if_splits)
  qed
qed

text \<open>The bytes of one side reach the other in order and up to the end of the copying, except that one text
  may be missing: what had been read ahead behind the last line.\<close>

definition passed_with_gap :: "stream \<Rightarrow> str \<Rightarrow> str \<Rightarrow> bool" where
  "passed_with_gap from before after \<longleftrightarrow>
     (\<exists>fwd lost later rest. concat (st_incoming from) = fwd @ lost @ later @ rest \<and>
        read_ahead from lost \<and> after = before @ fwd @ later)"

lemma sniff_ok_gap:
  assumes "sniff_ok c b s"
    and "st_sent b' = st_sent (br_inner (sn_backend s)) @ take n (concat (st_incoming (br_inner (sn_client s))))"
    and "st_sent c' = st_sent (br_inner (sn_client s)) @ take m (concat (st_incoming (br_inner (sn_backend s))))"
  shows "passed_with_gap c (st_sent b) (st_sent b') \<and> passed_with_gap b (st_sent c) (st_sent c')"
proof -
  have split: "x @ take k ys @ drop k ys = x @ ys" for x ys :: str and k by simp
  obtain f g where f: "concat (st_incoming c) = f @ unread (sn_client s)" "st_sent (br_inner (sn_backend s)) = st_sent b @ f"
    and g: "concat (st_incoming b) = g @ unread (sn_backend s)" "st_sent (br_inner (sn_client s)) = st_sent c @ g"
    using assms(1) by (auto simp: sniff_ok_def)
  have ra: "read_ahead c (br_buf (sn_client s))" "read_ahead b (br_buf (sn_backend s))"
    using assms(1) by (auto simp: sniff_ok_def reads_from_def)
  show ?thesis
    unfolding passed_with_gap_def
  proof (intro conjI)
    show "\<exists>fwd lost later rest. concat (st_incoming c) = fwd @ lost @ later @ rest \<and> read_ahead c lost \<and>
            st_sent b' = st_sent b @ fwd @ later"
      by (rule exI [of _ f], rule exI [of _ "br_buf (sn_client s)"],
          rule exI [of _ "take n (concat (st_incoming (br_inner (sn_client s))))"],
          rule exI [of _ "drop n (concat (st_incoming (br_inner (sn_client s))))"])
         (simp add: f unread_def ra assms(2))
    show "\<exists>fwd lost later rest. concat (st_incoming b) = fwd @ lost @ later @ rest \<and> read_ahead b lost \<and>
            st_sent c' = st_sent c @ fwd @ later"
      by (rule exI [of _ g], rule exI [of _ "br_buf (sn_backend s)"],
          rule exI [of _ "take m (concat (st_incoming (br_inner (sn_backend s))))"],
          rule exI [of _ "drop m (concat (st_incoming (br_inner (sn_backend s))))"])
         (simp add: g unread_def ra assms(3))
  qed
qed

text \<open>A peer whose chunks are single lines leaves nothing in the buffer.\<close>

definition line_wise :: "stream \<Rightarrow> bool" where
  "line_wise s \<longleftrightarrow> (\<forall>chunk \<in> set (st_incoming s). LF \<notin> set (butlast chunk))"

lemma line_wise_no_gap:
  assumes "line_wise s" "passed_with_gap s before after"
  shows "\<exists>fwd. prefix fwd (concat (st_incoming s)) \<and> after = before @ fwd"
proof -
  obtain fwd lost later rest where gap: "concat (st_incoming s) = fwd @ lost @ later @ rest"
      "read_ahead s lost" "after = before @ fwd @ later"
    using assms(2) by (auto simp: passed_with_gap_def)
  have "lost = []"
    using gap(2) assms(1) by (auto simp: read_ahead_def behind_line_def line_wise_def butlast_append split: if_splits)
  then show ?thesis using gap by (intro exI [of _ "fwd @ later"]) simp
qed

lemma copy_lawD:
  assumes "copy_law copy" "copy c b = (r, c', b')"
  shows "\<exists>n m. st_sent b' = st_sent b @ take n (concat (st_incoming c)) \<and>
               st_sent c' = st_sent c @ take m (concat (st_incoming b))"
  using assms unfolding copy_law_def by blast

lemma imap_proxy_gap:
  assumes law: "copy_law copy" and run: "imap_proxy copy dur client backend = (Inr r, c', b')"
  shows "passed_with_gap client (st_sent backend) (st_sent b') \<and> passed_with_gap backend (st_sent client) (st_sent c')"
proof -
  obtain greeting s where g: "backend_line (sniff_new client backend) = (Inr greeting, s)"
    using run by (cases "backend_line (sniff_new client backend)"; cases "fst (backend_line (sniff_new client backend))")
      (auto simp: imap_proxy_def)
  have ok: "sniff_ok client backend s" by (rule sniff_ok_backend_line [OF g sniff_ok_new])
  obtain e s' where e: "imap_sniff 10 s = (e, s')" by fastforce
  consider "greeting = []" | "greeting \<noteq> []" "e = Sniff_Return" | "greeting \<noteq> []" "e = Sniff_Over"
    using run g e by (cases e) (auto simp: imap_proxy_def split: if_splits)
  then show ?thesis
  proof cases
    case 1
    with run g have "c' = br_inner (sn_client s)" "b' = br_inner (sn_backend s)"
      by (simp_all add: imap_proxy_def into_inner_def)
    with sniff_ok_gap [OF ok, of b' 0 c' 0] show ?thesis by simp
  next
    case 2
    with run g e have "c' = br_inner (sn_client s')" "b' = br_inner (sn_backend s')"
      by (simp_all add: imap_proxy_def into_inner_def)
    with sniff_ok_gap [OF sniff_ok_imap [OF e _ ok], of b' 0 c' 0] 2 show ?thesis by simp
  next
    case 3
    obtain r' c'' b'' where copy: "copy (br_inner (sn_client s')) (br_inner (sn_backend s')) = (r', c'', b'')"
      by (metis prod_cases3)
    with run g e 3 have "c' = c''" "b' = b''"
      by (auto simp: imap_proxy_def into_inner_def tcp_proxy_def split: sum.splits prod.splits)
    with copy_lawD [OF law copy] sniff_ok_gap [OF sniff_ok_imap [OF e _ ok]] 3 show ?thesis by blast
  qed
qed

lemma stratum_proxy_gap:
  assumes law: "copy_law copy" and run: "stratum_proxy copy fs dur client backend = (Inr r, c', b')"
  shows "passed_with_gap client (st_sent backend) (st_sent b') \<and> passed_with_gap backend (st_sent client) (st_sent c')"
proof -
  obtain e s where e: "stratum_sniff fs 5 (sniff_new client backend) = (e, s)" by fastforce
  consider "e = Sniff_Return" | "e = Sniff_Over"
    using run e by (cases e) (auto simp: stratum_proxy_def)
  then show ?thesis
  proof cases
    case 1
    with run e have "c' = br_inner (sn_client s)" "b' = br_inner (sn_backend s)"
      by (simp_all add: stratum_proxy_def into_inner_def)
    with sniff_ok_gap [OF sniff_ok_stratum [OF e _ sniff_ok_new], of b' 0 c' 0] 1 show ?thesis by simp
  next
    case 2
    obtain r' c'' b'' where copy: "copy (br_inner (sn_client s)) (br_inner (sn_backend s)) = (r', c'', b'')"
      by (metis prod_cases3)
    with run e 2 have "c' = c''" "b' = b''"
      by (auto simp: stratum_proxy_def into_inner_def tcp_proxy_def split: sum.splits prod.splits)
    with copy_lawD [OF law copy] sniff_ok_gap [OF sniff_ok_stratum [OF e _ sniff_ok_new]] 2 show ?thesis by blast
  qed
qed


section \<open>Handlers use the pool by its rules\<close>

definition is_stream_handler ::
  "('net, 'db, 'conn, 'dns) stream_env \<Rightarrow> ('net, 'db) stream_handler \<Rightarrow> bool" where
  "is_stream_handler env h \<longleftrightarrow>
     (\<exists>has_log fmt. h \<in> {handle_tcp_connection env has_log fmt, handle_tls_tcp_connection env has_log fmt,
        handle_stratum_connection env has_log fmt, handle_tls_stratum_connection env has_log fmt,
        handle_imap_connection env})"

lemma is_stream_handlerE:
  assumes "is_stream_handler env h"
  obtains connect serve where "h = with_backend env connect serve"
  using assms
  by (auto simp: is_stream_handler_def handle_tcp_connection_def handle_tls_tcp_connection_def
      handle_stratum_connection_def handle_tls_stratum_connection_def handle_imap_connection_def)

lemma guard_balanced:
  "map be_active_connections (connection_guard_drop (connection_guard_new bs i) i) = map be_active_connections bs"
proof (rule nth_equalityI)
  fix j assume "j < length (map be_active_connections (connection_guard_drop (connection_guard_new bs i) i))"
  then have j: "j < length bs" by simp
  show "map be_active_connections (connection_guard_drop (connection_guard_new bs i) i) ! j = map be_active_connections bs ! j"
  proof (cases "i < length bs")
    case True
    then show ?thesis using j by (simp add: connection_guard_drop_nth connection_guard_new_nth)
  next
    case False
    then show ?thesis using j by (simp add: connection_guard_drop_def connection_guard_new_def)
  qed
qed simp

text \<open>C20. A handler of a TCP, Stratum or IMAP connection contacts a backend only when the access lists admit
  the address of the client: otherwise it touches neither the client nor the pool.  When it returns, on
  every path, no backend counts the connection any more.\<close>

theorem stream_handlers_guarded:
  assumes "is_stream_handler env h"
  shows "(check_acl (se_cidr env) (se_geo env) p (sa_ip peer) \<noteq> Inr () \<longrightarrow>
            h p peer client = \<lparr>co_client = client, co_backend = None, co_log = [], co_pipeline = p\<rparr>) \<and>
         (co_backend (h p peer client) \<noteq> None \<longrightarrow>
            check_acl (se_cidr env) (se_geo env) p (sa_ip peer) = Inr () \<and>
            (\<exists>i. fst (select_backend (se_hash env) p (sa_ip peer)) = Inr i)) \<and>
         map be_active_connections (rp_backends (co_pipeline (h p peer client))) =
           map be_active_connections (rp_backends p)"
proof -
  obtain connect serve where h: "h = with_backend env connect serve" by (rule is_stream_handlerE [OF assms])
  obtain r p' where sel: "select_backend (se_hash env) p (sa_ip peer) = (r, p')" by fastforce
  show ?thesis
  proof (cases "check_acl (se_cidr env) (se_geo env) p (sa_ip peer)")
    case (Inl e)
    then show ?thesis by (simp add: h with_backend_def)
  next
    case acl: (Inr u)
    show ?thesis
    proof (cases r)
      case (Inl e)
      have "rp_backends p' = rp_backends p"
        using sel Inl by (auto simp: select_backend_def split: prod.splits option.splits)
      then show ?thesis using acl sel Inl by (simp add: h with_backend_def)
    next
      case (Inr i)
      have p': "rp_backends p' = connection_guard_new (rp_backends p) i"
        using sel Inr by (auto simp: select_backend_def split: prod.splits option.splits)
      have "map be_active_connections (rp_backends (co_pipeline (h p peer client))) =
            map be_active_connections (rp_backends p)"
        using acl sel Inr guard_balanced [of "rp_backends p" i]
        by (simp add: h with_backend_def p' Let_def split: sum.split prod.split)
      then show ?thesis using acl sel Inr by simp
    qed
  qed
qed

section \<open>Runs\<close>

text \<open>Copying everything.\<close>

definition copy_all :: copy_lib where
  "copy_all c b =
     (Inr (of_nat (length (concat (st_incoming c))), of_nat (length (concat (st_incoming b)))),
      c\<lparr>st_incoming := [], st_sent := st_sent c @ concat (st_incoming b)\<rparr>,
      b\<lparr>st_incoming := [], st_sent := st_sent b @ concat (st_incoming c)\<rparr>)"

lemma copy_all_law: "copy_law copy_all"
  by (auto simp: copy_law_def copy_all_def intro!: exI [of _ "length x" for x])

definition login_line :: str where
  "login_line = ''a LOGIN u p'' @ CRLF"

definition greeting_line :: str where
  "greeting_line = ''* OK'' @ CRLF"

definition reply_line :: str where
  "reply_line = ''a OK'' @ CRLF"

text \<open>A client that logs in and sends \<open>x\<close> in the same chunk.\<close>

definition eager_client :: "str \<Rightarrow> stream" where
  "eager_client x = \<lparr>st_incoming = [login_line @ x], st_sent = [], st_broken = False\<rparr>"

definition greeting_backend :: stream where
  "greeting_backend = \<lparr>st_incoming = [greeting_line, reply_line], st_sent = [], st_broken = False\<rparr>"

lemma login_facts:
  "read_line (login_line @ x) = (login_line, x)"
  "read_line greeting_line = (greeting_line, [])" "read_line reply_line = (reply_line, [])"
  by (simp_all add: login_line_def greeting_line_def reply_line_def CRLF_def LF_def CR_def)

lemma login_lines:
  "LF \<in> set login_line" "LF \<in> set greeting_line" "LF \<in> set reply_line"
  "login_line \<noteq> []" "greeting_line \<noteq> []" "reply_line \<noteq> []"
  by (simp_all add: login_line_def greeting_line_def reply_line_def CRLF_def)

lemma login_utf8: "utf8_valid login_line" "utf8_valid greeting_line" "utf8_valid reply_line"
  by (code_simp, code_simp, code_simp)

lemma login_command:
  "imap_parse_command login_line = Some \<lparr>ic_tag = ''a'', ic_command = ''LOGIN'', ic_args = ''u p''\<rparr>"
  by code_simp

lemma login_session:
  "\<exists>s. backend_line (sniff_new (eager_client x) greeting_backend) = (Inr greeting_line, s) \<and>
       (\<exists>s'. imap_sniff 10 s = (Sniff_Over, s') \<and> st_incoming (br_inner (sn_client s')) = [] \<and>
             st_sent (br_inner (sn_backend s')) = login_line)"
  by (simp add: backend_line_def client_line_def sniff_new_def buf_reader_new_def buf_read_line_def buf_line.simps
      greeting_backend_def eager_client_def login_facts login_lines login_utf8 login_command
      buf_write_def stream_write_def eval_nat_numeral Let_def)

lemma login_run:
  assumes "copy_law copy"
  shows "\<exists>r c' b'. imap_proxy copy dur (eager_client x) greeting_backend = (Inr r, c', b') \<and> st_sent b' = login_line"
proof -
  obtain s s' where s: "backend_line (sniff_new (eager_client x) greeting_backend) = (Inr greeting_line, s)"
    and s': "imap_sniff 10 s = (Sniff_Over, s')" "st_incoming (br_inner (sn_client s')) = []"
      "st_sent (br_inner (sn_backend s')) = login_line"
    using login_session [of x] by blast
  obtain r c' b' where copy: "copy (br_inner (sn_client s')) (br_inner (sn_backend s')) = (r, c', b')"
    by (metis prod_cases3)
  have "st_sent b' = login_line" using copy_lawD [OF assms copy] s' by auto
  then show ?thesis
    using s s' copy
    by (cases r) (auto simp: imap_proxy_def tcp_proxy_def into_inner_def login_lines)
qed




text \<open>A handler on a pool of one backend.\<close>

definition demo_stream_env :: "(str, unit, unit, unit) stream_env" where
  "demo_stream_env =
     \<lparr>se_cidr = prefix_cidr_lib, se_geo = \<lparr>db_open = (\<lambda>_. None), db_iso_code = (\<lambda>_ _. None)\<rparr>, se_hash = (\<lambda>_. 0),
      se_net = \<lparr>tcp_connect = (\<lambda>_. Inr greeting_backend), build_tls_connector = (\<lambda>_ _. Inr ()),
                server_name_try_from = (\<lambda>_. Inr ()), tls_connect = (\<lambda>_ _ s. Inr s)\<rparr>,
      se_copy = copy_all, se_json = (\<lambda>_. None), se_utc = [], se_local = [], se_duration = 1\<rparr>"

theorem stream_handlers_guarded_witness:
  "\<forall>p peer client.
     map be_active_connections (rp_backends (co_pipeline (handle_imap_connection demo_stream_env p peer client))) =
     map be_active_connections (rp_backends p)"
proof -
  have "is_stream_handler demo_stream_env (handle_imap_connection demo_stream_env)"
    by (simp add: is_stream_handler_def)
  from stream_handlers_guarded [OF this] show ?thesis by blast
qed

end
