(* ===== verification/Listener.thy ===== *)
theory Listener
  imports Prelude "HOL-Library.Multiset"
begin

text \<open>
  Accepting connections (\<^verbatim>\<open>listener/tcp_listener.rs\<close>): the limit on concurrent connections, and the accept
  loop over several addresses, where one task per address hands connections to the dispatcher over a
  bounded channel.  Both are step relations: the handlers, the accept tasks and the dispatcher interleave.

  The lemmas show that the counter is the number of connections whose handler has not returned, that it
  stays within the limit, and that no connection is dispatched twice; and that the shutdown of several
  addresses can block for ever.
\<close>

section \<open>The connection limit\<close>

record tcp_listener_task =
  tl_bind_addrs :: "str list"
  tl_frontend_name :: str
  tl_max_connections :: "nat option"
  tl_active_connections :: u64

definition tcp_listener_task_new :: "str list \<Rightarrow> str \<Rightarrow> nat option \<Rightarrow> tcp_listener_task" where
  "tcp_listener_task_new bind_addrs name max_connections =
     \<lparr>tl_bind_addrs = bind_addrs, tl_frontend_name = name, tl_max_connections = max_connections,
      tl_active_connections = 0\<rparr>"

text \<open>True when the connection is handed to a handler, False when it is dropped.\<close>

definition dispatch_connection :: "tcp_listener_task \<Rightarrow> bool \<times> tcp_listener_task" where
  "dispatch_connection l =
     (if (case tl_max_connections l of Some m \<Rightarrow> m \<le> unat (tl_active_connections l) | None \<Rightarrow> False)
      then (False, l)
      else (True, l\<lparr>tl_active_connections := tl_active_connections l + 1\<rparr>))"

text \<open>What the spawned task does when its handler returns; a handler that panics skips it.\<close>

definition connection_done :: "tcp_listener_task \<Rightarrow> tcp_listener_task" where
  "connection_done l = l\<lparr>tl_active_connections := tl_active_connections l - 1\<rparr>"

text \<open>The accept loop of one listener, which ends on the shutdown signal, the running handlers, which
  outlive it, and the connections whose handler panicked. A failed accept changes nothing.\<close>

record 'conn listening =
  li_open :: bool
  li_task :: tcp_listener_task
  li_running :: "'conn list"
  li_panicked :: "'conn list"

inductive listen_step :: "'conn listening \<Rightarrow> 'conn listening \<Rightarrow> bool" where
  listen_accept:
    "li_open s \<Longrightarrow> dispatch_connection (li_task s) = (True, l) \<Longrightarrow>
     listen_step s (s\<lparr>li_task := l, li_running := c # li_running s\<rparr>)"
| listen_reject:
    "li_open s \<Longrightarrow> dispatch_connection (li_task s) = (False, l) \<Longrightarrow> listen_step s (s\<lparr>li_task := l\<rparr>)"
| listen_shutdown:
    "listen_step s (s\<lparr>li_open := False\<rparr>)"
| listen_finish:
    "c \<in> set (li_running s) \<Longrightarrow>
     listen_step s (s\<lparr>li_task := connection_done (li_task s), li_running := remove1 c (li_running s)\<rparr>)"
| listen_panic:
    "c \<in> set (li_running s) \<Longrightarrow>
     listen_step s (s\<lparr>li_running := remove1 c (li_running s), li_panicked := c # li_panicked s\<rparr>)"

definition listen_init :: "tcp_listener_task \<Rightarrow> 'conn listening" where
  "listen_init l = \<lparr>li_open = True, li_task = l, li_running = [], li_panicked = []\<rparr>"

definition held_slots :: "'conn listening \<Rightarrow> nat" where
  "held_slots s = length (li_running s) + length (li_panicked s)"

lemma unat_of_nat_u64: "n < 2 ^ 64 \<Longrightarrow> unat (of_nat n :: u64) = n"
  by (simp add: unsigned_of_nat take_bit_nat_eq_self)

lemma held_slots_remove:
  "c \<in> set (li_running s) \<Longrightarrow> length (remove1 c (li_running s)) + 1 = length (li_running s)"
  using length_pos_if_in_set [of c "li_running s"] by (simp add: length_remove1)

lemma listen_step_slots:
  assumes "listen_step s s'" "tl_active_connections (li_task s) = of_nat (held_slots s)"
  shows "tl_active_connections (li_task s') = of_nat (held_slots s')"
  using assms
proof cases
  case (listen_accept l c)
  then show ?thesis
    using assms(2) by (auto simp: dispatch_connection_def held_slots_def split: if_splits)
next
  case (listen_reject l)
  then show ?thesis
    using assms(2) by (auto simp: dispatch_connection_def held_slots_def split: if_splits)
next
  case (listen_finish c)
  then have "held_slots s = held_slots s' + 1"
    using held_slots_remove [of c s] by (simp add: held_slots_def)
  then have "(of_nat (held_slots s) :: u64) - 1 = of_nat (held_slots s')" by simp
  then show ?thesis using assms(2) listen_finish by (simp add: connection_done_def)
next
  case (listen_panic c)
  then have "held_slots s' = held_slots s" using held_slots_remove [of c s] by (simp add: held_slots_def)
  then show ?thesis using assms(2) listen_panic by simp
next
  case listen_shutdown
  then show ?thesis using assms(2) by (simp add: held_slots_def)
qed

lemma listen_step_limit:
  assumes "listen_step s s'" "tl_active_connections (li_task s) = of_nat (held_slots s)"
    and "tl_max_connections (li_task s) = Some m" "m < 2 ^ 64" "held_slots s \<le> m"
  shows "tl_max_connections (li_task s') = Some m \<and> held_slots s' \<le> m"
  using assms(1)
proof cases
  case (listen_accept l c)
  have "unat (tl_active_connections (li_task s)) = held_slots s"
    using assms(2,4,5) by (simp add: unat_of_nat_u64)
  then show ?thesis
    using listen_accept assms(3) by (auto simp: dispatch_connection_def held_slots_def split: if_splits)
next
  case (listen_reject l)
  then show ?thesis using assms by (auto simp: dispatch_connection_def held_slots_def split: if_splits)
next
  case (listen_finish c)
  then show ?thesis using assms held_slots_remove [of c s] by (simp add: held_slots_def connection_done_def)
next
  case (listen_panic c)
  then show ?thesis using assms held_slots_remove [of c s] by (simp add: held_slots_def)
next
  case listen_shutdown
  then show ?thesis using assms by (simp add: held_slots_def)
qed

text \<open>C21. Under every interleaving of arriving, returning and panicking handlers, the counter is the number
  of accepted connections that have not returned, those whose handler panicked included, and with a limit
  there are never more of them.\<close>

theorem listener_limit:
  assumes "listen_step\<^sup>*\<^sup>* (listen_init (tcp_listener_task_new addrs name max_connections)) s"
  shows "tl_active_connections (li_task s) = of_nat (held_slots s) \<and>
         (\<forall>m. max_connections = Some m \<longrightarrow> m < 2 ^ 64 \<longrightarrow>
            held_slots s \<le> m \<and> unat (tl_active_connections (li_task s)) = held_slots s)"
proof (intro conjI allI impI)
  show slots: "tl_active_connections (li_task s) = of_nat (held_slots s)"
    using assms
    by induction (auto simp: listen_init_def tcp_listener_task_new_def held_slots_def [of "\<lparr>li_open = True, li_task = l, li_running = [], li_panicked = []\<rparr>" for l]
        dest: listen_step_slots)
  fix m assume m: "max_connections = Some m" "m < 2 ^ 64"
  have "tl_active_connections (li_task s) = of_nat (held_slots s) \<and>
        tl_max_connections (li_task s) = Some m \<and> held_slots s \<le> m"
    using assms
  proof induction
    case base
    then show ?case using m by (simp add: listen_init_def tcp_listener_task_new_def held_slots_def)
  next
    case (step y z)
    then show ?case using listen_step_slots [of y z] listen_step_limit [of y z m] m by blast
  qed
  then show "held_slots s \<le> m" "unat (tl_active_connections (li_task s)) = held_slots s"
    using m by (auto simp: unat_of_nat_u64)
qed

definition one_running :: "nat listening" where
  "one_running =
     \<lparr>li_open = True,
      li_task = (tcp_listener_task_new [''0.0.0.0:80''] ''web'' (Some 2))\<lparr>tl_active_connections := 1\<rparr>,
      li_running = [7], li_panicked = []\<rparr>"

lemma one_running_reached:
  "listen_step\<^sup>*\<^sup>* (listen_init (tcp_listener_task_new [''0.0.0.0:80''] ''web'' (Some 2))) one_running"
proof (rule r_into_rtranclp)
  show "listen_step (listen_init (tcp_listener_task_new [''0.0.0.0:80''] ''web'' (Some 2))) one_running"
    using listen_accept [of "listen_init (tcp_listener_task_new [''0.0.0.0:80''] ''web'' (Some 2))" _ 7]
    by (simp add: one_running_def listen_init_def tcp_listener_task_new_def dispatch_connection_def)
qed

theorem listener_limit_witness:
  "held_slots one_running = 1 \<and> held_slots one_running \<le> 2 \<and>
   tl_active_connections (li_task one_running) = of_nat (held_slots one_running)"
  using listener_limit [OF one_running_reached] by (simp add: held_slots_def one_running_def)

section \<open>Several addresses\<close>

datatype 'conn acceptor = Accepting | Sending 'conn | Exited

datatype dispatcher = Dispatching | Joining | Returned

definition CHANNEL_CAPACITY :: nat where
  "CHANNEL_CAPACITY = 64"

record 'conn multi =
  ml_acceptors :: "'conn acceptor list"
  ml_queue :: "'conn list"
  ml_dispatcher :: dispatcher
  ml_shutdown :: bool
  ml_accepted :: "'conn list"
  ml_dispatched :: "'conn list"

text \<open>The selects prefer the shutdown signal, so after it an accept task that waits for a connection leaves
  and the dispatcher stops; a task that waits for room in the channel goes on waiting, until the
  dispatcher has returned and the channel is closed.\<close>

inductive multi_step :: "'conn multi \<Rightarrow> 'conn multi \<Rightarrow> bool" where
  multi_accept:
    "i < length (ml_acceptors s) \<Longrightarrow> ml_acceptors s ! i = Accepting \<Longrightarrow> \<not> ml_shutdown s \<Longrightarrow>
     multi_step s (s\<lparr>ml_acceptors := (ml_acceptors s)[i := Sending c], ml_accepted := c # ml_accepted s\<rparr>)"
| multi_send:
    "i < length (ml_acceptors s) \<Longrightarrow> ml_acceptors s ! i = Sending c \<Longrightarrow>
     length (ml_queue s) < CHANNEL_CAPACITY \<Longrightarrow> ml_dispatcher s \<noteq> Returned \<Longrightarrow>
     multi_step s (s\<lparr>ml_acceptors := (ml_acceptors s)[i := Accepting], ml_queue := ml_queue s @ [c]\<rparr>)"
| multi_leave:
    "i < length (ml_acceptors s) \<Longrightarrow> ml_acceptors s ! i = Accepting \<Longrightarrow> ml_shutdown s \<Longrightarrow>
     multi_step s (s\<lparr>ml_acceptors := (ml_acceptors s)[i := Exited]\<rparr>)"
| multi_dispatch:
    "ml_dispatcher s = Dispatching \<Longrightarrow> \<not> ml_shutdown s \<Longrightarrow> ml_queue s = c # q \<Longrightarrow>
     multi_step s (s\<lparr>ml_queue := q, ml_dispatched := c # ml_dispatched s\<rparr>)"
| multi_stop:
    "ml_dispatcher s = Dispatching \<Longrightarrow> ml_shutdown s \<Longrightarrow> multi_step s (s\<lparr>ml_dispatcher := Joining\<rparr>)"
| multi_join:
    "ml_dispatcher s = Joining \<Longrightarrow> list_all (\<lambda>a. a = Exited) (ml_acceptors s) \<Longrightarrow>
     multi_step s (s\<lparr>ml_dispatcher := Returned\<rparr>)"
| multi_signal:
    "\<not> ml_shutdown s \<Longrightarrow> multi_step s (s\<lparr>ml_shutdown := True\<rparr>)"

definition multi_init :: "nat \<Rightarrow> 'conn multi" where
  "multi_init n =
     \<lparr>ml_acceptors = replicate n Accepting, ml_queue = [], ml_dispatcher = Dispatching, ml_shutdown = False,
      ml_accepted = [], ml_dispatched = []\<rparr>"

fun sending :: "'conn acceptor \<Rightarrow> 'conn list" where
  "sending (Sending c) = [c]"
| "sending _ = []"

definition in_transit :: "'conn multi \<Rightarrow> 'conn multiset" where
  "in_transit s = mset (ml_queue s) + mset (concat (map sending (ml_acceptors s)))"

lemma sending_update:
  "i < length as \<Longrightarrow>
   mset (concat (map sending (as[i := a]))) + mset (sending (as ! i)) =
   mset (concat (map sending as)) + mset (sending a)"
  by (induction as arbitrary: i) (auto split: nat.splits simp: nth_Cons add.commute add.left_commute)

text \<open>With several addresses no accepted connection is lost or handed to a handler twice while the
  listener works: what was accepted is what was dispatched and what is on its way through the channel.\<close>

theorem multi_conserves:
  assumes "multi_step\<^sup>*\<^sup>* (multi_init n) s"
  shows "mset (ml_accepted s) = mset (ml_dispatched s) + in_transit s"
  using assms
proof induction
  case base
  have "concat (map sending (replicate n Accepting)) = []" by (induction n) auto
  then show ?case by (simp add: multi_init_def in_transit_def)
next
  case (step y z)
  from step(2) step(3) show ?case
  proof cases
    case (multi_accept i c)
    then show ?thesis using step(3) sending_update [of i "ml_acceptors y" "Sending c"] by (simp add: in_transit_def)
  next
    case (multi_send i c)
    then show ?thesis using step(3) sending_update [of i "ml_acceptors y" Accepting] by (simp add: in_transit_def)
  next
    case (multi_leave i)
    then show ?thesis using step(3) sending_update [of i "ml_acceptors y" Exited] by (simp add: in_transit_def)
  qed (auto simp: in_transit_def)
qed

theorem multi_conserves_witness:
  "\<exists>s. multi_step\<^sup>*\<^sup>* (multi_init 2) s \<and> ml_accepted s = [7 :: nat] \<and> in_transit s = {#7#}"
proof -
  let ?s = "(multi_init 2 :: nat multi)\<lparr>ml_acceptors := [Sending 7, Accepting], ml_accepted := [7]\<rparr>"
  have "multi_step (multi_init 2 :: nat multi) ?s"
    using multi_accept [of 0 "multi_init 2 :: nat multi" 7] by (simp add: multi_init_def numeral_2_eq_2)
  then have run: "multi_step\<^sup>*\<^sup>* (multi_init 2) ?s" by blast
  from multi_conserves [OF this] run show ?thesis
    by (intro exI [of _ ?s]) (simp add: multi_init_def in_transit_def)
qed

text \<open>A full channel and one task that waits for room in it.\<close>

definition multi_full :: "'conn \<Rightarrow> nat \<Rightarrow> 'conn multi" where
  "multi_full c k =
     \<lparr>ml_acceptors = [Accepting, Accepting], ml_queue = replicate k c, ml_dispatcher = Dispatching,
      ml_shutdown = False, ml_accepted = replicate k c, ml_dispatched = []\<rparr>"

lemma multi_fills: "k \<le> CHANNEL_CAPACITY \<Longrightarrow> multi_step\<^sup>*\<^sup>* (multi_init 2) (multi_full c k)"
proof (induction k)
  case 0
  then show ?case by (simp add: multi_full_def multi_init_def numeral_2_eq_2)
next
  case (Suc k)
  let ?s = "(multi_full c k)\<lparr>ml_acceptors := [Sending c, Accepting], ml_accepted := replicate (Suc k) c\<rparr>"
  have "multi_step (multi_full c k) ?s"
    using multi_accept [of 0 "multi_full c k" c] by (simp add: multi_full_def)
  moreover have "multi_step ?s (multi_full c (Suc k))"
    using multi_send [of 0 ?s c] Suc.prems by (simp add: multi_full_def replicate_append_same)
  ultimately show ?case using Suc by (meson Suc_leD rtranclp.rtrancl_into_rtrancl)
qed

definition multi_stuck :: "'conn \<Rightarrow> 'conn multi" where
  "multi_stuck c =
     \<lparr>ml_acceptors = [Sending c, Exited], ml_queue = replicate CHANNEL_CAPACITY c, ml_dispatcher = Joining,
      ml_shutdown = True, ml_accepted = replicate (Suc CHANNEL_CAPACITY) c, ml_dispatched = []\<rparr>"

text \<open>C39. The shutdown of a listener with two addresses can block for ever: when the channel is full, the
  dispatcher waits for the accept tasks and one of them waits for room in the channel that nobody
  empties.\<close>

theorem multi_shutdown_blocks:
  "multi_step\<^sup>*\<^sup>* (multi_init 2) (multi_stuck c) \<and> ml_dispatcher (multi_stuck c) \<noteq> Returned \<and>
   (\<nexists>s. multi_step (multi_stuck c) s)"
proof (intro conjI)
  let ?s0 = "multi_full c CHANNEL_CAPACITY"
  let ?s1 = "?s0\<lparr>ml_acceptors := [Sending c, Accepting], ml_accepted := replicate (Suc CHANNEL_CAPACITY) c\<rparr>"
  let ?s2 = "?s1\<lparr>ml_shutdown := True\<rparr>"
  let ?s3 = "?s2\<lparr>ml_dispatcher := Joining\<rparr>"
  have "multi_step ?s0 ?s1" using multi_accept [of 0 ?s0 c] by (simp add: multi_full_def)
  moreover have "multi_step ?s1 ?s2" by (rule multi_signal) (simp add: multi_full_def)
  moreover have "multi_step ?s2 ?s3" by (rule multi_stop) (simp_all add: multi_full_def)
  moreover have "multi_step ?s3 (multi_stuck c)"
    using multi_leave [of 1 ?s3] by (simp add: multi_full_def multi_stuck_def)
  ultimately have "multi_step\<^sup>*\<^sup>* ?s0 (multi_stuck c)"
    by (meson rtranclp.rtrancl_into_rtrancl rtranclp.rtrancl_refl)
  with multi_fills [OF order_refl, of c] show "multi_step\<^sup>*\<^sup>* (multi_init 2) (multi_stuck c)"
    by (rule rtranclp_trans)
  show "ml_dispatcher (multi_stuck c) \<noteq> Returned" by (simp add: multi_stuck_def)
  show "\<nexists>s. multi_step (multi_stuck c) s"
  proof
    assume "\<exists>s. multi_step (multi_stuck c) s"
    then obtain s where "multi_step (multi_stuck c) s" ..
    then show False
      by cases (auto simp: multi_stuck_def less_Suc_eq)
  qed
qed

end
