(* ===== verification/Ja3.thy ===== *)
theory Ja3
  imports Utf8
begin

text \<open>
  The fingerprint of a TLS client (\<^verbatim>\<open>serverwall-core/src/tls/ja3.rs\<close>): the parser of the first
  bytes of a connection and the text whose digest is the fingerprint.

  The parser indexes its slices by positions it computes from lengths the client sends. An index out of
  range is a panic, so every access is a \<open>result\<close> and the absence of panics is a theorem. Bytes and 16-bit
  values are natural numbers; the handshake length is the sum of its three shifted bytes. The crate
  \<^verbatim>\<open>md5\<close> is a parameter.\<close>

section \<open>The parser\<close>

datatype index_panic = Index_Out_Of_Range

definition byte_at :: "str \<Rightarrow> nat \<Rightarrow> (index_panic, nat) result" where
  "byte_at xs i = (if i < length xs then Inr (byte (xs ! i)) else Inl Index_Out_Of_Range)"

definition be16_at :: "str \<Rightarrow> nat \<Rightarrow> (index_panic, nat) result" where
  "be16_at xs i = bind_result (byte_at xs i) (\<lambda>hi. bind_result (byte_at xs (i + 1)) (\<lambda>lo. Inr (256 * hi + lo)))"

text \<open>\<^verbatim>\<open>get\<close> with a range, which does not panic.\<close>

definition get_range :: "str \<Rightarrow> nat \<Rightarrow> nat \<Rightarrow> str option" where
  "get_range xs a b = (if a \<le> b \<and> b \<le> length xs then Some (take (b - a) (drop a xs)) else None)"

definition GREASE_VALUES :: "nat list" where
  "GREASE_VALUES =
     [0x0a0a, 0x1a1a, 0x2a2a, 0x3a3a, 0x4a4a, 0x5a5a, 0x6a6a, 0x7a7a,
      0x8a8a, 0x9a9a, 0xaaaa, 0xbaba, 0xcaca, 0xdada, 0xeaea, 0xfafa]"

definition is_grease :: "nat \<Rightarrow> bool" where
  "is_grease v = (v \<in> set GREASE_VALUES)"

record ja3_params =
  ja_version :: nat
  ja_ciphers :: "nat list"
  ja_extensions :: "nat list"
  ja_groups :: "nat list"
  ja_point_formats :: "nat list"

definition push_value :: "nat \<Rightarrow> nat list \<Rightarrow> nat list" where
  "push_value v acc = (if is_grease v then acc else acc @ [v])"

function cipher_loop :: "str \<Rightarrow> nat \<Rightarrow> nat \<Rightarrow> nat \<Rightarrow> nat list \<Rightarrow> (index_panic, nat list) result" where
  "cipher_loop hello pos cs_len i acc =
     (if i < cs_len
      then if length hello < pos + i + 2 then Inr acc
           else bind_result (be16_at hello (pos + i))
                  (\<lambda>c. cipher_loop hello pos cs_len (i + 2) (push_value c acc))
      else Inr acc)"
  by auto
termination
  by (relation "measure (\<lambda>(hello, pos, cs_len, i, acc). cs_len - i)") auto

declare cipher_loop.simps [simp del]

function group_loop :: "str \<Rightarrow> nat \<Rightarrow> nat \<Rightarrow> nat list \<Rightarrow> (index_panic, nat list) result" where
  "group_loop ext_data list_len gi acc =
     (if gi + 2 \<le> length ext_data \<and> gi < 2 + list_len
      then bind_result (be16_at ext_data gi) (\<lambda>g. group_loop ext_data list_len (gi + 2) (push_value g acc))
      else Inr acc)"
  by auto
termination
  by (relation "measure (\<lambda>(ext_data, list_len, gi, acc). length ext_data - gi)") auto

declare group_loop.simps [simp del]

text \<open>One extension that is not a GREASE value: its number is kept, and the lists in two of them.\<close>

definition read_groups :: "str \<Rightarrow> nat list \<Rightarrow> (index_panic, nat list) result" where
  "read_groups ext_data acc =
     (if 2 \<le> length ext_data
      then bind_result (be16_at ext_data 0) (\<lambda>list_len. group_loop ext_data list_len 2 acc)
      else Inr acc)"

definition read_formats :: "str \<Rightarrow> nat list \<Rightarrow> (index_panic, nat list) result" where
  "read_formats ext_data acc =
     (if 1 \<le> length ext_data
      then bind_result (byte_at ext_data 0)
             (\<lambda>list_len. bind_result
                (map_result (byte_at ext_data) (filter (\<lambda>i. i < length ext_data) [1..<Suc list_len]))
                (\<lambda>fs. Inr (acc @ fs)))
      else Inr acc)"

definition take_extension :: "nat \<Rightarrow> str \<Rightarrow> ja3_params \<Rightarrow> (index_panic, ja3_params) result" where
  "take_extension ext_type ext_data p =
     (if is_grease ext_type then Inr p
      else bind_result (if ext_type = 0x000a then read_groups ext_data (ja_groups p) else Inr (ja_groups p))
             (\<lambda>groups. bind_result
                (if ext_type = 0x000b then read_formats ext_data (ja_point_formats p) else Inr (ja_point_formats p))
                (\<lambda>formats. Inr (p\<lparr>ja_extensions := ja_extensions p @ [ext_type], ja_groups := groups,
                                  ja_point_formats := formats\<rparr>))))"

function extension_loop :: "str \<Rightarrow> nat \<Rightarrow> ja3_params \<Rightarrow> (index_panic, ja3_params) result" where
  "extension_loop ext_block epos p =
     (if epos + 4 \<le> length ext_block
      then bind_result (be16_at ext_block epos) (\<lambda>ext_type.
           bind_result (be16_at ext_block (epos + 2)) (\<lambda>ext_len.
           case get_range ext_block (epos + 4) (epos + 4 + ext_len) of
             None \<Rightarrow> Inr p
           | Some ext_data \<Rightarrow>
               bind_result (take_extension ext_type ext_data p)
                 (\<lambda>p'. extension_loop ext_block (epos + 4 + ext_len) p')))
      else Inr p)"
  by auto
termination
  by (relation "measure (\<lambda>(ext_block, epos, p). length ext_block - epos)") auto

declare extension_loop.simps [simp del]

text \<open>The body of the handshake message; \<open>Inr None\<close> is the early return.\<close>

definition parse_hello :: "str \<Rightarrow> (index_panic, ja3_params option) result" where
  "parse_hello hello =
     (if length hello < 2 then Inr None
      else bind_result (be16_at hello 0) (\<lambda>version.
      if length hello < 34 then Inr None
      else if length hello < 34 + 1 then Inr None
      else bind_result (byte_at hello 34) (\<lambda>sid_len.
      let pos = 34 + 1 + sid_len in
      if length hello < pos + 2 then Inr None
      else bind_result (be16_at hello pos) (\<lambda>cs_len.
      let pos = pos + 2 in
      if length hello < pos + cs_len then Inr None
      else bind_result (cipher_loop hello pos cs_len 0 []) (\<lambda>ciphers.
      let pos = pos + cs_len;
          p = \<lparr>ja_version = version, ja_ciphers = ciphers, ja_extensions = [], ja_groups = [],
               ja_point_formats = []\<rparr> in
      if length hello < pos + 1 then Inr None
      else bind_result (byte_at hello pos) (\<lambda>comp_len.
      let pos = pos + 1 + comp_len in
      if length hello < pos + 2 then Inr (Some p)
      else bind_result (be16_at hello pos) (\<lambda>ext_total.
      let pos = pos + 2 in
      case get_range hello pos (pos + ext_total) of
        None \<Rightarrow> Inr None
      | Some ext_block \<Rightarrow> bind_result (extension_loop ext_block 0 p) (\<lambda>p'. Inr (Some p')))))))))"

definition parse_client_hello :: "str \<Rightarrow> (index_panic, ja3_params option) result" where
  "parse_client_hello data =
     (if length data < 5 then Inr None
      else bind_result (byte_at data 0) (\<lambda>content_type.
      if content_type \<noteq> 0x16 then Inr None
      else let hs = drop 5 data in
      if length hs < 4 then Inr None
      else bind_result (byte_at hs 0) (\<lambda>handshake_type.
      if handshake_type \<noteq> 0x01 then Inr None
      else bind_result (byte_at hs 1) (\<lambda>a. bind_result (byte_at hs 2) (\<lambda>b. bind_result (byte_at hs 3) (\<lambda>c.
      let hs_len = 65536 * a + 256 * b + c in
      case get_range hs 4 (4 + hs_len) of
        None \<Rightarrow> Inr None
      | Some hello \<Rightarrow> parse_hello hello))))))"

definition ja3_string :: "ja3_params \<Rightarrow> str" where
  "ja3_string p =
     show_nat (ja_version p) @ '','' @ join ''-'' (map show_nat (ja_ciphers p)) @ '','' @
     join ''-'' (map show_nat (ja_extensions p)) @ '','' @ join ''-'' (map show_nat (ja_groups p)) @ '','' @
     join ''-'' (map show_nat (ja_point_formats p))"

definition hash_params :: "(str \<Rightarrow> str) \<Rightarrow> ja3_params \<Rightarrow> str" where
  "hash_params md5_hex p = md5_hex (ja3_string p)"

definition compute_from_bytes :: "(str \<Rightarrow> str) \<Rightarrow> str \<Rightarrow> (index_panic, str option) result" where
  "compute_from_bytes md5_hex data =
     bind_result (parse_client_hello data) (\<lambda>r. Inr (map_option (hash_params md5_hex) r))"

section \<open>No panic\<close>

definition no_panic :: "(index_panic, 'a) result \<Rightarrow> bool" where
  "no_panic r = (\<exists>a. r = Inr a)"

named_theorems no_panics \<open>operations that do not panic\<close>

lemma no_panic_Inr [simp]: "no_panic (Inr a)"
  by (simp add: no_panic_def)

lemma no_panic_bind [no_panics]: "no_panic r \<Longrightarrow> (\<And>a. r = Inr a \<Longrightarrow> no_panic (f a)) \<Longrightarrow> no_panic (bind_result r f)"
  by (auto simp: no_panic_def)

lemma no_panic_byte_at [simp]: "no_panic (byte_at xs i) \<longleftrightarrow> i < length xs"
  by (simp add: no_panic_def byte_at_def)

lemma no_panic_be16_at [simp]: "no_panic (be16_at xs i) \<longleftrightarrow> i + 1 < length xs"
  by (auto simp: no_panic_def be16_at_def byte_at_def)

lemma no_panic_map_result: "(\<And>x. x \<in> set xs \<Longrightarrow> no_panic (f x)) \<Longrightarrow> no_panic (map_result f xs)"
  by (induction xs) (auto intro!: no_panic_bind)

lemma no_panic_cipher_loop: "no_panic (cipher_loop hello pos cs_len i acc)"
  by (induction hello pos cs_len i acc rule: cipher_loop.induct)
     (subst cipher_loop.simps, auto intro!: no_panic_bind)

lemma no_panic_group_loop: "no_panic (group_loop ext_data list_len gi acc)"
  by (induction ext_data list_len gi acc rule: group_loop.induct)
     (subst group_loop.simps, auto intro!: no_panic_bind)

lemma no_panic_take_extension: "no_panic (take_extension t ext_data p)"
  by (auto simp: take_extension_def read_groups_def read_formats_def
      intro!: no_panic_bind no_panic_group_loop no_panic_map_result)

lemma no_panic_extension_loop: "no_panic (extension_loop ext_block epos p)"
  by (induction ext_block epos p rule: extension_loop.induct)
     (subst extension_loop.simps, auto intro!: no_panic_bind no_panic_take_extension split: option.split)

lemma no_panic_parse_hello: "no_panic (parse_hello hello)"
  by (auto simp: parse_hello_def Let_def
      intro!: no_panic_bind no_panic_cipher_loop no_panic_extension_loop split: option.split)

lemma no_panic_parse: "no_panic (parse_client_hello data)"
  by (auto simp: parse_client_hello_def Let_def intro!: no_panic_bind no_panic_parse_hello split: option.split)
    arith+

text \<open>C23. Whatever bytes a client sends first, the fingerprint is computed without an index out of range.\<close>

theorem ja3_never_panics:
  "\<exists>r. compute_from_bytes md5_hex data = Inr r"
proof -
  obtain r where "parse_client_hello data = Inr r" using no_panic_parse by (auto simp: no_panic_def)
  then show ?thesis by (simp add: compute_from_bytes_def)
qed

section \<open>What the fingerprint says\<close>

text \<open>A client hello by its fields, and its bytes on the wire.\<close>

datatype hello_extension = Supported_Groups "nat list" | Point_Formats "nat list" | Other_Extension nat str

record client_hello =
  ch_version :: nat
  ch_random :: str
  ch_session_id :: str
  ch_ciphers :: "nat list"
  ch_compression :: str
  ch_extensions :: "hello_extension list"

definition enc8 :: "nat \<Rightarrow> str" where
  "enc8 n = [char_of n]"

definition enc16 :: "nat \<Rightarrow> str" where
  "enc16 n = [char_of (n div 256), char_of (n mod 256)]"

fun extension_type :: "hello_extension \<Rightarrow> nat" where
  "extension_type (Supported_Groups gs) = 0x000a"
| "extension_type (Point_Formats fs) = 0x000b"
| "extension_type (Other_Extension t d) = t"

fun extension_data :: "hello_extension \<Rightarrow> str" where
  "extension_data (Supported_Groups gs) = enc16 (2 * length gs) @ concat (map enc16 gs)"
| "extension_data (Point_Formats fs) = enc8 (length fs) @ concat (map enc8 fs)"
| "extension_data (Other_Extension t d) = d"

fun groups_of :: "hello_extension \<Rightarrow> nat list" where
  "groups_of (Supported_Groups gs) = gs"
| "groups_of _ = []"

fun formats_of :: "hello_extension \<Rightarrow> nat list" where
  "formats_of (Point_Formats fs) = fs"
| "formats_of _ = []"

definition enc_extension :: "hello_extension \<Rightarrow> str" where
  "enc_extension e = enc16 (extension_type e) @ enc16 (length (extension_data e)) @ extension_data e"

definition enc_extensions :: "hello_extension list \<Rightarrow> str" where
  "enc_extensions es = concat (map enc_extension es)"

definition enc_hello :: "client_hello \<Rightarrow> str" where
  "enc_hello h =
     enc16 (ch_version h) @ ch_random h @ enc8 (length (ch_session_id h)) @ ch_session_id h @
     enc16 (2 * length (ch_ciphers h)) @ concat (map enc16 (ch_ciphers h)) @
     enc8 (length (ch_compression h)) @ ch_compression h @
     enc16 (length (enc_extensions (ch_extensions h))) @ enc_extensions (ch_extensions h)"

text \<open>The handshake message in a record whose version and length, which the parser ignores, are arbitrary.\<close>

definition enc_record :: "str \<Rightarrow> client_hello \<Rightarrow> str" where
  "enc_record vl h =
     enc8 0x16 @ vl @ enc8 0x01 @ enc8 (length (enc_hello h) div 65536) @
     enc16 (length (enc_hello h) mod 65536) @ enc_hello h"

fun extension_ok :: "hello_extension \<Rightarrow> bool" where
  "extension_ok (Supported_Groups gs) \<longleftrightarrow> list_all (\<lambda>g. g < 65536) gs \<and> 2 * length gs + 2 < 65536"
| "extension_ok (Point_Formats fs) \<longleftrightarrow> list_all (\<lambda>f. f < 256) fs \<and> length fs < 256"
| "extension_ok (Other_Extension t d) \<longleftrightarrow> t < 65536 \<and> t \<noteq> 0x000a \<and> t \<noteq> 0x000b \<and> length d < 65536"

definition hello_ok :: "client_hello \<Rightarrow> bool" where
  "hello_ok h \<longleftrightarrow>
     ch_version h < 65536 \<and> length (ch_random h) = 32 \<and> length (ch_session_id h) < 256 \<and>
     list_all (\<lambda>c. c < 65536) (ch_ciphers h) \<and> 2 * length (ch_ciphers h) < 65536 \<and>
     length (ch_compression h) < 256 \<and> list_all extension_ok (ch_extensions h) \<and>
     length (enc_extensions (ch_extensions h)) < 65536"

definition without_grease :: "nat list \<Rightarrow> nat list" where
  "without_grease = filter (\<lambda>v. \<not> is_grease v)"

text \<open>What the fingerprint is about.\<close>

definition ja3_of_hello :: "client_hello \<Rightarrow> ja3_params" where
  "ja3_of_hello h =
     \<lparr>ja_version = ch_version h, ja_ciphers = without_grease (ch_ciphers h),
      ja_extensions = without_grease (map extension_type (ch_extensions h)),
      ja_groups = without_grease (concat (map groups_of (ch_extensions h))),
      ja_point_formats = concat (map formats_of (ch_extensions h))\<rparr>"

lemma byte_char_of: "byte (char_of n) = n mod 256"
  by (simp add: byte_def)

lemma length_enc [simp]: "length (enc8 n) = 1" "length (enc16 n) = 2"
  by (simp_all add: enc8_def enc16_def)

lemma length_concat_enc16 [simp]: "length (concat (map enc16 ns)) = 2 * length ns"
  by (induction ns) simp_all

lemma byte_at_enc8: "length pre = i \<Longrightarrow> n < 256 \<Longrightarrow> byte_at (pre @ enc8 n @ post) i = Inr n"
  by (auto simp: byte_at_def enc8_def nth_append byte_char_of)

lemma be16_at_enc16: "length pre = i \<Longrightarrow> n < 65536 \<Longrightarrow> be16_at (pre @ enc16 n @ post) i = Inr n"
  by (auto simp: be16_at_def byte_at_def enc16_def nth_append byte_char_of less_mult_imp_div_less mod_less)

lemma without_grease_simps [simp]:
  "without_grease [] = []"
  "without_grease (v # vs) = (if is_grease v then without_grease vs else v # without_grease vs)"
  "without_grease (vs @ ws) = without_grease vs @ without_grease ws"
  by (simp_all add: without_grease_def)

lemma cipher_loop_enc:
  "length pre = pos + i \<Longrightarrow> i + 2 * length cs = cs_len \<Longrightarrow> list_all (\<lambda>c. c < 65536) cs \<Longrightarrow>
   cipher_loop (pre @ concat (map enc16 cs) @ post) pos cs_len i acc = Inr (acc @ without_grease cs)"
proof (induction cs arbitrary: pre i acc)
  case Nil
  then show ?case by (simp add: cipher_loop.simps)
next
  case (Cons c cs)
  have "cipher_loop ((pre @ enc16 c) @ concat (map enc16 cs) @ post) pos cs_len (i + 2) (push_value c acc) =
        Inr (push_value c acc @ without_grease cs)"
    by (rule Cons.IH) (use Cons.prems in auto)
  moreover have "be16_at (pre @ enc16 c @ concat (map enc16 cs) @ post) (pos + i) = Inr c"
    by (rule be16_at_enc16) (use Cons.prems in auto)
  ultimately show ?case
    using Cons.prems by (subst cipher_loop.simps) (simp add: push_value_def)
qed

lemma group_loop_enc:
  "length pre = gi \<Longrightarrow> gi + 2 * length gs = 2 + list_len \<Longrightarrow> list_all (\<lambda>g. g < 65536) gs \<Longrightarrow>
   group_loop (pre @ concat (map enc16 gs)) list_len gi acc = Inr (acc @ without_grease gs)"
proof (induction gs arbitrary: pre gi acc)
  case Nil
  then show ?case by (simp add: group_loop.simps)
next
  case (Cons g gs)
  have "group_loop ((pre @ enc16 g) @ concat (map enc16 gs)) list_len (gi + 2) (push_value g acc) =
        Inr (push_value g acc @ without_grease gs)"
    by (rule Cons.IH) (use Cons.prems in auto)
  moreover have "be16_at (pre @ enc16 g @ concat (map enc16 gs)) gi = Inr g"
    by (rule be16_at_enc16) (use Cons.prems in auto)
  ultimately show ?case
    using Cons.prems by (subst group_loop.simps) (simp add: push_value_def)
qed

lemma map_result_byte_at:
  "list_all (\<lambda>i. i < length xs) is \<Longrightarrow> map_result (byte_at xs) is = Inr (map (\<lambda>i. byte (xs ! i)) is)"
  by (induction "is") (simp_all add: byte_at_def)

lemma concat_enc8: "concat (map enc8 fs) = map char_of fs"
  by (induction fs) (simp_all add: enc8_def)

lemma read_formats_enc:
  assumes "list_all (\<lambda>f. f < 256) fs" "length fs < 256"
  shows "read_formats (enc8 (length fs) @ concat (map enc8 fs)) acc = Inr (acc @ fs)"
proof -
  let ?d = "enc8 (length fs) @ concat (map enc8 fs)"
  have len: "length ?d = Suc (length fs)" by (simp add: concat_enc8)
  have "filter (\<lambda>i. i < length ?d) [1..<Suc (length fs)] = [1..<Suc (length fs)]"
    by (rule filter_True) (auto simp: concat_enc8)
  moreover have "map_result (byte_at ?d) [1..<Suc (length fs)] = Inr (map (\<lambda>i. byte (?d ! i)) [1..<Suc (length fs)])"
    by (rule map_result_byte_at) (auto simp: list_all_iff concat_enc8)
  moreover have "map (\<lambda>i. byte (?d ! i)) [1..<Suc (length fs)] = fs"
    using assms(1) by (intro nth_equalityI) (auto simp: enc8_def concat_enc8 list_all_length byte_char_of simp del: upt_Suc)
  moreover have "byte_at ?d 0 = Inr (length fs)"
    using byte_at_enc8 [of "[]" 0 "length fs"] assms(2) by simp
  ultimately show ?thesis by (simp add: read_formats_def len del: upt_Suc)
qed

lemma read_groups_enc:
  assumes "list_all (\<lambda>g. g < 65536) gs" "2 * length gs + 2 < 65536"
  shows "read_groups (enc16 (2 * length gs) @ concat (map enc16 gs)) acc = Inr (acc @ without_grease gs)"
  using be16_at_enc16 [of "[]" 0 "2 * length gs"] group_loop_enc [of "enc16 (2 * length gs)" 2 gs "2 * length gs" acc] assms
  by (simp add: read_groups_def)

text \<open>What one extension adds.\<close>

definition add_extension :: "hello_extension \<Rightarrow> ja3_params \<Rightarrow> ja3_params" where
  "add_extension e p =
     p\<lparr>ja_extensions := ja_extensions p @ without_grease [extension_type e],
       ja_groups := ja_groups p @ without_grease (groups_of e),
       ja_point_formats := ja_point_formats p @ formats_of e\<rparr>"

lemma not_grease_lists: "\<not> is_grease 10" "\<not> is_grease 11"
  by (simp_all add: is_grease_def GREASE_VALUES_def)

lemma take_extension_enc:
  "extension_ok e \<Longrightarrow> take_extension (extension_type e) (extension_data e) p = Inr (add_extension e p)"
  by (cases e) (auto simp: take_extension_def add_extension_def not_grease_lists read_groups_enc read_formats_enc)

lemma extension_ok_bounds: "extension_ok e \<Longrightarrow> extension_type e < 65536 \<and> length (extension_data e) < 65536"
  by (cases e) (auto simp: concat_enc8)

lemma get_range_mid: "length pre = a \<Longrightarrow> b = a + length mid \<Longrightarrow> get_range (pre @ mid @ post) a b = Some mid"
  by (simp add: get_range_def)

lemma extension_loop_enc:
  "length pre = epos \<Longrightarrow> list_all extension_ok es \<Longrightarrow>
   extension_loop (pre @ enc_extensions es) epos p = Inr (fold add_extension es p)"
proof (induction es arbitrary: pre epos p)
  case Nil
  then show ?case by (simp add: extension_loop.simps enc_extensions_def)
next
  case (Cons e es)
  let ?d = "extension_data e" and ?rest = "enc_extensions es"
  let ?block = "pre @ enc16 (extension_type e) @ enc16 (length ?d) @ ?d @ ?rest"
  have ok: "extension_ok e" "extension_type e < 65536" "length ?d < 65536"
    using Cons.prems extension_ok_bounds by auto
  have t: "be16_at ?block epos = Inr (extension_type e)"
    by (rule be16_at_enc16) (use Cons.prems ok in auto)
  have l: "be16_at ?block (epos + 2) = Inr (length ?d)"
    using be16_at_enc16 [of "pre @ enc16 (extension_type e)" "epos + 2" "length ?d" "?d @ ?rest"] Cons.prems ok by simp
  have r: "get_range ?block (epos + 4) (epos + 4 + length ?d) = Some ?d"
    using get_range_mid [of "pre @ enc16 (extension_type e) @ enc16 (length ?d)" "epos + 4" _ ?d ?rest] Cons.prems by simp
  have "extension_loop ((pre @ enc16 (extension_type e) @ enc16 (length ?d) @ ?d) @ ?rest) (epos + 4 + length ?d)
          (add_extension e p) = Inr (fold add_extension es (add_extension e p))"
    by (rule Cons.IH) (use Cons.prems in auto)
  then have "extension_loop ?block epos p = Inr (fold add_extension es (add_extension e p))"
    using Cons.prems t l r ok by (subst extension_loop.simps) (simp add: take_extension_enc)
  then show ?case by (simp add: enc_extensions_def enc_extension_def)
qed

lemma fold_add_extension:
  "fold add_extension es p =
     p\<lparr>ja_extensions := ja_extensions p @ without_grease (map extension_type es),
       ja_groups := ja_groups p @ without_grease (concat (map groups_of es)),
       ja_point_formats := ja_point_formats p @ concat (map formats_of es)\<rparr>"
  by (induction es arbitrary: p) (simp_all add: add_extension_def)

lemma parse_hello_enc:
  assumes ok: "hello_ok h"
  shows "parse_hello (enc_hello h) = Inr (Some (ja3_of_hello h))"
proof -
  define v s cs c es where "v = enc16 (ch_version h)"
    and "s = enc8 (length (ch_session_id h))"
    and "cs = enc16 (2 * length (ch_ciphers h))"
    and "c = enc8 (length (ch_compression h))"
    and "es = enc16 (length (enc_extensions (ch_extensions h)))"
  note parts = v_def s_def cs_def c_def es_def
  define sl where "sl = length (ch_session_id h)"
  define cl where "cl = 2 * length (ch_ciphers h)"
  define ml where "ml = length (ch_compression h)"
  define ciphers where "ciphers = concat (map enc16 (ch_ciphers h))"
  define block where "block = enc_extensions (ch_extensions h)"
  have hello: "enc_hello h = v @ ch_random h @ s @ ch_session_id h @ cs @ ciphers @ c @ ch_compression h @ es @ block"
    by (simp add: enc_hello_def parts ciphers_def block_def)
  have lens [simp]: "length v = 2" "length (ch_random h) = 32" "length s = 1" "length cs = 2"
      "length ciphers = cl" "length c = 1" "length es = 2"
    using ok by (simp_all add: parts ciphers_def cl_def hello_ok_def)
  have bnd: "ch_version h < 65536" "sl < 256" "cl < 65536" "ml < 256" "length block < 65536"
      "list_all (\<lambda>c. c < 65536) (ch_ciphers h)" "list_all extension_ok (ch_extensions h)"
    using ok by (simp_all add: hello_ok_def sl_def cl_def ml_def block_def)
  have ls [simp]: "length (ch_session_id h) = sl" "2 * length (ch_ciphers h) = cl" "length (ch_compression h) = ml"
    by (simp_all add: sl_def cl_def ml_def)
  have len: "length (enc_hello h) = 42 + sl + cl + ml + length block - 2" by (simp add: hello)
  have r1: "be16_at (enc_hello h) 0 = Inr (ch_version h)"
    using be16_at_enc16 [of "[]" 0 "ch_version h"] bnd by (simp add: hello v_def)
  have r2: "byte_at (enc_hello h) 34 = Inr sl"
    using byte_at_enc8 [of "v @ ch_random h" 34 sl] bnd by (simp add: hello s_def)
  have r3: "be16_at (enc_hello h) (35 + sl) = Inr cl"
    using be16_at_enc16 [of "v @ ch_random h @ s @ ch_session_id h" "35 + sl" cl] bnd
    by (simp add: hello cs_def)
  have r4: "cipher_loop (enc_hello h) (37 + sl) cl 0 [] = Inr (without_grease (ch_ciphers h))"
    using cipher_loop_enc [of "v @ ch_random h @ s @ ch_session_id h @ cs" "37 + sl" 0 "ch_ciphers h" cl _ "[]"] bnd
    by (simp add: hello ciphers_def)
  have r5: "byte_at (enc_hello h) (37 + (sl + cl)) = Inr ml"
    using byte_at_enc8 [of "v @ ch_random h @ s @ ch_session_id h @ cs @ ciphers" "37 + (sl + cl)" ml] bnd
    by (simp add: hello c_def)
  have r6: "be16_at (enc_hello h) (38 + (sl + (cl + ml))) = Inr (length block)"
    using be16_at_enc16 [of "v @ ch_random h @ s @ ch_session_id h @ cs @ ciphers @ c @ ch_compression h"
        "38 + (sl + (cl + ml))" "length block" block] bnd
    by (simp add: hello es_def flip: block_def)
  have r7: "get_range (enc_hello h) (40 + (sl + (cl + ml))) (40 + (sl + (cl + (ml + length block)))) = Some block"
    using get_range_mid [of "v @ ch_random h @ s @ ch_session_id h @ cs @ ciphers @ c @ ch_compression h @ es"
        "40 + (sl + (cl + ml))" _ block "[]"] by (simp add: hello add.assoc)
  have r8: "extension_loop block 0 p = Inr (fold add_extension (ch_extensions h) p)" for p
    using extension_loop_enc [of "[]" 0 "ch_extensions h" p] bnd by (simp add: block_def)
  show ?thesis
    by (simp add: parse_hello_def Let_def add.assoc len r1 r2 r3 r4 r5 r6 r7 r8 fold_add_extension ja3_of_hello_def)
qed

lemma hello_length: "hello_ok h \<Longrightarrow> length (enc_hello h) < 2 ^ 24"
  by (simp add: hello_ok_def enc_hello_def)

lemma parse_client_hello_record:
  assumes "hello_ok h" "length vl = 4"
  shows "parse_client_hello (take n (enc_record vl h @ rest)) =
           (if length (enc_record vl h) \<le> n then Inr (Some (ja3_of_hello h)) else Inr None)"
proof -
  let ?l = "length (enc_hello h)"
  define hdr where "hdr = enc8 0x01 @ enc8 (?l div 65536) @ enc16 (?l mod 65536)"
  define data where "data = take n (enc_record vl h @ rest)"
  have rec: "enc_record vl h = (enc8 0x16 @ vl) @ hdr @ enc_hello h" by (simp add: enc_record_def hdr_def)
  have hdr: "length hdr = 4" by (simp add: hdr_def)
  have l: "?l < 2 ^ 24" "65536 * (?l div 65536) + 256 * (?l mod 65536 div 256) + ?l mod 65536 mod 256 = ?l"
    using hello_length [OF assms(1)] by presburger+
  show ?thesis
  proof (cases "n < 9")
    case True
    then have "length data < 9" by (simp add: data_def)
    then have "parse_client_hello data = Inr None"
      by (auto simp: parse_client_hello_def Let_def byte_at_def)
    with True show ?thesis by (simp add: data_def rec hdr assms)
  next
    case False
    then have "5 \<le> n" "4 \<le> n - 5" by auto
    have hs: "drop 5 data = hdr @ take (n - 9) (enc_hello h @ rest)"
      using False hdr assms(2) by (simp add: data_def rec take_append)
    have "length (enc_record vl h @ rest) = 9 + ?l + length rest" by (simp add: rec hdr assms)
    then have len: "length data = min n (9 + ?l + length rest)"
      by (simp only: data_def length_take min.commute)
    have ld: "9 \<le> length data" using len False by simp
    have b0: "byte_at data 0 = Inr 0x16"
      using False by (simp add: data_def rec byte_at_def enc8_def byte_char_of)
    have b: "byte_at (hdr @ xs) 0 = Inr 1" "byte_at (hdr @ xs) (Suc 0) = Inr (?l div 65536)"
        "byte_at (hdr @ xs) 2 = Inr (?l mod 65536 div 256)" "byte_at (hdr @ xs) 3 = Inr (?l mod 65536 mod 256)" for xs
      using l(1) by (auto simp: hdr_def byte_at_def enc8_def enc16_def byte_char_of)
    have g: "get_range (hdr @ xs) 4 (4 + ?l) = (if ?l \<le> length xs then Some (take ?l xs) else None)" for xs
      by (simp add: get_range_def hdr)
    have parse: "parse_client_hello data = (if ?l \<le> length xs then parse_hello (take ?l xs) else Inr None)"
      if "drop 5 data = hdr @ xs" for xs
      using that ld l(2) by (simp add: parse_client_hello_def Let_def hdr b0 b g)
    have "parse_client_hello data =
          (if ?l \<le> length (take (n - 9) (enc_hello h @ rest))
           then parse_hello (take ?l (take (n - 9) (enc_hello h @ rest))) else Inr None)"
      by (rule parse [OF hs])
    also have "\<dots> = (if ?l \<le> n - 9 then Inr (Some (ja3_of_hello h)) else Inr None)"
    proof (cases "?l \<le> n - 9")
      case True
      then show ?thesis by (simp add: parse_hello_enc [OF assms(1)])
    next
      case False
      then show ?thesis by simp
    qed
    finally show ?thesis using False by (auto simp: data_def rec hdr assms)
  qed
qed

text \<open>The fingerprint of the first bytes of a well-formed hello: there is one when the whole hello is there.\<close>

lemma compute_from_prefix:
  assumes "hello_ok h" "length vl = 4"
  shows "compute_from_bytes md5_hex (take n (enc_record vl h @ rest)) =
           Inr (if length (enc_record vl h) \<le> n then Some (md5_hex (ja3_string (ja3_of_hello h))) else None)"
  using parse_client_hello_record [OF assms, of n rest] by (simp add: compute_from_bytes_def hash_params_def)

text \<open>C22. The fingerprint of a client is that of its hello: the version, and the ciphers, extensions and groups
  in the order sent with the GREASE values left out, and the point formats, whatever follows the
  hello on the connection.\<close>

theorem ja3_reads_hello:
  assumes "hello_ok h" "length vl = 4"
  shows "compute_from_bytes md5_hex (enc_record vl h @ rest) = Inr (Some (md5_hex (ja3_string (ja3_of_hello h))))"
  using compute_from_prefix [OF assms, of md5_hex "length (enc_record vl h @ rest)" rest] by simp

definition demo_hello :: client_hello where
  "demo_hello =
     \<lparr>ch_version = 771, ch_random = replicate 32 (CHR ''r''), ch_session_id = ''s'', ch_ciphers = [0x1a1a, 4865, 49195],
      ch_compression = [CHR 0x00],
      ch_extensions = [Other_Extension 0x2a2a [], Supported_Groups [29, 0x3a3a, 23], Point_Formats [0]]\<rparr>"

lemma demo_hello_ok: "hello_ok demo_hello"
  by (simp add: hello_ok_def demo_hello_def enc_extensions_def enc_extension_def)

lemma demo_hello_ja3:
  "ja3_of_hello demo_hello =
     \<lparr>ja_version = 771, ja_ciphers = [4865, 49195], ja_extensions = [10, 11], ja_groups = [29, 23],
      ja_point_formats = [0]\<rparr>"
  by (simp add: ja3_of_hello_def demo_hello_def is_grease_def GREASE_VALUES_def)

theorem ja3_reads_hello_witness:
  "compute_from_bytes (\<lambda>s. s) (enc_record [CHR 0x03, CHR 0x01, CHR 0x00, CHR 0x4D] demo_hello @ ''early data'') =
     Inr (Some (ja3_string
       \<lparr>ja_version = 771, ja_ciphers = [4865, 49195], ja_extensions = [10, 11], ja_groups = [29, 23],
        ja_point_formats = [0]\<rparr>))"
  using ja3_reads_hello [OF demo_hello_ok, of "[CHR 0x03, CHR 0x01, CHR 0x00, CHR 0x4D]" "\<lambda>s. s" "''early data''"]
  by (simp add: demo_hello_ja3)

end
