(* ===== verification/Tls_Listener.thy ===== *)
theory Tls_Listener
  imports Ja3 Http_Requests
begin

text \<open>
  The TLS listener (\<^verbatim>\<open>serverwall-proxy/src/listener/tls_listener.rs\<close>): it peeks at what has
  arrived, computes the fingerprint, lets \<^verbatim>\<open>rustls\<close> accept the connection and hands the stream,
  the server name and the fingerprint to the handler. The handshake and the digest are parameters. The
  theorem joins it to the bot rules of the HTTP proxy, which read the fingerprint.\<close>

definition PEEK_SIZE :: nat where
  "PEEK_SIZE = 4096"

text \<open>\<open>arrived\<close> is what the connection holds when the peek returns, or its error.\<close>

definition peek_ja3 :: "(str \<Rightarrow> str) \<Rightarrow> ('e, str) result \<Rightarrow> (index_panic, str option) result" where
  "peek_ja3 md5_hex arrived =
     (case arrived of
        Inr bytes \<Rightarrow>
          let peeked = take PEEK_SIZE bytes in
          if 0 < length peeked then compute_from_bytes md5_hex peeked else Inr None
      | Inl _ \<Rightarrow> Inr None)"

text \<open>The arguments of the handler, \<open>None\<close> when the handshake fails.\<close>

definition tls_connection ::
  "(str \<Rightarrow> str) \<Rightarrow> ('tcp \<Rightarrow> ('e, 'tls) result) \<Rightarrow> ('tls \<Rightarrow> str option) \<Rightarrow> ('e, str) result \<Rightarrow> 'tcp \<Rightarrow>
   (index_panic, ('tls \<times> str option \<times> str option) option) result" where
  "tls_connection md5_hex accept server_name arrived tcp =
     bind_result (peek_ja3 md5_hex arrived) (\<lambda>ja3_hash.
     Inr (case accept tcp of
            Inl _ \<Rightarrow> None
          | Inr tls \<Rightarrow> Some (tls, server_name tls, ja3_hash)))"

lemma peek_ja3_prefix:
  assumes "hello_ok h" "length vl = 4"
  shows "peek_ja3 md5_hex (Inr (take n (enc_record vl h @ rest))) =
           Inr (if length (enc_record vl h) \<le> min n PEEK_SIZE
                then Some (md5_hex (ja3_string (ja3_of_hello h))) else None)"
proof -
  have "take PEEK_SIZE (take n xs) = take (min n PEEK_SIZE) xs" for xs :: str by (simp add: min.commute)
  moreover have "enc_record vl h \<noteq> []" by (simp add: enc_record_def enc8_def)
  ultimately show ?thesis
    using compute_from_prefix [OF assms, of md5_hex "min n PEEK_SIZE" rest]
    by (auto simp: peek_ja3_def Let_def PEEK_SIZE_def simp del: take_take take_append)
qed

text \<open>C40. The list of blocked fingerprints applies to a client exactly when its whole hello, at most 4096 bytes
  long, had arrived when the listener looked: a client that sends its hello in two segments is judged
  by its user agent alone.\<close>

theorem ja3_block_list_reach:
  assumes "hello_ok h" "length vl = 4"
    and "tls_connection md5_hex accept server_name (Inr (take n (enc_record vl h @ rest))) tcp = Inr (Some (tls, sni, ja3))"
  shows "bot_denied hp hm ja3 \<longleftrightarrow>
           bd_enabled (hp_bot_detection hp) \<and>
           (is_blocked_bot (case map_of hm ''user-agent'' of Some ua \<Rightarrow> ua | None \<Rightarrow> []) (hp_bot_detection hp) \<or>
            length (enc_record vl h) \<le> min n PEEK_SIZE \<and>
            md5_hex (ja3_string (ja3_of_hello h)) \<in> set (bd_ja3_fingerprint_block_list (hp_bot_detection hp)))"
proof -
  have "ja3 = (if length (enc_record vl h) \<le> min n PEEK_SIZE then Some (md5_hex (ja3_string (ja3_of_hello h))) else None)"
    using assms(3) unfolding tls_connection_def peek_ja3_prefix [OF assms(1,2)] by (auto split: sum.splits)
  then show ?thesis by (auto simp: bot_denied_def Let_def list_ex_iff)
qed

theorem ja3_block_list_reach_witness:
  "tls_connection (\<lambda>s. s) Inr (\<lambda>tls. None)
     (Inr (take 40 (enc_record (replicate 4 (CHR 0x03)) demo_hello @ [])) :: (unit, str) result) () =
     Inr (Some ((), None, None)) \<and>
   (\<forall>hp hm. bot_denied hp hm None \<longleftrightarrow>
      bd_enabled (hp_bot_detection hp) \<and>
      is_blocked_bot (case map_of hm ''user-agent'' of Some ua \<Rightarrow> ua | None \<Rightarrow> []) (hp_bot_detection hp))"
proof -
  let ?vl = "replicate 4 (CHR 0x03)"
  have len: "\<not> length (enc_record ?vl demo_hello) \<le> 40"
    by (simp add: enc_record_def enc_hello_def demo_hello_def)
  have run: "tls_connection (\<lambda>s. s) Inr (\<lambda>tls. None)
      (Inr (take 40 (enc_record ?vl demo_hello @ [])) :: (unit, str) result) () = Inr (Some ((), None, None))"
    unfolding tls_connection_def peek_ja3_prefix [OF demo_hello_ok length_replicate] using len by simp
  then show ?thesis
    using ja3_block_list_reach [OF demo_hello_ok _ run] len by auto
qed

end
